theory Spec2Isabelle
  imports Main "HOL-Library.Word"
begin

section \<open>The abstract syntax tree of Blueprints files (parser/ast.go)\<close>

text \<open>
  Source positions are the four fields of Go's \<open>scanner.Position\<close>. The zero value of the
  struct is the position of synthesized nodes; a position is valid when its line is positive.
\<close>

record position =
  Filename :: string
  Offset :: int
  Line :: int
  Column :: int

definition zeroPos :: position where
  "zeroPos = \<lparr>Filename = [], Offset = 0, Line = 0, Column = 0\<rparr>"

definition IsValid :: "position \<Rightarrow> bool" where
  "IsValid pos = (Line pos > 0)"

definition endPos :: "position \<Rightarrow> int \<Rightarrow> position" where
  "endPos pos n = pos\<lparr>Offset := Offset pos + n, Column := Column pos + n\<rparr>"

text \<open>The \<open>Type\<close> enumeration (\<open>BoolType = iota + 1\<close> onwards).\<close>

datatype Type = BoolType | StringType | Int64Type | ListType | MapType | NotEvaluatedType
  | UnsetType

text \<open>
  A Go \<open>rune\<close> as the scanner returns it: one of the negative token classes of
  \<open>text/scanner\<close>, or any other character as itself. The operator of an \<open>Operator\<close> node is
  such a rune.
\<close>

datatype token_kind = EOF | Ident | IntTok | FloatTok | CharTok | StringTok | RawStringTok
  | CommentTok | Sym char

type_synonym rune = token_kind

text \<open>
  A \<open>ConfigurableCondition\<close> holds its argument strings by value (\<open>Args []String\<close>): each
  argument is a \<open>String\<close> struct, a literal position and a decoded value.
\<close>

record ConfigurableCondition =
  cond_position :: position
  FunctionName :: string
  Args :: "(position \<times> string) list"

text \<open>
  Expressions. The Go interface \<open>Expression\<close> has ten implementations; each is a constructor
  carrying the struct's fields in declaration order. Slices are lists (a nil slice is the
  empty list), the optional \<open>Append\<close> of a select is an option, \<open>int64\<close> is a 64-bit word.
  A \<open>Property\<close> and a \<open>SelectCase\<close> are structs of their own, reached through pointers.
\<close>

datatype Expression =
    String (LiteralPos: position) (StringValue: string)
  | Int64 position "64 word" string
  | Bool position bool string
  | List position position "Expression list"
  | Map position position "Property list"
  | Variable string position Expression
  | Operator Expression Expression rune position Expression
  | Select position "ConfigurableCondition list" position position "SelectCase list"
      "Expression option" Type
  | NotEvaluated position
  | UnsetProperty position
and Property =
    Property (PropName: string) (PropNamePos: position) (PropColonPos: position)
      (PropValue: Expression)
and SelectCase =
    SelectCase (Patterns: "Expression list") (CaseColonPos: position) (CaseValue: Expression)

text \<open>\<open>Type()\<close>: an operator has the type of its left argument, a variable that of its
  referent, a select its \<open>ExpressionType\<close> unless that is unset and something was appended.\<close>

primrec TypeOf :: "Expression \<Rightarrow> Type" where
  "TypeOf (String pos v) = StringType"
| "TypeOf (Int64 pos v tk) = Int64Type"
| "TypeOf (Bool pos v tk) = BoolType"
| "TypeOf (List l r vs) = ListType"
| "TypeOf (Map l r ps) = MapType"
| "TypeOf (Variable n pos v) = TypeOf v"
| "TypeOf (Operator a0 a1 opr pos v) = TypeOf a0"
| "TypeOf (Select kw conds l r cs app ety) =
     (case map_option TypeOf app of
        Some t \<Rightarrow> if ety = UnsetType then t else ety
      | None \<Rightarrow> ety)"
| "TypeOf (NotEvaluated pos) = NotEvaluatedType"
| "TypeOf (UnsetProperty pos) = UnsetType"

text \<open>\<open>Eval()\<close>: literals, lists, maps and selects evaluate to themselves; an operator and a
  variable evaluate their stored value.\<close>

primrec Eval :: "Expression \<Rightarrow> Expression" where
  "Eval (String pos v) = String pos v"
| "Eval (Int64 pos v tk) = Int64 pos v tk"
| "Eval (Bool pos v tk) = Bool pos v tk"
| "Eval (List l r vs) = List l r vs"
| "Eval (Map l r ps) = Map l r ps"
| "Eval (Variable n pos v) = Eval v"
| "Eval (Operator a0 a1 opr pos v) = Eval v"
| "Eval (Select kw conds l r cs app ety) = Select kw conds l r cs app ety"
| "Eval (NotEvaluated pos) = NotEvaluated pos"
| "Eval (UnsetProperty pos) = UnsetProperty pos"

text \<open>
  \<open>Copy()\<close> on values. Each equation rebuilds the node as the Go method does: a list copies
  its elements, a map its properties, an operator its two arguments (and keeps \<open>Value\<close>), a
  variable keeps its referent, a select copies the value of each case and the appended
  expression, a select case keeps its patterns.
\<close>

primrec Copy :: "Expression \<Rightarrow> Expression"
  and CopyProperty :: "Property \<Rightarrow> Property"
  and CopySelectCase :: "SelectCase \<Rightarrow> SelectCase" where
  "Copy (String pos v) = String pos v"
| "Copy (Int64 pos v tk) = Int64 pos v tk"
| "Copy (Bool pos v tk) = Bool pos v tk"
| "Copy (List l r vs) = List l r (map Copy vs)"
| "Copy (Map l r ps) = Map l r (map CopyProperty ps)"
| "Copy (Variable n pos v) = Variable n pos v"
| "Copy (Operator a0 a1 opr pos v) = Operator (Copy a0) (Copy a1) opr pos v"
| "Copy (Select kw conds l r cs app ety) =
     Select kw conds l r (map CopySelectCase cs) (map_option Copy app) ety"
| "Copy (NotEvaluated pos) = NotEvaluated pos"
| "Copy (UnsetProperty pos) = UnsetProperty pos"
| "CopyProperty (Property n np cp v) = Property n np cp (Copy v)"
| "CopySelectCase (SelectCase pats cp v) = SelectCase pats cp (Copy v)"

section \<open>Assignments, errors and results\<close>

record Assignment =
  Name :: string
  NamePos :: position
  Value :: Expression
  OrigValue :: Expression
  EqualsPos :: position
  Assigner :: string
  Referenced :: bool

text \<open>
  Every error the parser and the evaluator build with \<open>fmt.Errorf\<close>, one constructor per
  format string, carrying the values the message is formatted from.
\<close>

datatype error =
    MismatchedType rune Type Type
  | OperatorNotSupported rune Type
  | AlreadySet Assignment
  | AlreadySetInherited Assignment
  | ScannerError string
  | Expected token_kind token_kind
  | ExpectedDefinition token_kind
  | ExpectedAssignmentOrModule token_kind
  | ReservedKeyword
  | ModifiedNonExistent string
  | ModifiedNonLocal string
  | ModifiedAfterReferencing string
  | SubtractionNotSupported position
  | ExpectedValue token_kind
  | ExpectedTrueFalse string
  | VariableNotSet string
  | DuplicateCondition ConfigurableCondition
  | ExpectedMultipleConditions
  | ExpectedPattern string
  | ReservedSoongPrefix
  | EmptySelect
  | DuplicatePatterns "Expression list"
  | DefaultNotLast nat nat
  | DifferingTypes Type Type
  | CouldntParseString
  | ExpectedInt token_kind
  | CouldntParseInt string

text \<open>Panics: the parser's own \<open>errTooManyErrors\<close>, the \<open>unknown operator\<close> panic of
  \<open>evaluateOperator\<close>, and the run-time panics of a failed type assertion and of a nil
  dereference.\<close>

datatype panic = ErrTooManyErrors | UnknownOperator rune | TypeAssertion | NilDereference

text \<open>The result of a Go function that returns \<open>(T, error)\<close> and may panic.\<close>

datatype 'a result = Ok 'a | Err error | Panic panic

section \<open>The evaluator: \<open>evaluateOperator\<close> and \<open>addMaps\<close>\<close>

lemma Copy_id_all:
  "Copy e = e" "CopyProperty pr = pr" "CopySelectCase c = c"
  by (induction e and pr and c) (auto simp add: map_idI intro!: option.map_ident_strong)

lemma size_Eval_le: "size (Eval e) \<le> size e"
  by (induction e) simp_all

lemma size_Map_Eval: "Map l r ps = Eval v \<Longrightarrow> size_list size ps < size v"
  using size_Eval_le[of v] by (cases "Eval v") auto

lemma size_PropValue: "3 * size (PropValue pr) < 4 + (3 * size pr + n)"
  by (cases pr) simp

primrec isSelect :: "Expression \<Rightarrow> bool" where
  "isSelect (String pos v) = False"
| "isSelect (Int64 pos v tk) = False"
| "isSelect (Bool pos v tk) = False"
| "isSelect (List l r vs) = False"
| "isSelect (Map l r ps) = False"
| "isSelect (Variable n pos v) = False"
| "isSelect (Operator a0 a1 opr pos v) = False"
| "isSelect (Select kw conds l r cs app ety) = True"
| "isSelect (NotEvaluated pos) = False"
| "isSelect (UnsetProperty pos) = False"

text \<open>The maps \<open>inMap1\<close> and \<open>inBoth\<close> that \<open>addMaps\<close> fills: a later property of the same
  name replaces an earlier one. (\<open>inMap2\<close> is filled and never read.)\<close>

definition inMap1_of :: "Property list \<Rightarrow> (string \<rightharpoonup> Property)" where
  "inMap1_of map_1 = fold (\<lambda>prop1 m. m(PropName prop1 \<mapsto> prop1)) map_1 Map.empty"

definition inBoth_of :: "(string \<rightharpoonup> Property) \<Rightarrow> Property list \<Rightarrow> (string \<rightharpoonup> Property)" where
  "inBoth_of inMap1 map_2 =
     fold (\<lambda>prop2 m. if inMap1 (PropName prop2) \<noteq> None then m(PropName prop2 \<mapsto> prop2) else m)
       map_2 Map.empty"

text \<open>
  \<open>evaluateOperator\<close> with the parser's \<open>eval\<close> flag as its first argument (the only field
  of the parser it reads). \<open>addMapsLeft\<close> is the loop of \<open>addMaps\<close> over \<open>map1\<close>; the loop
  over \<open>map2\<close> that follows appends the properties not in \<open>inBoth\<close>.
\<close>

function evaluateOperator :: "bool \<Rightarrow> Expression \<Rightarrow> Expression \<Rightarrow> rune \<Rightarrow> position \<Rightarrow> Expression result"
  and addMaps :: "bool \<Rightarrow> Property list \<Rightarrow> Property list \<Rightarrow> position \<Rightarrow> Property list result"
  and addMapsLeft :: "bool \<Rightarrow> (string \<rightharpoonup> Property) \<Rightarrow> Property list \<Rightarrow> position \<Rightarrow> Property list result"
where
  "evaluateOperator ev value1 value2 operator pos =
     (if TypeOf value1 = UnsetType then Ok value2
      else if TypeOf value2 = UnsetType then Ok value1
      else if ev then
        (let e1 = Eval value1; e2 = Eval value2 in
         if TypeOf e1 \<noteq> TypeOf e2 then Err (MismatchedType operator (TypeOf e1) (TypeOf e2))
         else
           (let e1' = (if \<not> isSelect e1 \<and> isSelect e2
                       then Select zeroPos [] zeroPos zeroPos [SelectCase [] zeroPos e1] None (TypeOf e1)
                       else e1);
                v = Copy e1'
            in if operator = Sym (CHR ''+'') then
                 (case v of
                    String lp s \<Rightarrow>
                      (case e2 of
                         String lp2 s2 \<Rightarrow> Ok (Operator value1 value2 operator pos (String lp (s @ s2)))
                       | _ \<Rightarrow> Panic TypeAssertion)
                  | Int64 lp i tk \<Rightarrow>
                      (case e2 of
                         Int64 lp2 i2 tk2 \<Rightarrow> Ok (Operator value1 value2 operator pos (Int64 lp (i + i2) []))
                       | _ \<Rightarrow> Panic TypeAssertion)
                  | List l r vs \<Rightarrow>
                      (case e2 of
                         List l2 r2 vs2 \<Rightarrow> Ok (Operator value1 value2 operator pos (List l r (vs @ vs2)))
                       | _ \<Rightarrow> Panic TypeAssertion)
                  | Map l r ps \<Rightarrow>
                      (case e2 of
                         Map l2 r2 ps2 \<Rightarrow>
                           (case addMaps ev ps ps2 pos of
                              Ok ps' \<Rightarrow> Ok (Operator value1 value2 operator pos (Map l r ps'))
                            | Err e \<Rightarrow> Err e
                            | Panic x \<Rightarrow> Panic x)
                       | _ \<Rightarrow> Panic TypeAssertion)
                  | Select kw conds l r cs app ety \<Rightarrow>
                      Ok (Operator value1 value2 operator pos (Select kw conds l r cs (Some e2) ety))
                  | _ \<Rightarrow> Err (OperatorNotSupported operator (TypeOf v)))
               else Panic (UnknownOperator operator)))
      else Ok (Operator value1 value2 operator pos value1))"
| "addMaps ev map_1 map_2 pos =
     (let inMap1 = inMap1_of map_1;
          inBoth = inBoth_of inMap1 map_2
      in case addMapsLeft ev inBoth map_1 pos of
           Ok ret \<Rightarrow> Ok (ret @ filter (\<lambda>prop2. inBoth (PropName prop2) = None) map_2)
         | Err e \<Rightarrow> Err e
         | Panic x \<Rightarrow> Panic x)"
| "addMapsLeft ev inBoth [] pos = Ok []"
| "addMapsLeft ev inBoth (prop1 # rest) pos =
     (case inBoth (PropName prop1) of
        Some prop2 \<Rightarrow>
          (case evaluateOperator ev (PropValue prop1) (PropValue prop2) (Sym (CHR ''+'')) pos of
             Ok v \<Rightarrow>
               (case addMapsLeft ev inBoth rest pos of
                  Ok ret \<Rightarrow> Ok (Property (PropName prop1) (PropNamePos prop1) (PropColonPos prop1) v # ret)
                | Err e \<Rightarrow> Err e
                | Panic x \<Rightarrow> Panic x)
           | Err e \<Rightarrow> Err e
           | Panic x \<Rightarrow> Panic x)
      | None \<Rightarrow>
          (case addMapsLeft ev inBoth rest pos of
             Ok ret \<Rightarrow> Ok (prop1 # ret)
           | Err e \<Rightarrow> Err e
           | Panic x \<Rightarrow> Panic x))"
  by pat_completeness auto

text \<open>Termination: the left operand shrinks. A merged map is below the operand it was
  evaluated from, and a property's value is below the property list that holds it.\<close>

termination evaluateOperator
proof (relation "measure (\<lambda>x. case x of
      Inl (ev, v1, v2, opr, pos) \<Rightarrow> 3 * size v1
    | Inr (Inl (ev, m1, m2, pos)) \<Rightarrow> 3 * size_list size m1 + 2
    | Inr (Inr (ev, ib, m1, pos)) \<Rightarrow> 3 * size_list size m1 + 1)", goal_cases)
  case 1
  then show ?case by simp
next
  case (2 ev value1 value2 operator pos x xa xb xc x51 x52 x53 x51a x52a x53a)
  have "Map x51 x52 x53 = Eval value1"
    using 2 by (auto simp add: Copy_id_all split: if_splits)
  from size_Map_Eval[OF this] show ?case by simp
next
  case 3
  then show ?case by simp
next
  case 4
  then show ?case by (simp add: size_PropValue)
next
  case 5
  then show ?case by (simp add: size_PropValue)
next
  case 6
  then show ?case by (simp add: size_PropValue)
qed

declare evaluateOperator.simps [simp del] addMaps.simps [simp del]

section \<open>Scopes\<close>

text \<open>A scope is two Go maps from names to assignments. Each \<open>NewScope\<close> allocates two fresh
  maps, so a scope's tables are its own; they are partial functions here.\<close>

record Scope =
  vars :: "string \<rightharpoonup> Assignment"
  inheritedVars :: "string \<rightharpoonup> Assignment"

text \<open>\<open>NewScope\<close>: the parent's local table is copied into the inherited table first, then
  the parent's inherited table over it. A nil parent gives two empty tables.\<close>

definition NewScope :: "Scope option \<Rightarrow> Scope" where
  "NewScope parent =
     (case parent of
        None \<Rightarrow> \<lparr>vars = Map.empty, inheritedVars = Map.empty\<rparr>
      | Some s \<Rightarrow> \<lparr>vars = Map.empty, inheritedVars = (Map.empty ++ vars s) ++ inheritedVars s\<rparr>)"

text \<open>\<open>Add\<close> returns the error (or nil) and the scope as the call leaves it.\<close>

definition Add :: "Scope \<Rightarrow> Assignment \<Rightarrow> error option \<times> Scope" where
  "Add s assignment =
     (case vars s (Name assignment) of
        Some old \<Rightarrow> (Some (AlreadySet old), s)
      | None \<Rightarrow>
          (case inheritedVars s (Name assignment) of
             Some old \<Rightarrow> (Some (AlreadySetInherited old), s)
           | None \<Rightarrow> (None, s\<lparr>vars := (vars s)(Name assignment \<mapsto> assignment)\<rparr>)))"

definition Remove :: "Scope \<Rightarrow> string \<Rightarrow> Scope" where
  "Remove s name = s\<lparr>vars := (vars s)(name := None), inheritedVars := (inheritedVars s)(name := None)\<rparr>"

definition Get :: "Scope \<Rightarrow> string \<Rightarrow> Assignment option \<times> bool" where
  "Get s name =
     (case vars s name of
        Some a \<Rightarrow> (Some a, True)
      | None \<Rightarrow>
          (case inheritedVars s name of
             Some a \<Rightarrow> (Some a, False)
           | None \<Rightarrow> (None, False)))"

text \<open>A caller's step on a scope: derive a child scope, add an assignment (the error, if
  any, is dropped here; \<open>Add\<close> itself reports it) or remove a name.\<close>

datatype scope_op = DoNewScope | DoAdd Assignment | DoRemove string

fun apply_op :: "Scope \<Rightarrow> scope_op \<Rightarrow> Scope" where
  "apply_op s DoNewScope = NewScope (Some s)"
| "apply_op s (DoAdd a) = snd (Add s a)"
| "apply_op s (DoRemove n) = Remove s n"

section \<open>Modules and their names\<close>

text \<open>
  The \<open>String()\<close> methods of expressions and properties format with \<open>fmt.Sprintf\<close>. The
  verbs of the standard library they rely on are parameters: \<open>%q\<close> on a string,
  \<open>%q\<close> on an \<open>int64\<close>, \<open>%s\<close> on a \<open>scanner.Position\<close> and \<open>%c\<close> on a rune.
\<close>

record formatter =
  quote_string :: "string \<Rightarrow> string"
  quote_int64 :: "64 word \<Rightarrow> string"
  show_position :: "position \<Rightarrow> string"
  show_rune :: "rune \<Rightarrow> string"

fun join :: "string \<Rightarrow> string list \<Rightarrow> string" where
  "join sep [] = []"
| "join sep [x] = x"
| "join sep (x # y # ys) = x @ sep @ join sep (y # ys)"

primrec ExpressionString :: "formatter \<Rightarrow> Expression \<Rightarrow> string"
  and PropertyString :: "formatter \<Rightarrow> Property \<Rightarrow> string"
  and SelectCaseString :: "formatter \<Rightarrow> SelectCase \<Rightarrow> string" where
  "ExpressionString f (String pos v) = quote_string f v @ ''@'' @ show_position f pos"
| "ExpressionString f (Int64 pos v tk) = quote_int64 f v @ ''@'' @ show_position f pos"
| "ExpressionString f (Bool pos v tk) =
     (if v then ''true'' else ''false'') @ ''@'' @ show_position f pos"
| "ExpressionString f (List l r vs) =
     ''@'' @ show_position f l @ ''-'' @ show_position f r @ ''[''
       @ join '', '' (map (ExpressionString f) vs) @ '']''"
| "ExpressionString f (Map l r ps) =
     ''@'' @ show_position f l @ ''-'' @ show_position f r @ ''{''
       @ join '', '' (map (PropertyString f) ps) @ ''}''"
| "ExpressionString f (Variable n pos v) = n @ '' = '' @ ExpressionString f v"
| "ExpressionString f (Operator a0 a1 opr pos v) =
     ''('' @ ExpressionString f a0 @ '' '' @ show_rune f opr @ '' '' @ ExpressionString f a1 @ '' = ''
       @ ExpressionString f v @ '')@'' @ show_position f pos"
| "ExpressionString f (Select kw conds l r cs app ety) = ''<select>''"
| "ExpressionString f (NotEvaluated pos) = ''Not Evaluated''"
| "ExpressionString f (UnsetProperty pos) = ''unset''"
| "PropertyString f (Property n np cp v) =
     n @ ''@'' @ show_position f cp @ '': '' @ ExpressionString f v"
| "SelectCaseString f (SelectCase pats cp v) = ''<select case>''"

text \<open>A module: its type, the embedded \<open>Map\<close> (two braces and the properties), and the
  cached name, nil until \<open>Name()\<close> has run.\<close>

record Module =
  ModuleType :: string
  TypePos :: position
  LBracePos :: position
  RBracePos :: position
  Properties :: "Property list"
  Name_internal_only :: "string option"

text \<open>The name one property named \<open>name\<close> gives: the value of a string literal, and the
  \<open>String()\<close> of any other expression.\<close>

definition nameOfProperty :: "formatter \<Rightarrow> Property \<Rightarrow> string" where
  "nameOfProperty f prop =
     (case PropValue prop of String pos v \<Rightarrow> v | e \<Rightarrow> ExpressionString f e)"

text \<open>\<open>Name()\<close> returns the name and the module with its cache as the call leaves it. The
  loop has no \<open>break\<close>: every property named \<open>name\<close> overwrites the cache.\<close>

definition ModuleName :: "formatter \<Rightarrow> Module \<Rightarrow> string \<times> Module" where
  "ModuleName f m =
     (case Name_internal_only m of
        Some name \<Rightarrow> (name, m)
      | None \<Rightarrow>
          (let cache = foldl (\<lambda>c prop. if PropName prop = ''name''
                                         then Some (nameOfProperty f prop) else c)
                         None (Properties m);
               cache' = (case cache of None \<Rightarrow> [] | Some name \<Rightarrow> name)
           in (cache', m\<lparr>Name_internal_only := Some cache'\<rparr>)))"

section \<open>Copy on a store\<close>

text \<open>
  The Go nodes are reached through pointers, and \<open>Copy\<close> decides which of them the copy
  shares with the original. A store makes that visible: an address is an index into a list
  of nodes, a node holds the addresses of the nodes its pointer fields and its slices of
  pointers refer to, and allocation appends. A slice that \<open>Copy\<close> allocates afresh with
  \<open>make\<close> (\<open>List.Values\<close>, \<open>Map.Properties\<close>, \<open>Select.Cases\<close>) is held in the node; a
  slice whose header \<open>Copy\<close> duplicates with the struct (\<open>Select.Conditions\<close>,
  \<open>SelectCase.Patterns\<close>) is a node of its own, the backing array.
\<close>

type_synonym addr = nat

datatype node =
    StringN position string
  | Int64N position "64 word" string
  | BoolN position bool string
  | ListN position position "addr list"
  | MapN position position "addr list"
  | VariableN string position addr
  | OperatorN addr addr rune position addr
  | SelectN position addr position position "addr list" "addr option" Type
  | NotEvaluatedN position
  | UnsetPropertyN position
  | PropertyN string position position addr
  | SelectCaseN addr position addr
  | ConditionsN "ConfigurableCondition list"
  | PatternsN "addr list"

type_synonym store = "node list"

definition alloc :: "store \<Rightarrow> node \<Rightarrow> addr \<times> store" where
  "alloc h n = (length h, h @ [n])"

text \<open>
  The \<open>Copy\<close> methods of expressions, properties and select cases, by the node found at the
  address. The result is the address of the copy and the store after the allocations;
  \<open>None\<close> stands for a dangling address, for a node that has no \<open>Copy\<close> method and for a
  recursion deeper than the fuel.
\<close>

fun CopyAt :: "nat \<Rightarrow> store \<Rightarrow> addr \<Rightarrow> (addr \<times> store) option"
  and CopyAll :: "nat \<Rightarrow> store \<Rightarrow> addr list \<Rightarrow> (addr list \<times> store) option" where
  "CopyAt 0 h a = None"
| "CopyAt (Suc n) h a =
     (if a < length h then
        (case h ! a of
           StringN pos v \<Rightarrow> Some (alloc h (StringN pos v))
         | Int64N pos v tk \<Rightarrow> Some (alloc h (Int64N pos v tk))
         | BoolN pos v tk \<Rightarrow> Some (alloc h (BoolN pos v tk))
         | ListN l r vs \<Rightarrow>
             (case CopyAll n h vs of
                None \<Rightarrow> None
              | Some (vs', h') \<Rightarrow> Some (alloc h' (ListN l r vs')))
         | MapN l r ps \<Rightarrow>
             (case CopyAll n h ps of
                None \<Rightarrow> None
              | Some (ps', h') \<Rightarrow> Some (alloc h' (MapN l r ps')))
         | VariableN name pos v \<Rightarrow> Some (alloc h (VariableN name pos v))
         | OperatorN a0 a1 opr pos v \<Rightarrow>
             (case CopyAt n h a0 of
                None \<Rightarrow> None
              | Some (a0', h') \<Rightarrow>
                  (case CopyAt n h' a1 of
                     None \<Rightarrow> None
                   | Some (a1', h'') \<Rightarrow> Some (alloc h'' (OperatorN a0' a1' opr pos v))))
         | SelectN kw conds l r cs app ety \<Rightarrow>
             (case CopyAll n h cs of
                None \<Rightarrow> None
              | Some (cs', h') \<Rightarrow>
                  (case app of
                     None \<Rightarrow> Some (alloc h' (SelectN kw conds l r cs' None ety))
                   | Some ap \<Rightarrow>
                       (case CopyAt n h' ap of
                          None \<Rightarrow> None
                        | Some (ap', h'') \<Rightarrow>
                            Some (alloc h'' (SelectN kw conds l r cs' (Some ap') ety)))))
         | NotEvaluatedN pos \<Rightarrow> Some (alloc h (NotEvaluatedN pos))
         | UnsetPropertyN pos \<Rightarrow> Some (alloc h (UnsetPropertyN pos))
         | PropertyN name np cp v \<Rightarrow>
             (case CopyAt n h v of
                None \<Rightarrow> None
              | Some (v', h') \<Rightarrow> Some (alloc h' (PropertyN name np cp v')))
         | SelectCaseN pats cp v \<Rightarrow>
             (case CopyAt n h v of
                None \<Rightarrow> None
              | Some (v', h') \<Rightarrow> Some (alloc h' (SelectCaseN pats cp v')))
         | ConditionsN cs \<Rightarrow> None
         | PatternsN ps \<Rightarrow> None)
      else None)"
| "CopyAll n h [] = Some ([], h)"
| "CopyAll n h (a # as) =
     (case CopyAt n h a of
        None \<Rightarrow> None
      | Some (a', h') \<Rightarrow>
          (case CopyAll n h' as of
             None \<Rightarrow> None
           | Some (as', h'') \<Rightarrow> Some (a' # as', h'')))"

text \<open>The expression a store holds at an address, read back as a value.\<close>

fun readExpression :: "nat \<Rightarrow> store \<Rightarrow> addr \<Rightarrow> Expression option"
  and readProperty :: "nat \<Rightarrow> store \<Rightarrow> addr \<Rightarrow> Property option"
  and readSelectCase :: "nat \<Rightarrow> store \<Rightarrow> addr \<Rightarrow> SelectCase option" where
  "readExpression 0 h a = None"
| "readExpression (Suc n) h a =
     (if a < length h then
        (case h ! a of
           StringN pos v \<Rightarrow> Some (String pos v)
         | Int64N pos v tk \<Rightarrow> Some (Int64 pos v tk)
         | BoolN pos v tk \<Rightarrow> Some (Bool pos v tk)
         | ListN l r vs \<Rightarrow> map_option (List l r) (those (map (\<lambda>x. readExpression n h x) vs))
         | MapN l r ps \<Rightarrow> map_option (Map l r) (those (map (\<lambda>x. readProperty n h x) ps))
         | VariableN name pos v \<Rightarrow> map_option (Variable name pos) (readExpression n h v)
         | OperatorN a0 a1 opr pos v \<Rightarrow>
             (case (readExpression n h a0, readExpression n h a1, readExpression n h v) of
                (Some e0, Some e1, Some ev) \<Rightarrow> Some (Operator e0 e1 opr pos ev)
              | _ \<Rightarrow> None)
         | SelectN kw conds l r cs app ety \<Rightarrow>
             (if conds < length h then
                (case (h ! conds, those (map (\<lambda>x. readSelectCase n h x) cs),
                       case app of None \<Rightarrow> Some None
                                 | Some ap \<Rightarrow> map_option Some (readExpression n h ap)) of
                   (ConditionsN cds, Some cases, Some app') \<Rightarrow>
                     Some (Select kw cds l r cases app' ety)
                 | _ \<Rightarrow> None)
              else None)
         | NotEvaluatedN pos \<Rightarrow> Some (NotEvaluated pos)
         | UnsetPropertyN pos \<Rightarrow> Some (UnsetProperty pos)
         | _ \<Rightarrow> None)
      else None)"
| "readProperty 0 h a = None"
| "readProperty (Suc n) h a =
     (if a < length h then
        (case h ! a of
           PropertyN name np cp v \<Rightarrow> map_option (Property name np cp) (readExpression n h v)
         | _ \<Rightarrow> None)
      else None)"
| "readSelectCase 0 h a = None"
| "readSelectCase (Suc n) h a =
     (if a < length h then
        (case h ! a of
           SelectCaseN pats cp v \<Rightarrow>
             (if pats < length h then
                (case (h ! pats, readExpression n h v) of
                   (PatternsN ps, Some ev) \<Rightarrow>
                     map_option (\<lambda>es. SelectCase es cp ev)
                       (those (map (\<lambda>x. readExpression n h x) ps))
                 | _ \<Rightarrow> None)
              else None)
         | _ \<Rightarrow> None)
      else None)"

text \<open>The assignment \<open>x.Value = s\<close> through a pointer \<open>x\<close> to a \<open>String\<close> node.\<close>

definition setStringValue :: "store \<Rightarrow> addr \<Rightarrow> string \<Rightarrow> store" where
  "setStringValue h a s = (case h ! a of StringN pos v \<Rightarrow> h[a := StringN pos s] | _ \<Rightarrow> h)"

text \<open>The address held in the \<open>Value\<close> field of an operator or a variable.\<close>

definition ValueField :: "store \<Rightarrow> addr \<Rightarrow> addr option" where
  "ValueField h a =
     (case h ! a of
        OperatorN a0 a1 opr pos v \<Rightarrow> Some v
      | VariableN name pos v \<Rightarrow> Some v
      | _ \<Rightarrow> None)"

section \<open>The evaluator on a store\<close>

text \<open>
  \<open>evaluateOperator\<close> returns pointers, and what it returns shares nodes with its operands
  wherever \<open>Copy\<close> does. The functions of this section are \<open>Type\<close>, \<open>Eval\<close>,
  \<open>evaluateOperator\<close> and \<open>addMaps\<close> on the store of the section before: an expression
  is the address of its node, a property the address of a \<open>PropertyN\<close> node. \<open>None\<close> stands
  for a dangling address, a node of the wrong kind and a recursion deeper than the fuel.
\<close>

fun TypeAt :: "nat \<Rightarrow> store \<Rightarrow> addr \<Rightarrow> Type option" where
  "TypeAt 0 h a = None"
| "TypeAt (Suc n) h a =
     (if a < length h then
        (case h ! a of
           StringN pos v \<Rightarrow> Some StringType
         | Int64N pos v tk \<Rightarrow> Some Int64Type
         | BoolN pos v tk \<Rightarrow> Some BoolType
         | ListN l r vs \<Rightarrow> Some ListType
         | MapN l r ps \<Rightarrow> Some MapType
         | VariableN name pos v \<Rightarrow> TypeAt n h v
         | OperatorN a0 a1 opr pos v \<Rightarrow> TypeAt n h a0
         | SelectN kw conds l r cs app ety \<Rightarrow>
             (case app of
                Some ap \<Rightarrow> if ety = UnsetType then TypeAt n h ap else Some ety
              | None \<Rightarrow> Some ety)
         | NotEvaluatedN pos \<Rightarrow> Some NotEvaluatedType
         | UnsetPropertyN pos \<Rightarrow> Some UnsetType
         | _ \<Rightarrow> None)
      else None)"

text \<open>\<open>Eval\<close> returns the receiver for the nodes that evaluate to themselves, and a new
  value for \<open>NotEvaluated\<close> and \<open>UnsetProperty\<close>, which are not pointers.\<close>

fun EvalAt :: "nat \<Rightarrow> store \<Rightarrow> addr \<Rightarrow> (addr \<times> store) option" where
  "EvalAt 0 h a = None"
| "EvalAt (Suc n) h a =
     (if a < length h then
        (case h ! a of
           StringN pos v \<Rightarrow> Some (a, h)
         | Int64N pos v tk \<Rightarrow> Some (a, h)
         | BoolN pos v tk \<Rightarrow> Some (a, h)
         | ListN l r vs \<Rightarrow> Some (a, h)
         | MapN l r ps \<Rightarrow> Some (a, h)
         | VariableN name pos v \<Rightarrow> EvalAt n h v
         | OperatorN a0 a1 opr pos v \<Rightarrow> EvalAt n h v
         | SelectN kw conds l r cs app ety \<Rightarrow> Some (a, h)
         | NotEvaluatedN pos \<Rightarrow> Some (alloc h (NotEvaluatedN pos))
         | UnsetPropertyN pos \<Rightarrow> Some (alloc h (UnsetPropertyN pos))
         | _ \<Rightarrow> None)
      else None)"

definition isSelectAt :: "store \<Rightarrow> addr \<Rightarrow> bool" where
  "isSelectAt h a = (case h ! a of SelectN kw conds l r cs app ety \<Rightarrow> True | _ \<Rightarrow> False)"

text \<open>The promotion of the left operand to a select of one case: a case node with no
  patterns, and a select node with no conditions, at the zero position.\<close>

definition promoteAt :: "store \<Rightarrow> addr \<Rightarrow> Type \<Rightarrow> addr \<times> store" where
  "promoteAt h e1 ty =
     (let (pats, h1) = alloc h (PatternsN []);
          (c, h2) = alloc h1 (SelectCaseN pats zeroPos e1);
          (conds, h3) = alloc h2 (ConditionsN [])
      in alloc h3 (SelectN zeroPos conds zeroPos zeroPos [c] None ty))"

definition PropNameAt :: "store \<Rightarrow> addr \<Rightarrow> string" where
  "PropNameAt h a = (case h ! a of PropertyN name np cp v \<Rightarrow> name | _ \<Rightarrow> [])"

text \<open>
  \<open>addMaps\<close> and its loop over \<open>map1\<close>. The call \<open>p.evaluateOperator(prop1.Value,
  prop2.Value, '+', pos)\<close> is the argument \<open>evalPlus\<close>, which \<open>evaluateOperatorAt\<close> below
  instantiates with itself, one unit of fuel down. \<open>newProp := *prop1\<close> allocates a property
  node; a property of the left alone is kept by its address.
\<close>

fun addMapsLeftAt ::
    "(store \<Rightarrow> addr \<Rightarrow> addr \<Rightarrow> (addr \<times> store) result option) \<Rightarrow> store \<Rightarrow> (string \<rightharpoonup> addr)
       \<Rightarrow> addr list \<Rightarrow> (addr list \<times> store) result option" where
  "addMapsLeftAt evalPlus h inBoth [] = Some (Ok ([], h))"
| "addMapsLeftAt evalPlus h inBoth (prop1 # rest) =
     (if prop1 < length h then
        (case h ! prop1 of
           PropertyN name np cp v1 \<Rightarrow>
             (case inBoth name of
                Some prop2 \<Rightarrow>
                  (case h ! prop2 of
                     PropertyN name2 np2 cp2 v2 \<Rightarrow>
                       (case evalPlus h v1 v2 of
                          None \<Rightarrow> None
                        | Some (Ok (v, h1)) \<Rightarrow>
                            (case addMapsLeftAt evalPlus (snd (alloc h1 (PropertyN name np cp v)))
                                    inBoth rest of
                               None \<Rightarrow> None
                             | Some (Ok (ret, h3)) \<Rightarrow>
                                 Some (Ok (fst (alloc h1 (PropertyN name np cp v)) # ret, h3))
                             | Some (Err err) \<Rightarrow> Some (Err err)
                             | Some (Panic x) \<Rightarrow> Some (Panic x))
                        | Some (Err err) \<Rightarrow> Some (Err err)
                        | Some (Panic x) \<Rightarrow> Some (Panic x))
                   | _ \<Rightarrow> None)
              | None \<Rightarrow>
                  (case addMapsLeftAt evalPlus h inBoth rest of
                     None \<Rightarrow> None
                   | Some (Ok (ret, h3)) \<Rightarrow> Some (Ok (prop1 # ret, h3))
                   | Some (Err err) \<Rightarrow> Some (Err err)
                   | Some (Panic x) \<Rightarrow> Some (Panic x)))
         | _ \<Rightarrow> None)
      else None)"

definition addMapsAt ::
    "(store \<Rightarrow> addr \<Rightarrow> addr \<Rightarrow> (addr \<times> store) result option) \<Rightarrow> store \<Rightarrow> addr list \<Rightarrow> addr list
       \<Rightarrow> (addr list \<times> store) result option" where
  "addMapsAt evalPlus h map_1 map_2 =
     (let inMap1 = fold (\<lambda>prop1 m. m(PropNameAt h prop1 \<mapsto> prop1)) map_1 Map.empty;
          inBoth = fold (\<lambda>prop2 m. if inMap1 (PropNameAt h prop2) \<noteq> None
                                     then m(PropNameAt h prop2 \<mapsto> prop2) else m) map_2 Map.empty
      in case addMapsLeftAt evalPlus h inBoth map_1 of
           None \<Rightarrow> None
         | Some (Ok (ret, h')) \<Rightarrow>
             Some (Ok (ret @ filter (\<lambda>prop2. inBoth (PropNameAt h prop2) = None) map_2, h'))
         | Some (Err err) \<Rightarrow> Some (Err err)
         | Some (Panic x) \<Rightarrow> Some (Panic x))"

text \<open>The type switch of \<open>evaluateOperator\<close> on the copy \<open>v\<close> of the left operand, at
  address \<open>v\<close> of the store, with the evaluated right operand \<open>e2\<close>. The copy is updated in
  place; the result is the store after the update.\<close>

definition plusInto ::
    "(store \<Rightarrow> addr \<Rightarrow> addr \<Rightarrow> (addr \<times> store) result option) \<Rightarrow> (addr \<Rightarrow> Type option) \<Rightarrow> rune
       \<Rightarrow> store \<Rightarrow> addr \<Rightarrow> addr \<Rightarrow> store result option" where
  "plusInto evalPlus typeOf operator h4 v e2 =
     (case h4 ! v of
        StringN lp s \<Rightarrow>
          (case h4 ! e2 of
             StringN lp2 s2 \<Rightarrow> Some (Ok (h4[v := StringN lp (s @ s2)]))
           | _ \<Rightarrow> Some (Panic TypeAssertion))
      | Int64N lp i tk \<Rightarrow>
          (case h4 ! e2 of
             Int64N lp2 i2 tk2 \<Rightarrow> Some (Ok (h4[v := Int64N lp (i + i2) []]))
           | _ \<Rightarrow> Some (Panic TypeAssertion))
      | ListN l r vs \<Rightarrow>
          (case h4 ! e2 of
             ListN l2 r2 vs2 \<Rightarrow> Some (Ok (h4[v := ListN l r (vs @ vs2)]))
           | _ \<Rightarrow> Some (Panic TypeAssertion))
      | MapN l r ps \<Rightarrow>
          (case h4 ! e2 of
             MapN l2 r2 ps2 \<Rightarrow>
               (case addMapsAt evalPlus h4 ps ps2 of
                  None \<Rightarrow> None
                | Some (Ok (ps', h5)) \<Rightarrow> Some (Ok (h5[v := MapN l r ps']))
                | Some (Err err) \<Rightarrow> Some (Err err)
                | Some (Panic x) \<Rightarrow> Some (Panic x))
           | _ \<Rightarrow> Some (Panic TypeAssertion))
      | SelectN kw conds l r cs app ety \<Rightarrow>
          Some (Ok (h4[v := SelectN kw conds l r cs (Some e2) ety]))
      | _ \<Rightarrow>
          (case typeOf v of
             None \<Rightarrow> None
           | Some tv \<Rightarrow> Some (Err (OperatorNotSupported operator tv))))"

text \<open>\<open>evaluateOperator\<close> on the store: the address of the result and the store after
  the call.\<close>

primrec evaluateOperatorAt ::
    "nat \<Rightarrow> bool \<Rightarrow> store \<Rightarrow> addr \<Rightarrow> addr \<Rightarrow> rune \<Rightarrow> position \<Rightarrow> (addr \<times> store) result option" where
  "evaluateOperatorAt 0 ev h value1 value2 operator pos = None"
| "evaluateOperatorAt (Suc n) ev h value1 value2 operator pos =
     (case (TypeAt n h value1, TypeAt n h value2) of
        (Some t1, Some t2) \<Rightarrow>
          if t1 = UnsetType then Some (Ok (value2, h))
          else if t2 = UnsetType then Some (Ok (value1, h))
          else if ev then
            (case EvalAt n h value1 of
               None \<Rightarrow> None
             | Some (e1, h1) \<Rightarrow>
                 (case EvalAt n h1 value2 of
                    None \<Rightarrow> None
                  | Some (e2, h2) \<Rightarrow>
                      (case (TypeAt n h2 e1, TypeAt n h2 e2) of
                         (Some te1, Some te2) \<Rightarrow>
                           if te1 \<noteq> te2 then Some (Err (MismatchedType operator te1 te2))
                           else
                             (case (if \<not> isSelectAt h2 e1 \<and> isSelectAt h2 e2
                                    then promoteAt h2 e1 te1 else (e1, h2)) of
                                (e1', h3) \<Rightarrow>
                                  (case CopyAt n h3 e1' of
                                     None \<Rightarrow> None
                                   | Some (v, h4) \<Rightarrow>
                                       if operator = Sym (CHR ''+'') then
                                         (case plusInto
                                                 (\<lambda>h' a b. evaluateOperatorAt n ev h' a b
                                                               (Sym (CHR ''+'')) pos)
                                                 (TypeAt n h4) operator h4 v e2 of
                                            None \<Rightarrow> None
                                          | Some (Ok h5) \<Rightarrow>
                                              Some (Ok (alloc h5
                                                (OperatorN value1 value2 operator pos v)))
                                          | Some (Err err) \<Rightarrow> Some (Err err)
                                          | Some (Panic x) \<Rightarrow> Some (Panic x))
                                       else Some (Panic (UnknownOperator operator))))
                       | _ \<Rightarrow> None)))
          else Some (Ok (alloc h (OperatorN value1 value2 operator pos value1)))
      | _ \<Rightarrow> None)"


section \<open>The parser\<close>

subsection \<open>Scanner, parser state and error policy\<close>

text \<open>
  The scanner (\<open>text/scanner\<close>, from the Go standard library) is modelled by the tokens it
  delivers. A token carries its class, its text (\<open>TokenText()\<close>), the scanner's \<open>Position\<close>
  once it is scanned, what \<open>scanner.Pos()\<close> then returns, the result of \<open>strconv.Unquote\<close>
  on its text (\<open>None\<close> when that fails), and the messages the scanner hands to its \<open>Error\<close>
  callback while it scans the token.
\<close>

record token =
  kind :: token_kind
  ttext :: string
  tpos :: position
  tafter :: position
  unquoted :: "string option"
  scanErrors :: "string list"

record Comment =
  CommentLines :: "string list"
  Slash :: position

type_synonym CommentGroup = "Comment list"

record ParseError =
  ErrOf :: error
  PosOf :: position

text \<open>
  The parser struct. \<open>input\<close> are the tokens the scanner has not delivered yet and \<open>eofPos\<close>
  the position it reports at the end of the input; \<open>cur\<close> is the token scanned last, which
  \<open>p.scanner.TokenText()\<close> and \<open>p.scanner.Position\<close> read.
\<close>

record parser =
  input :: "token list"
  eofPos :: position
  scanFilename :: string
  cur :: token
  tok :: rune
  errors :: "ParseError list"
  scope :: "Scope option"
  comments :: "CommentGroup list"
  eval :: bool

definition maxErrors :: nat where
  "maxErrors = 1"

definition default_select_branch_name :: string where
  "default_select_branch_name = ''__soong_conditions_default__''"

text \<open>
  How a call of a parser method ends: it returns a value (\<open>Done\<close>), or it panics (\<open>Abort\<close>).
  \<open>Continues\<close> marks the runs this model does not follow: an error was recorded, the count
  is still below \<open>maxErrors\<close>, and the Go code carries on with nil placeholders in the tree.
  With \<open>maxErrors = 1\<close> no run is of that kind (lemma \<open>p_error_aborts\<close>). \<open>OutOfFuel\<close> is
  the model's own: the recursion was deeper than the fuel it was given.
\<close>

datatype 'a run = Done 'a | Abort panic | Continues | OutOfFuel

type_synonym 'a pm = "parser \<Rightarrow> 'a run \<times> parser"

definition preturn :: "'a \<Rightarrow> 'a pm" where
  "preturn x = (\<lambda>p. (Done x, p))"

definition pbind :: "'a pm \<Rightarrow> ('a \<Rightarrow> 'b pm) \<Rightarrow> 'b pm" where
  "pbind m f =
     (\<lambda>p. case m p of
             (Done x, p') \<Rightarrow> f x p'
           | (Abort e, p') \<Rightarrow> (Abort e, p')
           | (Continues, p') \<Rightarrow> (Continues, p')
           | (OutOfFuel, p') \<Rightarrow> (OutOfFuel, p'))"

definition pabort :: "panic \<Rightarrow> 'a pm" where
  "pabort x = (\<lambda>p. (Abort x, p))"

text \<open>\<open>parser.error\<close> (and \<open>errorf\<close>, which only formats): the error is appended with the
  scanner's position, and the parser panics once the list has \<open>maxErrors\<close> entries.\<close>

definition p_error :: "error \<Rightarrow> 'a pm" where
  "p_error err =
     (\<lambda>p. let pos = (if IsValid (tpos (cur p)) then tpos (cur p) else tafter (cur p));
              p' = p\<lparr>errors := errors p @ [\<lparr>ErrOf = err, PosOf = pos\<rparr>]\<rparr>
          in if length (errors p') \<ge> maxErrors then (Abort ErrTooManyErrors, p')
             else (Continues, p'))"

text \<open>\<open>scanner.Scan\<close>: the next token becomes the current one (an end-of-file token once
  the input is used up), and each message of the scanner goes through the \<open>Error\<close> callback
  installed by \<open>newParser\<close>, which is \<open>errorf\<close>.\<close>

fun reportScanErrors :: "string list \<Rightarrow> unit pm" where
  "reportScanErrors [] = preturn ()"
| "reportScanErrors (msg # msgs) =
     pbind (p_error (ScannerError msg)) (\<lambda>u :: unit. reportScanErrors msgs)"

definition eofToken :: "parser \<Rightarrow> token" where
  "eofToken p = \<lparr>kind = EOF, ttext = [], tpos = eofPos p, tafter = eofPos p, unquoted = None,
                 scanErrors = []\<rparr>"

definition Scan :: "rune pm" where
  "Scan =
     (\<lambda>p. let t = (case input p of [] \<Rightarrow> eofToken p | t # ts \<Rightarrow> t);
              t' = t\<lparr>tpos := (tpos t)\<lparr>Filename := scanFilename p\<rparr>\<rparr>
          in pbind (reportScanErrors (scanErrors t')) (\<lambda>u. preturn (kind t'))
               (p\<lparr>input := tl (input p), cur := t'\<rparr>))"

text \<open>\<open>strings.Split(s, "\n")\<close> and \<open>Comment.End\<close>.\<close>

fun splitLines :: "string \<Rightarrow> string list" where
  "splitLines [] = [[]]"
| "splitLines (c # cs) =
     (if c = CHR 0x0A then [] # splitLines cs
      else (case splitLines cs of [] \<Rightarrow> [[c]] | l # ls \<Rightarrow> (c # l) # ls))"

definition CommentEnd :: "Comment \<Rightarrow> position" where
  "CommentEnd c =
     (let pos = foldl (\<lambda>pos comment. pos\<lparr>Offset := Offset pos + int (length comment) + 1,
                                            Column := int (length comment) + 1\<rparr>)
                  (Slash c) (CommentLines c)
      in pos\<lparr>Line := Line pos + (int (length (CommentLines c)) - 1)\<rparr>)"

text \<open>The loop of \<open>next\<close> over a run of comment tokens, with the comments of the group
  collected so far.\<close>

function commentLoop :: "Comment list \<Rightarrow> unit pm" where
  "commentLoop cs p =
     (if tok p = CommentTok then
        (let lines = splitLines (ttext (cur p));
             flush = (cs \<noteq> [] \<and> Line (tpos (cur p)) > Line (CommentEnd (last cs)) + 1);
             p1 = (if flush then p\<lparr>comments := comments p @ [cs]\<rparr> else p);
             cs1 = (if flush then [] else cs);
             cs2 = cs1 @ [\<lparr>CommentLines = lines, Slash = tpos (cur p)\<rparr>]
         in case Scan p1 of
              (Done t, p2) \<Rightarrow> commentLoop cs2 (p2\<lparr>tok := t\<rparr>)
            | (Abort e, p2) \<Rightarrow> (Abort e, p2)
            | (Continues, p2) \<Rightarrow> (Continues, p2)
            | (OutOfFuel, p2) \<Rightarrow> (OutOfFuel, p2))
      else (Done (), p\<lparr>comments := comments p @ [cs]\<rparr>))"
  by pat_completeness auto

lemma reportScanErrors_input:
  "reportScanErrors msgs p = (r, p') \<Longrightarrow> input p' = input p \<and> cur p' = cur p"
  by (cases msgs)
    (auto simp add: preturn_def pbind_def p_error_def Let_def split: if_splits)

lemma Scan_Done:
  assumes "Scan p = (Done t, p')"
  shows "input p' = tl (input p) \<and> (input p = [] \<longrightarrow> t = EOF)"
proof -
  let ?t = "(case input p of [] \<Rightarrow> eofToken p | t # ts \<Rightarrow> t)\<lparr>tpos :=
      (tpos (case input p of [] \<Rightarrow> eofToken p | t # ts \<Rightarrow> t))\<lparr>Filename := scanFilename p\<rparr>\<rparr>"
  from assms obtain p1 where r: "reportScanErrors (scanErrors ?t) (p\<lparr>input := tl (input p), cur := ?t\<rparr>) = (Done (), p1)"
    and p': "p' = p1" and t: "t = kind ?t"
    by (auto simp add: Scan_def Let_def pbind_def preturn_def split: prod.splits run.splits)
  from reportScanErrors_input[OF r] p' have "input p' = tl (input p)" by simp
  moreover have "input p = [] \<longrightarrow> t = EOF" using t by (simp add: eofToken_def)
  ultimately show ?thesis by simp
qed

termination commentLoop
proof (relation "measure (\<lambda>(cs, p). 2 * length (input p) + (if tok p = CommentTok then 1 else 0))",
    goal_cases)
  case 1
  then show ?case by simp
next
  case (2 cs p lines flush p1 cs1 cs2 x1 p2 t)
  then have "Scan p1 = (Done t, p2)" by simp
  from Scan_Done[OF this] 2 show ?case
    by (cases "input p") (auto split: if_splits)
qed

declare commentLoop.simps [simp del]

text \<open>\<open>next\<close>: nothing at end of file; otherwise scan, and gather any comments into
  groups before the next significant token.\<close>

definition p_next :: "unit pm" where
  "p_next =
     (\<lambda>p. if tok p \<noteq> EOF then
             pbind Scan (\<lambda>t p. let p1 = p\<lparr>tok := t\<rparr>
                               in if tok p1 = CommentTok then commentLoop [] p1
                                  else preturn () p1) p
           else preturn () p)"

text \<open>\<open>accept\<close> returns false only after it has reported an error; whenever the model's
  \<open>accept\<close> is \<open>Done\<close>, the Go method has returned true.\<close>

fun accept :: "rune list \<Rightarrow> unit pm" where
  "accept [] = preturn ()"
| "accept (t # toks) =
     (\<lambda>p. if tok p \<noteq> t then p_error (Expected t (tok p)) p
           else pbind p_next (\<lambda>u. accept toks) p)"

definition newParser :: "token list \<Rightarrow> position \<Rightarrow> Scope option \<Rightarrow> parser" where
  "newParser r eofp sc =
     \<lparr>input = r, eofPos = eofp, scanFilename = [],
      cur = \<lparr>kind = Sym (CHR 0x00), ttext = [], tpos = zeroPos, tafter = zeroPos,
             unquoted = None, scanErrors = []\<rparr>,
      tok = Sym (CHR 0x00), errors = [], scope = sc, comments = [], eval = False\<rparr>"

lemma p_error_aborts: "fst (p_error err p) = Abort ErrTooManyErrors"
  by (simp add: p_error_def maxErrors_def Let_def)


subsection \<open>Literals, variables and the pieces of a select\<close>

text \<open>\<open>strconv.ParseInt(s, 10, 64)\<close>: an optional sign, then at least one decimal digit and
  nothing else; a value outside the range of \<open>int64\<close> is an error.\<close>

fun digitsValue :: "string \<Rightarrow> nat \<Rightarrow> nat option" where
  "digitsValue [] acc = Some acc"
| "digitsValue (c # cs) acc =
     (if (48 :: nat) \<le> of_char c \<and> of_char c \<le> (57 :: nat)
      then digitsValue cs (10 * acc + (of_char c - 48)) else None)"

definition ParseInt :: "string \<Rightarrow> 64 word option" where
  "ParseInt s =
     (let neg = (s \<noteq> [] \<and> hd s = CHR ''-'');
          ds = (if s \<noteq> [] \<and> (hd s = CHR ''-'' \<or> hd s = CHR ''+'') then tl s else s)
      in if ds = [] then None
         else (case digitsValue ds 0 of
                 None \<Rightarrow> None
               | Some v \<Rightarrow>
                   if neg then (if v \<le> 2 ^ 63 then Some (- of_nat v) else None)
                   else (if v < 2 ^ 63 then Some (of_nat v) else None)))"

definition parseBoolean :: "Expression pm" where
  "parseBoolean =
     (\<lambda>p. let txt = ttext (cur p)
          in if txt = ''true'' \<or> txt = ''false'' then
               (let result = Bool (tpos (cur p)) (txt = ''true'') txt
                in pbind (accept [Ident]) (\<lambda>u. preturn result) p)
             else p_error (ExpectedTrueFalse txt) p)"

text \<open>\<open>parseVariable\<close>. In evaluation mode the binding is looked up; a local binding is
  marked as referenced through the pointer the scope holds, which here updates the entry of
  the local table. A nil scope makes \<open>Get\<close> dereference nil.\<close>

definition parseVariable :: "Expression pm" where
  "parseVariable =
     (\<lambda>p. let txt = ttext (cur p)
          in pbind
               (\<lambda>p. if eval p then
                       (case scope p of
                          None \<Rightarrow> pabort NilDereference p
                        | Some sc \<Rightarrow>
                            (case Get sc txt of
                               (None, local) \<Rightarrow> p_error (VariableNotSet txt) p
                             | (Some assignment, local) \<Rightarrow>
                                 (Done (Value assignment),
                                  if local
                                  then p\<lparr>scope := Some (sc\<lparr>vars := (vars sc)
                                           (txt \<mapsto> assignment\<lparr>Referenced := True\<rparr>)\<rparr>)\<rparr>
                                  else p)))
                     else preturn (NotEvaluated zeroPos) p)
               (\<lambda>v p. let result = Variable txt (tpos (cur p)) v
                      in pbind (accept [Ident]) (\<lambda>u. preturn result) p)
               p)"

text \<open>\<open>parseStringValue\<close> returns a \<open>*String\<close>: its position and its decoded value.\<close>

definition parseStringValue :: "(position \<times> string) pm" where
  "parseStringValue =
     (\<lambda>p. case unquoted (cur p) of
             None \<Rightarrow> p_error CouldntParseString p
           | Some str \<Rightarrow>
               (let result = (tpos (cur p), str)
                in pbind (accept [tok p]) (\<lambda>u. preturn result) p))"

definition parseIntValue :: "Expression pm" where
  "parseIntValue =
     (\<lambda>p. let literalPos = tpos (cur p)
          in pbind
               (\<lambda>p. if tok p = Sym (CHR ''-'') then
                       pbind (accept [tok p])
                         (\<lambda>u p. if tok p \<noteq> IntTok then p_error (ExpectedInt (tok p)) p
                                else preturn ''-'' p) p
                     else preturn [] p)
               (\<lambda>sign p.
                  let str = sign @ ttext (cur p)
                  in case ParseInt str of
                       None \<Rightarrow> p_error (CouldntParseInt str) p
                     | Some i \<Rightarrow>
                         pbind (accept [IntTok]) (\<lambda>u. preturn (Int64 literalPos i str)) p)
               p)"

text \<open>\<open>ConfigurableCondition.Equals\<close>: same function name, and the argument structs equal
  one by one (positions included, as \<open>!=\<close> on Go structs compares every field).\<close>

definition Equals :: "ConfigurableCondition \<Rightarrow> ConfigurableCondition \<Rightarrow> bool" where
  "Equals c other =
     (FunctionName c = FunctionName other \<and> length (Args c) = length (Args other)
      \<and> list_all2 (=) (Args c) (Args other))"

text \<open>The loop of \<open>parseSelect\<close> over the arguments of one condition.\<close>

fun parseConditionArgs :: "nat \<Rightarrow> (position \<times> string) list \<Rightarrow> (position \<times> string) list pm" where
  "parseConditionArgs 0 args = (\<lambda>p. (OutOfFuel, p))"
| "parseConditionArgs (Suc n) args =
     (\<lambda>p. if tok p \<noteq> Sym (CHR '')'') then
             pbind parseStringValue
               (\<lambda>s p. if tok p = Sym (CHR '')'') then preturn (args @ [s]) p
                      else pbind (accept [Sym (CHR '','')])
                             (\<lambda>u. parseConditionArgs n (args @ [s])) p) p
           else preturn args p)"

fun reportDuplicateConditions :: "ConfigurableCondition list \<Rightarrow> ConfigurableCondition \<Rightarrow> unit pm" where
  "reportDuplicateConditions [] condition = preturn ()"
| "reportDuplicateConditions (c # cs) condition =
     (if Equals c condition
      then pbind (p_error (DuplicateCondition c)) (\<lambda>u :: unit. reportDuplicateConditions cs condition)
      else reportDuplicateConditions cs condition)"

text \<open>The loop of \<open>parseSelect\<close> over the conditions: one round without the extra
  parenthesis, and with it as many as are separated by commas.\<close>

fun parseConditions :: "nat \<Rightarrow> bool \<Rightarrow> ConfigurableCondition list \<Rightarrow> ConfigurableCondition list pm" where
  "parseConditions 0 multipleConditions conditions = (\<lambda>p. (OutOfFuel, p))"
| "parseConditions (Suc n) multipleConditions conditions =
     (\<lambda>p. let position = tpos (cur p); functionName = ttext (cur p)
          in pbind (accept [Ident]) (\<lambda>u.
             pbind (accept [Sym (CHR ''('')]) (\<lambda>u.
             pbind (parseConditionArgs n []) (\<lambda>args.
             pbind (accept [Sym (CHR '')'')]) (\<lambda>u.
               let condition = \<lparr>cond_position = position, FunctionName = functionName,
                                Args = args\<rparr>
               in pbind (reportDuplicateConditions conditions condition) (\<lambda>u.
                  if multipleConditions then
                    (\<lambda>p. if tok p = Sym (CHR '')'') then
                            pbind p_next (\<lambda>u. preturn (conditions @ [condition])) p
                          else
                            pbind (accept [Sym (CHR '','')])
                              (\<lambda>u p. if tok p = Sym (CHR '')'') then
                                       pbind p_next (\<lambda>u. preturn (conditions @ [condition])) p
                                     else parseConditions n multipleConditions
                                            (conditions @ [condition]) p) p)
                  else preturn (conditions @ [condition])))))) p)"

text \<open>The closure \<open>parseOnePattern\<close>. The position of a \<open>default\<close>, \<open>true\<close> or \<open>false\<close>
  pattern is read after \<open>next\<close>, and its \<open>Bool\<close> has no token.\<close>

definition parseOnePattern :: "Expression pm" where
  "parseOnePattern =
     (\<lambda>p. if tok p = Ident then
             (if ttext (cur p) = ''default'' then
                pbind p_next (\<lambda>u p. preturn (String (tpos (cur p)) default_select_branch_name) p) p
              else if ttext (cur p) = ''true'' then
                pbind p_next (\<lambda>u p. preturn (Bool (tpos (cur p)) True []) p) p
              else if ttext (cur p) = ''false'' then
                pbind p_next (\<lambda>u p. preturn (Bool (tpos (cur p)) False []) p) p
              else p_error (ExpectedPattern (ttext (cur p))) p)
           else if tok p = StringTok then
             pbind parseStringValue
               (\<lambda>s. if take 7 (snd s) = ''__soong'' then p_error ReservedSoongPrefix
                     else preturn (String (fst s) (snd s))) p
           else p_error (ExpectedPattern (ttext (cur p))) p)"

text \<open>The loop over the patterns of a case with several conditions; \<open>k\<close> patterns are
  still to be read, so \<open>i < len(conditions) - 1\<close> is \<open>0 < k - 1\<close>.\<close>

fun parsePatterns :: "nat \<Rightarrow> Expression list \<Rightarrow> Expression list pm" where
  "parsePatterns 0 pats = preturn pats"
| "parsePatterns (Suc k) pats =
     pbind parseOnePattern (\<lambda>pat.
       pbind (\<lambda>p. if 0 < k then accept [Sym (CHR '','')] p
                  else if tok p = Sym (CHR '','') then p_next p
                  else preturn () p)
         (\<lambda>u. parsePatterns k (pats @ [pat])))"

text \<open>The checks of \<open>parseSelect\<close> once the cases are read.\<close>

definition patternsEqual :: "Expression \<Rightarrow> Expression \<Rightarrow> bool" where
  "patternsEqual a b =
     (case a of
        String pa va \<Rightarrow> (case b of String pb vb \<Rightarrow> va = vb | _ \<Rightarrow> False)
      | Bool pa va ta \<Rightarrow> (case b of Bool pb vb tb \<Rightarrow> va = vb | _ \<Rightarrow> False)
      | _ \<Rightarrow> True)"

definition patternListsEqual :: "Expression list \<Rightarrow> Expression list \<Rightarrow> bool" where
  "patternListsEqual a b = (length a = length b \<and> list_all2 patternsEqual a b)"

definition isAllDefault :: "Expression list \<Rightarrow> bool" where
  "isAllDefault pats =
     list_all (\<lambda>x. case x of String px vx \<Rightarrow> vx = default_select_branch_name | _ \<Rightarrow> False) pats"

text \<open>The loop over the cases that looks for duplicates and for a default case that is not
  last; \<open>i\<close> is the index of the head of the list and \<open>lastIndex\<close> is \<open>len(result.Cases) - 1\<close>.\<close>

fun checkCases :: "SelectCase list \<Rightarrow> nat \<Rightarrow> nat \<Rightarrow> error option" where
  "checkCases [] i lastIndex = None"
| "checkCases (c # rest) i lastIndex =
     (if list_ex (\<lambda>d. patternListsEqual (Patterns c) (Patterns d)) rest
      then Some (DuplicatePatterns (Patterns c))
      else if i < lastIndex \<and> isAllDefault (Patterns c)
      then Some (DefaultNotLast i lastIndex)
      else checkCases rest (Suc i) lastIndex)"

text \<open>The loop that unifies the types of the case values.\<close>

fun unifyTypes :: "SelectCase list \<Rightarrow> Type \<Rightarrow> error + Type" where
  "unifyTypes [] ty = Inr ty"
| "unifyTypes (c # cs) ty =
     (let otherTy = TypeOf (CaseValue c);
          ty' = (if ty = UnsetType then otherTy else ty)
      in if otherTy \<noteq> UnsetType \<and> otherTy \<noteq> ty' then Inl (DifferingTypes ty' otherTy)
         else unifyTypes cs ty')"

text \<open>The part of \<open>parseSelect\<close> after the loop over the cases.\<close>

definition finishSelect ::
  "position \<Rightarrow> ConfigurableCondition list \<Rightarrow> position \<Rightarrow> SelectCase list \<Rightarrow> bool \<Rightarrow> Expression pm" where
  "finishSelect keywordPos conditions lBracePos cases hasNonUnsetValue =
     (if \<not> hasNonUnsetValue then p_error EmptySelect
      else
        (case checkCases cases 0 (length cases - 1) of
           Some err \<Rightarrow> p_error err
         | None \<Rightarrow>
             (case unifyTypes cases UnsetType of
                Inl err \<Rightarrow> p_error err
              | Inr ty \<Rightarrow>
                  (\<lambda>p. let rBracePos = tpos (cur p)
                       in pbind (accept [Sym (CHR ''}'')]) (\<lambda>u.
                          pbind (accept [Sym (CHR '')'')]) (\<lambda>u.
                            preturn (Select keywordPos conditions lBracePos rBracePos cases
                                       None ty))) p))))"


subsection \<open>Expressions\<close>

text \<open>
  The mutually recursive methods of the expression grammar. The first argument is fuel:
  every call one level down gets one unit less, and a method with none left stops with
  \<open>OutOfFuel\<close>. The loops of \<open>parseListValue\<close>, \<open>parsePropertyList\<close> and the cases of
  \<open>parseSelect\<close> are the functions \<open>parseListElements\<close>, \<open>parsePropertyListFrom\<close> and
  \<open>parseSelectCases\<close>, each with the slice built so far as an argument.
\<close>

fun parseExpression :: "nat \<Rightarrow> Expression pm"
  and parseOperator :: "nat \<Rightarrow> Expression \<Rightarrow> Expression pm"
  and parseValue :: "nat \<Rightarrow> Expression pm"
  and parseSelect :: "nat \<Rightarrow> Expression pm"
  and parseSelectCases ::
    "nat \<Rightarrow> bool \<Rightarrow> ConfigurableCondition list \<Rightarrow> bool \<Rightarrow> SelectCase list \<Rightarrow> (SelectCase list \<times> bool) pm"
  and parseListValue :: "nat \<Rightarrow> Expression pm"
  and parseListElements :: "nat \<Rightarrow> Expression list \<Rightarrow> Expression list pm"
  and parseMapValue :: "nat \<Rightarrow> Expression pm"
  and parsePropertyListFrom :: "nat \<Rightarrow> bool \<Rightarrow> bool \<Rightarrow> Property list \<Rightarrow> Property list pm"
  and parseProperty :: "nat \<Rightarrow> bool \<Rightarrow> bool \<Rightarrow> Property pm"
where
  "parseExpression 0 = (\<lambda>p. (OutOfFuel, p))"
| "parseExpression (Suc n) =
     pbind (parseValue n)
       (\<lambda>v p. if tok p = Sym (CHR ''+'') then parseOperator n v p
              else if tok p = Sym (CHR ''-'') then p_error (SubtractionNotSupported (tpos (cur p))) p
              else preturn v p)"
| "parseOperator 0 value1 = (\<lambda>p. (OutOfFuel, p))"
| "parseOperator (Suc n) value1 =
     (\<lambda>p. let operator = tok p; pos = tpos (cur p)
          in pbind (accept [operator]) (\<lambda>u.
             pbind (parseExpression n)
               (\<lambda>value2 p. case evaluateOperator (eval p) value1 value2 operator pos of
                              Ok v \<Rightarrow> preturn v p
                            | Err err \<Rightarrow> p_error err p
                            | Panic x \<Rightarrow> pabort x p)) p)"
| "parseValue 0 = (\<lambda>p. (OutOfFuel, p))"
| "parseValue (Suc n) =
     (\<lambda>p. if tok p = Ident then
             (if ttext (cur p) = ''true'' \<or> ttext (cur p) = ''false'' then parseBoolean p
              else if ttext (cur p) = ''select'' then parseSelect n p
              else parseVariable p)
           else if tok p = Sym (CHR ''-'') \<or> tok p = IntTok then parseIntValue p
           else if tok p = StringTok \<or> tok p = RawStringTok then
             pbind parseStringValue (\<lambda>s. preturn (String (fst s) (snd s))) p
           else if tok p = Sym (CHR ''['') then parseListValue n p
           else if tok p = Sym (CHR ''{'') then parseMapValue n p
           else p_error (ExpectedValue (tok p)) p)"
| "parseSelect 0 = (\<lambda>p. (OutOfFuel, p))"
| "parseSelect (Suc n) =
     (\<lambda>p. let keywordPos = tpos (cur p)
          in pbind (accept [Ident]) (\<lambda>u.
             pbind (accept [Sym (CHR ''('')])
               (\<lambda>u p. let multipleConditions = (tok p = Sym (CHR ''(''))
                      in pbind (if multipleConditions then accept [Sym (CHR ''('')] else preturn ())
                           (\<lambda>u.
                           pbind (parseConditions n multipleConditions []) (\<lambda>conditions.
                             if multipleConditions \<and> length conditions < 2
                             then p_error ExpectedMultipleConditions
                             else
                               pbind (accept [Sym (CHR '','')])
                                 (\<lambda>u p. let lBracePos = tpos (cur p)
                                        in pbind (accept [Sym (CHR ''{'')]) (\<lambda>u.
                                           pbind (parseSelectCases n multipleConditions conditions
                                                    False [])
                                             (\<lambda>r. finishSelect keywordPos conditions lBracePos
                                                     (fst r) (snd r))) p))) p)) p)"
| "parseSelectCases 0 multipleConditions conditions hasNonUnsetValue cases = (\<lambda>p. (OutOfFuel, p))"
| "parseSelectCases (Suc n) multipleConditions conditions hasNonUnsetValue cases =
     (\<lambda>p. if tok p \<noteq> Sym (CHR ''}'') then
             pbind
               (if multipleConditions then
                  pbind (accept [Sym (CHR ''('')]) (\<lambda>u.
                  pbind (parsePatterns (length conditions) []) (\<lambda>pats.
                  pbind (accept [Sym (CHR '')'')]) (\<lambda>u. preturn pats)))
                else pbind parseOnePattern (\<lambda>pat. preturn [pat]))
               (\<lambda>pats p.
                  let colonPos = tpos (cur p)
                  in pbind (accept [Sym (CHR '':'')]) (\<lambda>u.
                     pbind
                       (\<lambda>p. if tok p = Ident \<and> ttext (cur p) = ''unset'' then
                               (let v = UnsetProperty (tpos (cur p))
                                in pbind (accept [Ident]) (\<lambda>u. preturn (v, hasNonUnsetValue)) p)
                             else pbind (parseExpression n) (\<lambda>v. preturn (v, True)) p)
                       (\<lambda>vh.
                          pbind (accept [Sym (CHR '','')]) (\<lambda>u.
                            parseSelectCases n multipleConditions conditions (snd vh)
                              (cases @ [SelectCase pats colonPos (fst vh)])))) p) p
           else preturn (cases, hasNonUnsetValue) p)"
| "parseListValue 0 = (\<lambda>p. (OutOfFuel, p))"
| "parseListValue (Suc n) =
     (\<lambda>p. let lBracePos = tpos (cur p)
          in pbind (accept [Sym (CHR ''['')]) (\<lambda>u.
             pbind (parseListElements n [])
               (\<lambda>elements p.
                  let rBracePos = tpos (cur p)
                  in pbind (accept [Sym (CHR '']'')]) (\<lambda>u.
                       preturn (List lBracePos rBracePos elements)) p)) p)"
| "parseListElements 0 elements = (\<lambda>p. (OutOfFuel, p))"
| "parseListElements (Suc n) elements =
     (\<lambda>p. if tok p \<noteq> Sym (CHR '']'') then
             pbind (parseExpression n)
               (\<lambda>element p.
                  if tok p \<noteq> Sym (CHR '','') then preturn (elements @ [element]) p
                  else pbind (accept [Sym (CHR '','')])
                         (\<lambda>u. parseListElements n (elements @ [element])) p) p
           else preturn elements p)"
| "parseMapValue 0 = (\<lambda>p. (OutOfFuel, p))"
| "parseMapValue (Suc n) =
     (\<lambda>p. let lBracePos = tpos (cur p)
          in pbind (accept [Sym (CHR ''{'')]) (\<lambda>u.
             pbind (parsePropertyListFrom n False False [])
               (\<lambda>properties p.
                  let rBracePos = tpos (cur p)
                  in pbind (accept [Sym (CHR ''}'')]) (\<lambda>u.
                       preturn (Map lBracePos rBracePos properties)) p)) p)"
| "parsePropertyListFrom 0 isModule compat' properties = (\<lambda>p. (OutOfFuel, p))"
| "parsePropertyListFrom (Suc n) isModule compat' properties =
     (\<lambda>p. if tok p = Ident then
             pbind (parseProperty n isModule compat')
               (\<lambda>property p.
                  let properties' = (if TypeOf (PropValue property) \<noteq> UnsetType
                                     then properties @ [property] else properties)
                  in if tok p \<noteq> Sym (CHR '','') then preturn properties' p
                     else pbind (accept [Sym (CHR '','')])
                            (\<lambda>u. parsePropertyListFrom n isModule compat' properties') p) p
           else preturn properties p)"
| "parseProperty 0 isModule compat' = (\<lambda>p. (OutOfFuel, p))"
| "parseProperty (Suc n) isModule compat' =
     (\<lambda>p. let name = ttext (cur p); namePos = tpos (cur p)
          in pbind (accept [Ident])
               (\<lambda>u p. let pos = tpos (cur p)
                      in pbind (if isModule then (if compat' then accept [Sym (CHR '':'')]
                                                  else accept [Sym (CHR ''='')])
                                else accept [Sym (CHR '':'')]) (\<lambda>u.
                         pbind (parseExpression n) (\<lambda>v.
                           preturn (Property name namePos pos v))) p) p)"

definition parsePropertyList :: "nat \<Rightarrow> bool \<Rightarrow> bool \<Rightarrow> Property list pm" where
  "parsePropertyList n isModule compat' = parsePropertyListFrom n isModule compat' []"


subsection \<open>Definitions and the entry points\<close>

text \<open>
  \<open>parseAssignment\<close>. The scope holds pointers to assignments: \<open>old.Value = val\<close> writes
  through the pointer found under the name, which here replaces the entry of the local
  table. The assignment returned is the new one, as parsed.
\<close>

definition parseAssignment :: "nat \<Rightarrow> string \<Rightarrow> position \<Rightarrow> string \<Rightarrow> Assignment pm" where
  "parseAssignment n name namePos assigner =
     (if name = ''default'' \<or> name = ''unset'' then p_error ReservedKeyword
      else
        (\<lambda>p. let pos = tpos (cur p)
             in pbind (accept [Sym (CHR ''='')]) (\<lambda>u.
                pbind (parseExpression n)
                  (\<lambda>v p.
                     let assignment = \<lparr>Name = name, NamePos = namePos, Value = v, OrigValue = v,
                                       EqualsPos = pos, Assigner = assigner, Referenced = False\<rparr>
                     in case scope p of
                          None \<Rightarrow> preturn assignment p
                        | Some sc \<Rightarrow>
                            if assigner = ''+='' then
                              (case Get sc (Name assignment) of
                                 (None, local) \<Rightarrow> p_error (ModifiedNonExistent (Name assignment)) p
                               | (Some old, local) \<Rightarrow>
                                   if \<not> local then p_error (ModifiedNonLocal (Name assignment)) p
                                   else if Referenced old
                                   then p_error (ModifiedAfterReferencing (Name assignment)) p
                                   else
                                     (case evaluateOperator (eval p) (Value old) (Value assignment)
                                             (Sym (CHR ''+'')) (EqualsPos assignment) of
                                        Err err \<Rightarrow> p_error err p
                                      | Panic x \<Rightarrow> pabort x p
                                      | Ok val \<Rightarrow>
                                          (Done assignment,
                                           p\<lparr>scope := Some (sc\<lparr>vars := (vars sc)
                                                (Name assignment \<mapsto> old\<lparr>Value := val\<rparr>)\<rparr>)\<rparr>)))
                            else
                              (case Add sc assignment of
                                 (Some err, sc') \<Rightarrow> p_error err p
                               | (None, sc') \<Rightarrow> (Done assignment, p\<lparr>scope := Some sc'\<rparr>)))) p))"

definition parseModule :: "nat \<Rightarrow> string \<Rightarrow> position \<Rightarrow> Module pm" where
  "parseModule n typ typPos =
     (\<lambda>p. let lbracePos = tpos (cur p); compat' = (tok p = Sym (CHR ''{''))
          in pbind (accept [tok p]) (\<lambda>u.
             pbind (parsePropertyList n True compat')
               (\<lambda>properties p.
                  let rbracePos = tpos (cur p)
                  in pbind (if \<not> compat' then accept [Sym (CHR '')'')] else accept [Sym (CHR ''}'')])
                       (\<lambda>u. preturn \<lparr>ModuleType = typ, TypePos = typPos, LBracePos = lbracePos,
                                      RBracePos = rbracePos, Properties = properties,
                                      Name_internal_only = None\<rparr>) p)) p)"

datatype Definition = AssignmentDef Assignment | ModuleDef Module

record File =
  FileName :: string
  Defs :: "Definition list"
  FileComments :: "CommentGroup list"

fun parseDefinitions :: "nat \<Rightarrow> Definition list \<Rightarrow> Definition list pm" where
  "parseDefinitions 0 defs = (\<lambda>p. (OutOfFuel, p))"
| "parseDefinitions (Suc n) defs =
     (\<lambda>p. if tok p = Ident then
             (let ident = ttext (cur p); pos = tpos (cur p)
              in pbind (accept [Ident])
                   (\<lambda>u p.
                      if tok p = Sym (CHR ''+'') then
                        pbind (accept [Sym (CHR ''+'')]) (\<lambda>u.
                        pbind (parseAssignment n ident pos ''+='') (\<lambda>a.
                          parseDefinitions n (defs @ [AssignmentDef a]))) p
                      else if tok p = Sym (CHR ''='') then
                        pbind (parseAssignment n ident pos ''='') (\<lambda>a.
                          parseDefinitions n (defs @ [AssignmentDef a])) p
                      else if tok p = Sym (CHR ''{'') \<or> tok p = Sym (CHR ''('') then
                        pbind (parseModule n ident pos) (\<lambda>m.
                          parseDefinitions n (defs @ [ModuleDef m])) p
                      else
                        pbind (p_error (ExpectedDefinition (tok p)))
                          (\<lambda>u :: unit. parseDefinitions n defs) p) p)
           else if tok p = EOF then preturn defs p
           else p_error (ExpectedAssignmentOrModule (tok p)) p)"

text \<open>
  The definitions of a file are pointers. The assignment of \<open>x = e\<close> is the very object
  \<open>Add\<close> stored in the scope, so a later reference or \<open>x += e'\<close> is seen through the file
  as well: once the parse is over, such a definition reads as the scope's entry of its name.
  The assignment of \<open>x += e'\<close> is never stored and stays as parsed.
\<close>

definition resolveDefs :: "Scope option \<Rightarrow> Definition list \<Rightarrow> Definition list" where
  "resolveDefs sco defs =
     (case sco of
        None \<Rightarrow> defs
      | Some sc \<Rightarrow>
          map (\<lambda>d. case d of
                      AssignmentDef a \<Rightarrow>
                        (if Assigner a = ''='' then
                           (case vars sc (Name a) of Some a' \<Rightarrow> AssignmentDef a' | None \<Rightarrow> d)
                         else d)
                    | ModuleDef m \<Rightarrow> d) defs)"

text \<open>
  \<open>parse\<close> with its deferred \<open>recover\<close>: the panic \<open>errTooManyErrors\<close> becomes a normal
  return of a nil file and the errors recorded; any other panic is raised again. The scope
  the caller passed is returned as the call leaves it.
\<close>

definition parse :: "nat \<Rightarrow> parser \<Rightarrow> (File option \<times> ParseError list) run \<times> Scope option" where
  "parse n p =
     (case pbind p_next (\<lambda>u.
           pbind (parseDefinitions n []) (\<lambda>defs.
           pbind (accept [EOF])
             (\<lambda>u p. preturn (\<lparr>FileName = scanFilename p, Defs = resolveDefs (scope p) defs,
                               FileComments = comments p\<rparr>,
                              errors p) p))) p of
        (Done (file, errs), p') \<Rightarrow> (Done (Some file, errs), scope p')
      | (Abort ErrTooManyErrors, p') \<Rightarrow> (Done (None, errors p'), scope p')
      | (Abort x, p') \<Rightarrow> (Abort x, scope p')
      | (Continues, p') \<Rightarrow> (Continues, scope p')
      | (OutOfFuel, p') \<Rightarrow> (OutOfFuel, scope p'))"

definition ParseAndEval ::
  "nat \<Rightarrow> string \<Rightarrow> token list \<Rightarrow> position \<Rightarrow> Scope option
     \<Rightarrow> (File option \<times> ParseError list) run \<times> Scope option" where
  "ParseAndEval n filename r eofp sc =
     parse n ((newParser r eofp sc)\<lparr>eval := True, scanFilename := filename\<rparr>)"

definition Parse ::
  "nat \<Rightarrow> string \<Rightarrow> token list \<Rightarrow> position \<Rightarrow> Scope option
     \<Rightarrow> (File option \<times> ParseError list) run \<times> Scope option" where
  "Parse n filename r eofp sc =
     parse n ((newParser r eofp sc)\<lparr>scanFilename := filename\<rparr>)"

text \<open>\<open>ParseExpression\<close> calls the parser methods itself, with no \<open>recover\<close>: what the
  methods do is what the caller gets.\<close>

definition ParseExpression :: "nat \<Rightarrow> token list \<Rightarrow> position \<Rightarrow> (Expression \<times> ParseError list) run" where
  "ParseExpression n r eofp =
     fst (pbind p_next (\<lambda>u.
          pbind (parseExpression n) (\<lambda>v.
          pbind (accept [EOF]) (\<lambda>u p. preturn (v, errors p) p)))
            (newParser r eofp (Some (NewScope None))))"

text \<open>Tokens for examples: a token of a class and a text, at a given line and column.\<close>

definition mkToken :: "token_kind \<Rightarrow> string \<Rightarrow> int \<Rightarrow> int \<Rightarrow> token" where
  "mkToken k s l c =
     \<lparr>kind = k, ttext = s,
      tpos = \<lparr>Filename = [], Offset = 0, Line = l, Column = c\<rparr>,
      tafter = \<lparr>Filename = [], Offset = 0, Line = l, Column = c + int (length s)\<rparr>,
      unquoted = (if k = StringTok \<and> 2 \<le> length s then Some (butlast (tl s)) else None),
      scanErrors = []\<rparr>"


subsection \<open>Running the parser on concrete input\<close>

text \<open>Unfolding one level of fuel when the fuel is a numeral.\<close>

lemmas fuel_numeral =
  parseExpression.simps(2)[of "pred_numeral k", folded numeral_eq_Suc]
  parseOperator.simps(2)[of "pred_numeral k", folded numeral_eq_Suc]
  parseValue.simps(2)[of "pred_numeral k", folded numeral_eq_Suc]
  parseSelect.simps(2)[of "pred_numeral k", folded numeral_eq_Suc]
  parseSelectCases.simps(2)[of "pred_numeral k", folded numeral_eq_Suc]
  parseListValue.simps(2)[of "pred_numeral k", folded numeral_eq_Suc]
  parseListElements.simps(2)[of "pred_numeral k", folded numeral_eq_Suc]
  parseMapValue.simps(2)[of "pred_numeral k", folded numeral_eq_Suc]
  parsePropertyListFrom.simps(2)[of "pred_numeral k", folded numeral_eq_Suc]
  parseProperty.simps(2)[of "pred_numeral k", folded numeral_eq_Suc]
  parseConditionArgs.simps(2)[of "pred_numeral k", folded numeral_eq_Suc]
  parseConditions.simps(2)[of "pred_numeral k", folded numeral_eq_Suc]
  parseDefinitions.simps(2)[of "pred_numeral k", folded numeral_eq_Suc]
  parsePatterns.simps(2)[of "pred_numeral k", folded numeral_eq_Suc]
  for k

lemmas parser_eval =
  ParseExpression_def Parse_def ParseAndEval_def parse_def resolveDefs_def newParser_def
  pbind_def preturn_def pabort_def p_next_def Scan_def eofToken_def fuel_numeral
  p_error_def maxErrors_def Let_def NewScope_def parseBoolean_def parseVariable_def
  parseStringValue_def parseIntValue_def parseOnePattern_def finishSelect_def mkToken_def
  parseAssignment_def parseModule_def parsePropertyList_def Get_def Add_def IsValid_def
  patternListsEqual_def patternsEqual_def isAllDefault_def default_select_branch_name_def
  Equals_def ParseInt_def evaluateOperator.simps addMaps.simps inMap1_of_def inBoth_of_def
  zeroPos_def

declare parseExpression.simps [simp del] parseOperator.simps [simp del]
  parseValue.simps [simp del] parseSelect.simps [simp del] parseSelectCases.simps [simp del]
  parseListValue.simps [simp del] parseListElements.simps [simp del]
  parseMapValue.simps [simp del] parsePropertyListFrom.simps [simp del]
  parseProperty.simps [simp del] parseConditionArgs.simps [simp del]
  parseConditions.simps [simp del] parseDefinitions.simps [simp del]

section \<open>Notions used to state the properties\<close>

text \<open>
  The properties of a list in source order: the loop of \<open>parsePropertyList\<close> with every
  property kept, whatever its type. It calls the parser's own \<open>parseProperty\<close>, token for
  token as \<open>parsePropertyList\<close> does.
\<close>

fun propertiesInSourceOrder :: "nat \<Rightarrow> bool \<Rightarrow> bool \<Rightarrow> Property list \<Rightarrow> Property list pm" where
  "propertiesInSourceOrder 0 isModule compat' properties = (\<lambda>p. (OutOfFuel, p))"
| "propertiesInSourceOrder (Suc n) isModule compat' properties =
     (\<lambda>p. if tok p = Ident then
             pbind (parseProperty n isModule compat')
               (\<lambda>property p.
                  if tok p \<noteq> Sym (CHR '','') then preturn (properties @ [property]) p
                  else pbind (accept [Sym (CHR '','')])
                         (\<lambda>u. propertiesInSourceOrder n isModule compat'
                                 (properties @ [property])) p) p
           else preturn properties p)"

definition emitted :: "Property list \<Rightarrow> Property list" where
  "emitted ps = filter (\<lambda>property. TypeOf (PropValue property) \<noteq> UnsetType) ps"

lemmas propertiesInSourceOrder_numeral =
  propertiesInSourceOrder.simps(2)[of "pred_numeral k", folded numeral_eq_Suc] for k

text \<open>The node the keyword \<open>unset\<close> is parsed into.\<close>

primrec isUnsetProperty :: "Expression \<Rightarrow> bool" where
  "isUnsetProperty (String pos v) = False"
| "isUnsetProperty (Int64 pos v tk) = False"
| "isUnsetProperty (Bool pos v tk) = False"
| "isUnsetProperty (List l r vs) = False"
| "isUnsetProperty (Map l r ps) = False"
| "isUnsetProperty (Variable n pos v) = False"
| "isUnsetProperty (Operator a0 a1 opr pos v) = False"
| "isUnsetProperty (Select kw conds l r cs app ety) = False"
| "isUnsetProperty (NotEvaluated pos) = False"
| "isUnsetProperty (UnsetProperty pos) = True"

text \<open>An expression with every source position replaced by the zero position: two
  expressions are structurally equal, positions apart, when these are equal.\<close>

definition stripCondition :: "ConfigurableCondition \<Rightarrow> ConfigurableCondition" where
  "stripCondition c = \<lparr>cond_position = zeroPos, FunctionName = FunctionName c,
                        Args = map (\<lambda>a. (zeroPos, snd a)) (Args c)\<rparr>"

primrec stripPos :: "Expression \<Rightarrow> Expression"
  and stripPosProperty :: "Property \<Rightarrow> Property"
  and stripPosCase :: "SelectCase \<Rightarrow> SelectCase" where
  "stripPos (String pos v) = String zeroPos v"
| "stripPos (Int64 pos v tk) = Int64 zeroPos v tk"
| "stripPos (Bool pos v tk) = Bool zeroPos v tk"
| "stripPos (List l r vs) = List zeroPos zeroPos (map stripPos vs)"
| "stripPos (Map l r ps) = Map zeroPos zeroPos (map stripPosProperty ps)"
| "stripPos (Variable n pos v) = Variable n zeroPos (stripPos v)"
| "stripPos (Operator a0 a1 opr pos v) = Operator (stripPos a0) (stripPos a1) opr zeroPos (stripPos v)"
| "stripPos (Select kw conds l r cs app ety) =
     Select zeroPos (map stripCondition conds) zeroPos zeroPos (map stripPosCase cs)
       (map_option stripPos app) ety"
| "stripPos (NotEvaluated pos) = NotEvaluated zeroPos"
| "stripPos (UnsetProperty pos) = UnsetProperty zeroPos"
| "stripPosProperty (Property n np cp v) = Property n zeroPos zeroPos (stripPos v)"
| "stripPosCase (SelectCase pats cp v) = SelectCase (map stripPos pats) zeroPos (stripPos v)"

text \<open>A parser method that ends by reporting an error: it panics with
  \<open>errTooManyErrors\<close>, the error is the last of the list, and the scope is as it was.\<close>

definition failsWith :: "parser \<Rightarrow> 'a run \<times> parser \<Rightarrow> error \<Rightarrow> bool" where
  "failsWith p1 r err =
     (fst r = Abort ErrTooManyErrors
      \<and> map ErrOf (errors (snd r)) = map ErrOf (errors p1) @ [err]
      \<and> scope (snd r) = scope p1)"

text \<open>For examples: the parser on a token list, after the first \<open>next\<close>.\<close>

definition startOn :: "token list \<Rightarrow> Scope option \<Rightarrow> bool \<Rightarrow> parser" where
  "startOn r sc ev = snd (p_next ((newParser r zeroPos sc)\<lparr>eval := ev\<rparr>))"

definition unsetScope :: Scope where
  "unsetScope =
     \<lparr>vars = [''x'' \<mapsto> \<lparr>Name = ''x'', NamePos = zeroPos, Value = UnsetProperty zeroPos,
                          OrigValue = UnsetProperty zeroPos, EqualsPos = zeroPos,
                          Assigner = ''='', Referenced = False\<rparr>],
      inheritedVars = Map.empty\<rparr>"


definition listScope :: Scope where
  "listScope =
     \<lparr>vars = [''x'' \<mapsto> \<lparr>Name = ''x'', NamePos = zeroPos,
                          Value = List zeroPos zeroPos [String zeroPos ''a''],
                          OrigValue = List zeroPos zeroPos [String zeroPos ''a''],
                          EqualsPos = zeroPos, Assigner = ''='', Referenced = False\<rparr>],
      inheritedVars = Map.empty\<rparr>"


text \<open>The operands of \<open>[x] + ["b"]\<close> in a store, where \<open>x\<close> is bound to the string \<open>"s"\<close>: the
  left list at address 2, the right list at address 4.\<close>

definition listPlusStore :: store where
  "listPlusStore =
     [StringN zeroPos ''s'', VariableN ''x'' zeroPos 0, ListN zeroPos zeroPos [1],
      StringN zeroPos ''b'', ListN zeroPos zeroPos [3]]"

text \<open>The store after \<open>evaluateOperator\<close> on these operands.\<close>

definition listPlusResult :: store where
  "listPlusResult =
     listPlusStore @
     [VariableN ''x'' zeroPos 0, ListN zeroPos zeroPos [5, 3],
      OperatorN 2 4 (Sym (CHR ''+'')) zeroPos 6]"

text \<open>The bindings of the scope have values of a type other than unset, whenever the
  parser evaluates and so looks variables up.\<close>

definition typedScope :: "parser \<Rightarrow> bool" where
  "typedScope p =
     (eval p \<longrightarrow>
        (\<forall>sc name a. scope p = Some sc
            \<and> (vars sc name = Some a \<or> inheritedVars sc name = Some a)
            \<longrightarrow> TypeOf (Value a) \<noteq> UnsetType))"

text \<open>A run of a parser method that, if it returns, returns a value satisfying \<open>Q\<close> and
  leaves a scope whose bindings are typed.\<close>

definition returnsTyped :: "'a run \<times> parser \<Rightarrow> ('a \<Rightarrow> bool) \<Rightarrow> bool" where
  "returnsTyped r Q = (\<forall>x p'. r = (Done x, p') \<longrightarrow> typedScope p' \<and> Q x)"

text \<open>The tokens of \<open>select(f("a"), { "x": x, default: unset, })\<close> and of
  \<open>select(f("a"), { "x": x, "y": "s", })\<close>.\<close>

definition selectVariable :: "token list" where
  "selectVariable =
     [mkToken Ident ''select'' 1 1, mkToken (Sym (CHR ''('')) ''('' 1 7,
      mkToken Ident ''f'' 1 8, mkToken (Sym (CHR ''('')) ''('' 1 9,
      mkToken StringTok [CHR 0x22, CHR ''a'', CHR 0x22] 1 10, mkToken (Sym (CHR '')'')) '')'' 1 13,
      mkToken (Sym (CHR '','')) '','' 1 14, mkToken (Sym (CHR ''{'')) ''{'' 1 16,
      mkToken StringTok [CHR 0x22, CHR ''x'', CHR 0x22] 2 1, mkToken (Sym (CHR '':'')) '':'' 2 4,
      mkToken Ident ''x'' 2 6, mkToken (Sym (CHR '','')) '','' 2 7,
      mkToken Ident ''default'' 3 1, mkToken (Sym (CHR '':'')) '':'' 3 8,
      mkToken Ident ''unset'' 3 10, mkToken (Sym (CHR '','')) '','' 3 15,
      mkToken (Sym (CHR ''}'')) ''}'' 4 1, mkToken (Sym (CHR '')'')) '')'' 4 2]"

definition selectVariableString :: "token list" where
  "selectVariableString =
     [mkToken Ident ''select'' 1 1, mkToken (Sym (CHR ''('')) ''('' 1 7,
      mkToken Ident ''f'' 1 8, mkToken (Sym (CHR ''('')) ''('' 1 9,
      mkToken StringTok [CHR 0x22, CHR ''a'', CHR 0x22] 1 10, mkToken (Sym (CHR '')'')) '')'' 1 13,
      mkToken (Sym (CHR '','')) '','' 1 14, mkToken (Sym (CHR ''{'')) ''{'' 1 16,
      mkToken StringTok [CHR 0x22, CHR ''x'', CHR 0x22] 2 1, mkToken (Sym (CHR '':'')) '':'' 2 4,
      mkToken Ident ''x'' 2 6, mkToken (Sym (CHR '','')) '','' 2 7,
      mkToken StringTok [CHR 0x22, CHR ''y'', CHR 0x22] 3 1, mkToken (Sym (CHR '':'')) '':'' 3 4,
      mkToken StringTok [CHR 0x22, CHR ''s'', CHR 0x22] 3 6, mkToken (Sym (CHR '','')) '','' 3 9,
      mkToken (Sym (CHR ''}'')) ''}'' 4 1, mkToken (Sym (CHR '')'')) '')'' 4 2]"



section \<open>Properties of the evaluator\<close>

lemma Operator_not_arg0: "value1 \<noteq> Operator value1 value2 opr pos x"
proof
  assume "value1 = Operator value1 value2 opr pos x"
  then have "size value1 = size (Operator value1 value2 opr pos x)" by (rule arg_cong)
  then show False by simp
qed

lemma Operator_not_arg1: "value2 \<noteq> Operator value1 value2 opr pos x"
proof
  assume "value2 = Operator value1 value2 opr pos x"
  then have "size value2 = size (Operator value1 value2 opr pos x)" by (rule arg_cong)
  then show False by simp
qed

text \<open>
  Claim C1, as the code has it. When exactly one of the two operands has type unset,
  \<open>evaluateOperator\<close> returns the other operand itself, without error, whatever the
  evaluation mode and the operator. The two guards return before any node is built: the
  result is not an \<open>Operator\<close> wrapping the pair.
\<close>

theorem evaluateOperator_unset_operand:
  assumes "(TypeOf value1 = UnsetType) \<noteq> (TypeOf value2 = UnsetType)"
  shows "evaluateOperator ev value1 value2 opr pos
           = Ok (if TypeOf value1 = UnsetType then value2 else value1)
       \<and> (\<forall>x. evaluateOperator ev value1 value2 opr pos \<noteq> Ok (Operator value1 value2 opr pos x))"
proof (cases "TypeOf value1 = UnsetType")
  case True
  then have "evaluateOperator ev value1 value2 opr pos = Ok value2"
    by (simp add: evaluateOperator.simps)
  with True show ?thesis by (simp add: Operator_not_arg1)
next
  case False
  with assms have "TypeOf value2 = UnsetType" by simp
  with False have "evaluateOperator ev value1 value2 opr pos = Ok value1"
    by (simp add: evaluateOperator.simps)
  with False show ?thesis by (simp add: Operator_not_arg0)
qed

theorem evaluateOperator_unset_operand_witness:
  "(TypeOf (UnsetProperty zeroPos) = UnsetType) \<noteq> (TypeOf (String zeroPos ''a'') = UnsetType)
   \<and> evaluateOperator True (UnsetProperty zeroPos) (String zeroPos ''a'') (Sym (CHR ''+'')) zeroPos
       = Ok (String zeroPos ''a'')
   \<and> evaluateOperator False (Bool zeroPos True ''true'') (UnsetProperty zeroPos) (Sym (CHR ''+'')) zeroPos
       = Ok (Bool zeroPos True ''true'')"
  using evaluateOperator_unset_operand[of "UnsetProperty zeroPos" "String zeroPos ''a''" True "Sym (CHR ''+'')" zeroPos]
    evaluateOperator_unset_operand[of "Bool zeroPos True ''true''" "UnsetProperty zeroPos" False "Sym (CHR ''+'')" zeroPos]
  by simp

text \<open>
  Claim C1 as the specification words it asks for an \<open>Operator\<close> node around the original
  pair, its value the operand that is not unset. For \<open>unset + "a"\<close> the call returns the
  string itself and not that node.
\<close>

theorem evaluateOperator_unset_operand_counterexample:
  "evaluateOperator True (UnsetProperty zeroPos) (String zeroPos ''a'') (Sym (CHR ''+'')) zeroPos
     = Ok (String zeroPos ''a'')
   \<and> evaluateOperator True (UnsetProperty zeroPos) (String zeroPos ''a'') (Sym (CHR ''+'')) zeroPos
     \<noteq> Ok (Operator (UnsetProperty zeroPos) (String zeroPos ''a'') (Sym (CHR ''+'')) zeroPos
           (String zeroPos ''a''))"
  by (simp add: evaluateOperator.simps)

text \<open>
  The values that \<open>+\<close> computes. In evaluation mode, for two operands that are not of type
  unset: when both evaluate to strings the folded value is a string at the left literal's
  position holding the concatenation; when both evaluate to integers it is an integer
  holding the \<open>int64\<close> sum (exact whenever the mathematical sum fits in 64 bits) with an
  empty token; when both evaluate to lists it is a list with the left brackets holding the
  left values followed by the right values, nothing removed. The folded value is the
  \<open>Value\<close> of the returned operator node, whose arguments are the two operands. What the
  folded value shares with the left operand is the subject of the section on the copy made
  by the operator.
\<close>

lemma sint_add_exact:
  fixes a b :: "64 word"
  assumes "- (2 ^ 63) \<le> sint a + sint b \<and> sint a + sint b < 2 ^ 63"
  shows "sint (a + b) = sint a + sint b"
  using assms by (simp add: sint_word_ariths signed_take_bit_int_eq_self)

lemma evaluateOperator_plus_values:
  assumes "TypeOf value1 \<noteq> UnsetType" and "TypeOf value2 \<noteq> UnsetType"
  shows "(Eval value1 = String lp s \<and> Eval value2 = String lp2 s2 \<longrightarrow>
            evaluateOperator True value1 value2 (Sym (CHR ''+'')) pos
              = Ok (Operator value1 value2 (Sym (CHR ''+'')) pos (String lp (s @ s2))))
       \<and> (Eval value1 = Int64 lp i tk \<and> Eval value2 = Int64 lp2 i2 tk2 \<longrightarrow>
            evaluateOperator True value1 value2 (Sym (CHR ''+'')) pos
              = Ok (Operator value1 value2 (Sym (CHR ''+'')) pos (Int64 lp (i + i2) []))
            \<and> (- (2 ^ 63) \<le> sint i + sint i2 \<and> sint i + sint i2 < 2 ^ 63 \<longrightarrow>
                 sint (i + i2) = sint i + sint i2))
       \<and> (Eval value1 = List l r vs \<and> Eval value2 = List l2 r2 vs2 \<longrightarrow>
            evaluateOperator True value1 value2 (Sym (CHR ''+'')) pos
              = Ok (Operator value1 value2 (Sym (CHR ''+'')) pos (List l r (vs @ vs2))))"
proof (intro conjI impI)
  assume "Eval value1 = String lp s \<and> Eval value2 = String lp2 s2"
  with assms show "evaluateOperator True value1 value2 (Sym (CHR ''+'')) pos
      = Ok (Operator value1 value2 (Sym (CHR ''+'')) pos (String lp (s @ s2)))"
    by (simp add: evaluateOperator.simps)
next
  assume "Eval value1 = Int64 lp i tk \<and> Eval value2 = Int64 lp2 i2 tk2"
  with assms show "evaluateOperator True value1 value2 (Sym (CHR ''+'')) pos
      = Ok (Operator value1 value2 (Sym (CHR ''+'')) pos (Int64 lp (i + i2) []))"
    by (simp add: evaluateOperator.simps)
next
  assume "- (2 ^ 63) \<le> sint i + sint i2 \<and> sint i + sint i2 < 2 ^ 63"
  then show "sint (i + i2) = sint i + sint i2"
    by (rule sint_add_exact)
next
  assume "Eval value1 = List l r vs \<and> Eval value2 = List l2 r2 vs2"
  with assms show "evaluateOperator True value1 value2 (Sym (CHR ''+'')) pos
      = Ok (Operator value1 value2 (Sym (CHR ''+'')) pos (List l r (vs @ vs2)))"
    by (simp add: evaluateOperator.simps Copy_id_all map_idI)
qed

lemma evaluateOperator_plus_values_example:
  "TypeOf (String zeroPos ''ab'') \<noteq> UnsetType
   \<and> evaluateOperator True (String zeroPos ''ab'') (String zeroPos ''cd'') (Sym (CHR ''+'')) zeroPos
       = Ok (Operator (String zeroPos ''ab'') (String zeroPos ''cd'') (Sym (CHR ''+'')) zeroPos
              (String zeroPos ''abcd''))
   \<and> evaluateOperator True (Int64 zeroPos 40 ''40'') (Int64 zeroPos 2 ''2'') (Sym (CHR ''+'')) zeroPos
       = Ok (Operator (Int64 zeroPos 40 ''40'') (Int64 zeroPos 2 ''2'') (Sym (CHR ''+'')) zeroPos
              (Int64 zeroPos 42 []))
   \<and> evaluateOperator True (List zeroPos zeroPos [String zeroPos ''a''])
         (List zeroPos zeroPos [String zeroPos ''a'']) (Sym (CHR ''+'')) zeroPos
       = Ok (Operator (List zeroPos zeroPos [String zeroPos ''a''])
              (List zeroPos zeroPos [String zeroPos ''a'']) (Sym (CHR ''+'')) zeroPos
              (List zeroPos zeroPos [String zeroPos ''a'', String zeroPos ''a'']))"
proof -
  let ?s1 = "String zeroPos ''ab''" and ?s2 = "String zeroPos ''cd''"
  let ?i1 = "Int64 zeroPos 40 ''40''" and ?i2 = "Int64 zeroPos 2 ''2''"
  let ?l = "List zeroPos zeroPos [String zeroPos ''a'']"
  have s: "TypeOf ?s1 \<noteq> UnsetType" "TypeOf ?s2 \<noteq> UnsetType"
    "Eval ?s1 = String zeroPos ''ab'' \<and> Eval ?s2 = String zeroPos ''cd''" by simp_all
  have i: "TypeOf ?i1 \<noteq> UnsetType" "TypeOf ?i2 \<noteq> UnsetType"
    "Eval ?i1 = Int64 zeroPos 40 ''40'' \<and> Eval ?i2 = Int64 zeroPos 2 ''2''" by simp_all
  have l: "TypeOf ?l \<noteq> UnsetType"
    "Eval ?l = List zeroPos zeroPos [String zeroPos ''a'']
      \<and> Eval ?l = List zeroPos zeroPos [String zeroPos ''a'']" by simp_all
  note t1 = evaluateOperator_plus_values[OF s(1) s(2), THEN conjunct1, rule_format, OF s(3)]
  note t2 = evaluateOperator_plus_values[OF i(1) i(2), THEN conjunct2, THEN conjunct1,
      rule_format, OF i(3), THEN conjunct1]
  note t3 = evaluateOperator_plus_values[OF l(1) l(1), THEN conjunct2, THEN conjunct2,
      rule_format, OF l(2)]
  show ?thesis using s(1) t1 t2 t3 by simp
qed

subsection \<open>Merging maps\<close>

text \<open>The last property of a list that carries a given name: what \<open>inMap1\<close>, \<open>inMap2\<close> and
  \<open>inBoth\<close> hold for that name once their loops have run.\<close>

fun lastNamed :: "string \<Rightarrow> Property list \<Rightarrow> Property option" where
  "lastNamed n [] = None"
| "lastNamed n (p # ps) =
     (case lastNamed n ps of Some q \<Rightarrow> Some q | None \<Rightarrow> if PropName p = n then Some p else None)"

text \<open>What \<open>addMaps\<close> puts in the place of a left property: the property itself when the
  right side has no property of that name, and otherwise the left property with its value
  replaced by \<open>evaluateOperator\<close> of the left value and the right side's value.\<close>

definition merged :: "bool \<Rightarrow> position \<Rightarrow> Property list \<Rightarrow> Property \<Rightarrow> Property \<Rightarrow> bool" where
  "merged ev pos map_2 prop1 r =
     (case lastNamed (PropName prop1) map_2 of
        None \<Rightarrow> r = prop1
      | Some prop2 \<Rightarrow>
          (\<exists>v. evaluateOperator ev (PropValue prop1) (PropValue prop2) (Sym (CHR ''+'')) pos = Ok v
             \<and> r = Property (PropName prop1) (PropNamePos prop1) (PropColonPos prop1) v))"

lemma lastNamed_None_iff: "lastNamed n ps = None \<longleftrightarrow> n \<notin> PropName ` set ps"
  by (induction ps) (auto split: option.splits)

lemma fold_inMap1:
  "fold (\<lambda>prop1 m. m(PropName prop1 \<mapsto> prop1)) ps m0 n =
     (case lastNamed n ps of Some q \<Rightarrow> Some q | None \<Rightarrow> m0 n)"
  by (induction ps arbitrary: m0) (auto split: option.splits)

lemma inMap1_of_eq: "inMap1_of ps n = lastNamed n ps"
  by (simp add: inMap1_of_def fold_inMap1 split: option.splits)

lemma fold_inBoth:
  "fold (\<lambda>prop2 m. if f (PropName prop2) \<noteq> None then m(PropName prop2 \<mapsto> prop2) else m) ps m0 n =
     (if f n \<noteq> None then (case lastNamed n ps of Some q \<Rightarrow> Some q | None \<Rightarrow> m0 n) else m0 n)"
  by (induction ps arbitrary: m0) (auto split: option.splits)

lemma inBoth_of_eq:
  "inBoth_of (inMap1_of m1) m2 n = (if n \<in> PropName ` set m1 then lastNamed n m2 else None)"
  unfolding inBoth_of_def fold_inBoth
  using lastNamed_None_iff[of n m1]
  by (auto simp add: inMap1_of_eq split: option.splits)

lemma addMapsLeft_all2:
  assumes "addMapsLeft ev inBoth m1 pos = Ok ret"
      and "\<And>p. p \<in> set m1 \<Longrightarrow> inBoth (PropName p) = lastNamed (PropName p) m2"
  shows "list_all2 (merged ev pos m2) m1 ret"
  using assms
proof (induction m1 arbitrary: ret)
  case Nil
  then show ?case by simp
next
  case (Cons p m1)
  have ib: "inBoth (PropName p) = lastNamed (PropName p) m2"
    using Cons.prems(2) by simp
  from Cons.prems(1) obtain r rest where ret: "ret = r # rest"
    and rest: "addMapsLeft ev inBoth m1 pos = Ok rest" and hd: "merged ev pos m2 p r"
    by (auto simp add: merged_def ib split: option.splits result.splits)
  have "list_all2 (merged ev pos m2) m1 rest"
    using Cons.IH[OF rest] Cons.prems(2) by simp
  with hd ret show ?case by simp
qed

lemma addMapsLeft_disjoint:
  assumes "\<And>p. p \<in> set m1 \<Longrightarrow> inBoth (PropName p) = None"
  shows "addMapsLeft ev inBoth m1 pos = Ok m1"
  using assms by (induction m1) auto

text \<open>
  Claim C5. For two property lists with no name in common, \<open>addMaps\<close> returns the left list
  followed by the right list. In general, whenever \<open>addMaps\<close> returns a list, that list is
  one entry per left property, in left order (the property itself when its name occurs on
  the left only, and the property with its value combined by \<open>+\<close> with the right value of
  that name otherwise), followed by the right properties whose name does not occur on the
  left, in right order.
\<close>

theorem addMaps_merge:
  "(PropName ` set m1 \<inter> PropName ` set m2 = {} \<longrightarrow> addMaps ev m1 m2 pos = Ok (m1 @ m2))
 \<and> (\<forall>ret. addMaps ev m1 m2 pos = Ok ret \<longrightarrow>
      (\<exists>left. ret = left @ filter (\<lambda>prop2. PropName prop2 \<notin> PropName ` set m1) m2
           \<and> list_all2 (merged ev pos m2) m1 left))"
proof (intro conjI impI allI)
  assume dis: "PropName ` set m1 \<inter> PropName ` set m2 = {}"
  have ib: "inBoth_of (inMap1_of m1) m2 n = None" for n
    using dis lastNamed_None_iff[of n m2] by (auto simp add: inBoth_of_eq)
  have "filter (\<lambda>prop2. inBoth_of (inMap1_of m1) m2 (PropName prop2) = None) m2 = m2"
    by (simp add: ib)
  then show "addMaps ev m1 m2 pos = Ok (m1 @ m2)"
    by (simp add: addMaps.simps addMapsLeft_disjoint ib)
next
  fix ret
  assume a: "addMaps ev m1 m2 pos = Ok ret"
  let ?ib = "inBoth_of (inMap1_of m1) m2"
  from a obtain left where l: "addMapsLeft ev ?ib m1 pos = Ok left"
    and r: "ret = left @ filter (\<lambda>prop2. ?ib (PropName prop2) = None) m2"
    by (auto simp add: addMaps.simps Let_def split: result.splits)
  have f: "filter (\<lambda>prop2. ?ib (PropName prop2) = None) m2
         = filter (\<lambda>prop2. PropName prop2 \<notin> PropName ` set m1) m2"
    by (rule filter_cong) (auto simp add: inBoth_of_eq lastNamed_None_iff)
  have "list_all2 (merged ev pos m2) m1 left"
    by (rule addMapsLeft_all2[OF l]) (simp add: inBoth_of_eq)
  with r f show "\<exists>left. ret = left @ filter (\<lambda>prop2. PropName prop2 \<notin> PropName ` set m1) m2
           \<and> list_all2 (merged ev pos m2) m1 left"
    by auto
qed

theorem addMaps_merge_witness:
  "PropName ` set [Property ''a'' zeroPos zeroPos (String zeroPos ''x'')]
     \<inter> PropName ` set [Property ''b'' zeroPos zeroPos (String zeroPos ''y'')] = {}
   \<and> addMaps True [Property ''a'' zeroPos zeroPos (String zeroPos ''x'')]
         [Property ''b'' zeroPos zeroPos (String zeroPos ''y'')] zeroPos
       = Ok [Property ''a'' zeroPos zeroPos (String zeroPos ''x''),
             Property ''b'' zeroPos zeroPos (String zeroPos ''y'')]
   \<and> addMaps True
         [Property ''a'' zeroPos zeroPos (String zeroPos ''x''),
          Property ''c'' zeroPos zeroPos (String zeroPos ''k'')]
         [Property ''a'' zeroPos zeroPos (String zeroPos ''y''),
          Property ''b'' zeroPos zeroPos (String zeroPos ''z'')] zeroPos
       = Ok [Property ''a'' zeroPos zeroPos
               (Operator (String zeroPos ''x'') (String zeroPos ''y'') (Sym (CHR ''+'')) zeroPos
                  (String zeroPos ''xy'')),
             Property ''c'' zeroPos zeroPos (String zeroPos ''k''),
             Property ''b'' zeroPos zeroPos (String zeroPos ''z'')]
   \<and> (\<exists>left.
         [Property ''a'' zeroPos zeroPos
            (Operator (String zeroPos ''x'') (String zeroPos ''y'') (Sym (CHR ''+'')) zeroPos
               (String zeroPos ''xy'')),
          Property ''c'' zeroPos zeroPos (String zeroPos ''k''),
          Property ''b'' zeroPos zeroPos (String zeroPos ''z'')]
           = left @ [Property ''b'' zeroPos zeroPos (String zeroPos ''z'')]
         \<and> list_all2
             (merged True zeroPos
                [Property ''a'' zeroPos zeroPos (String zeroPos ''y''),
                 Property ''b'' zeroPos zeroPos (String zeroPos ''z'')])
             [Property ''a'' zeroPos zeroPos (String zeroPos ''x''),
              Property ''c'' zeroPos zeroPos (String zeroPos ''k'')] left)"
proof -
  let ?a = "[Property ''a'' zeroPos zeroPos (String zeroPos ''x'')]"
  let ?b = "[Property ''b'' zeroPos zeroPos (String zeroPos ''y'')]"
  let ?m1 = "[Property ''a'' zeroPos zeroPos (String zeroPos ''x''),
              Property ''c'' zeroPos zeroPos (String zeroPos ''k'')]"
  let ?m2 = "[Property ''a'' zeroPos zeroPos (String zeroPos ''y''),
              Property ''b'' zeroPos zeroPos (String zeroPos ''z'')]"
  have d: "PropName ` set ?a \<inter> PropName ` set ?b = {}" by simp
  have c1: "addMaps True ?a ?b zeroPos = Ok (?a @ ?b)"
    using addMaps_merge[of ?a ?b True zeroPos] d by blast
  have r: "addMaps True ?m1 ?m2 zeroPos
       = Ok [Property ''a'' zeroPos zeroPos
               (Operator (String zeroPos ''x'') (String zeroPos ''y'') (Sym (CHR ''+'')) zeroPos
                  (String zeroPos ''xy'')),
             Property ''c'' zeroPos zeroPos (String zeroPos ''k''),
             Property ''b'' zeroPos zeroPos (String zeroPos ''z'')]"
    by (simp add: addMaps.simps evaluateOperator.simps inMap1_of_def inBoth_of_def)
  from addMaps_merge[of ?m1 ?m2 True zeroPos, THEN conjunct2, rule_format, OF r]
  have "\<exists>left.
         [Property ''a'' zeroPos zeroPos
            (Operator (String zeroPos ''x'') (String zeroPos ''y'') (Sym (CHR ''+'')) zeroPos
               (String zeroPos ''xy'')),
          Property ''c'' zeroPos zeroPos (String zeroPos ''k''),
          Property ''b'' zeroPos zeroPos (String zeroPos ''z'')]
           = left @ [Property ''b'' zeroPos zeroPos (String zeroPos ''z'')]
         \<and> list_all2 (merged True zeroPos ?m2) ?m1 left"
    by simp
  with d c1 r show ?thesis by simp
qed

section \<open>Properties of scopes\<close>

lemma NewScope_disjoint: "dom (vars (NewScope parent)) \<inter> dom (inheritedVars (NewScope parent)) = {}"
  by (simp add: NewScope_def split: option.splits)

lemma Add_disjoint:
  assumes "dom (vars s) \<inter> dom (inheritedVars s) = {}"
  shows "dom (vars (snd (Add s a))) \<inter> dom (inheritedVars (snd (Add s a))) = {}"
  using assms by (auto simp add: Add_def split: option.splits)

lemma Remove_disjoint:
  assumes "dom (vars s) \<inter> dom (inheritedVars s) = {}"
  shows "dom (vars (Remove s n)) \<inter> dom (inheritedVars (Remove s n)) = {}"
  using assms by (auto simp add: Remove_def)

lemma apply_op_disjoint:
  assumes "dom (vars s) \<inter> dom (inheritedVars s) = {}"
  shows "dom (vars (apply_op s x)) \<inter> dom (inheritedVars (apply_op s x)) = {}"
  using assms by (cases x) (simp_all add: NewScope_disjoint Add_disjoint Remove_disjoint)

lemma foldl_apply_op_disjoint:
  assumes "dom (vars s) \<inter> dom (inheritedVars s) = {}"
  shows "dom (vars (foldl apply_op s ops)) \<inter> dom (inheritedVars (foldl apply_op s ops)) = {}"
  using assms by (induction ops arbitrary: s) (simp_all add: apply_op_disjoint)

text \<open>
  Claim C8. Start from \<open>NewScope\<close> of any parent (or of nil) and apply any sequence of
  \<open>NewScope\<close>, \<open>Add\<close> and \<open>Remove\<close>: the local and the inherited table of the scope reached
  have no key in common. And on any scope, \<open>Add\<close> of an assignment whose name is a key of
  either table returns an error and leaves the scope as it was.
\<close>

theorem Scope_disjoint_and_Add_rejects:
  "dom (vars (foldl apply_op (NewScope parent) ops))
     \<inter> dom (inheritedVars (foldl apply_op (NewScope parent) ops)) = {}
   \<and> (Name a \<in> dom (vars s) \<union> dom (inheritedVars s) \<longrightarrow>
        fst (Add s a) \<noteq> None \<and> snd (Add s a) = s)"
  by (auto simp add: foldl_apply_op_disjoint NewScope_disjoint Add_def split: option.splits)

theorem Scope_disjoint_and_Add_rejects_witness:
  "dom (vars (foldl apply_op
          (NewScope (Some (snd (Add (NewScope None)
             \<lparr>Name = ''x'', NamePos = zeroPos, Value = String zeroPos ''v'',
              OrigValue = String zeroPos ''v'', EqualsPos = zeroPos, Assigner = ''='',
              Referenced = False\<rparr>))))
          [DoAdd \<lparr>Name = ''y'', NamePos = zeroPos, Value = String zeroPos ''w'',
              OrigValue = String zeroPos ''w'', EqualsPos = zeroPos, Assigner = ''='',
              Referenced = False\<rparr>,
           DoAdd \<lparr>Name = ''x'', NamePos = zeroPos, Value = String zeroPos ''v'',
              OrigValue = String zeroPos ''v'', EqualsPos = zeroPos, Assigner = ''='',
              Referenced = False\<rparr>,
           DoNewScope, DoRemove ''x'']))
     \<inter> dom (inheritedVars (foldl apply_op
          (NewScope (Some (snd (Add (NewScope None)
             \<lparr>Name = ''x'', NamePos = zeroPos, Value = String zeroPos ''v'',
              OrigValue = String zeroPos ''v'', EqualsPos = zeroPos, Assigner = ''='',
              Referenced = False\<rparr>))))
          [DoAdd \<lparr>Name = ''y'', NamePos = zeroPos, Value = String zeroPos ''w'',
              OrigValue = String zeroPos ''w'', EqualsPos = zeroPos, Assigner = ''='',
              Referenced = False\<rparr>,
           DoAdd \<lparr>Name = ''x'', NamePos = zeroPos, Value = String zeroPos ''v'',
              OrigValue = String zeroPos ''v'', EqualsPos = zeroPos, Assigner = ''='',
              Referenced = False\<rparr>,
           DoNewScope, DoRemove ''x''])) = {}
   \<and> ''x'' \<in> dom (inheritedVars (NewScope (Some (snd (Add (NewScope None)
             \<lparr>Name = ''x'', NamePos = zeroPos, Value = String zeroPos ''v'',
              OrigValue = String zeroPos ''v'', EqualsPos = zeroPos, Assigner = ''='',
              Referenced = False\<rparr>)))))
   \<and> fst (Add (NewScope (Some (snd (Add (NewScope None)
             \<lparr>Name = ''x'', NamePos = zeroPos, Value = String zeroPos ''v'',
              OrigValue = String zeroPos ''v'', EqualsPos = zeroPos, Assigner = ''='',
              Referenced = False\<rparr>))))
          \<lparr>Name = ''x'', NamePos = zeroPos, Value = String zeroPos ''u'',
              OrigValue = String zeroPos ''u'', EqualsPos = zeroPos, Assigner = ''='',
              Referenced = False\<rparr>) \<noteq> None
   \<and> snd (Add (NewScope (Some (snd (Add (NewScope None)
             \<lparr>Name = ''x'', NamePos = zeroPos, Value = String zeroPos ''v'',
              OrigValue = String zeroPos ''v'', EqualsPos = zeroPos, Assigner = ''='',
              Referenced = False\<rparr>))))
          \<lparr>Name = ''x'', NamePos = zeroPos, Value = String zeroPos ''u'',
              OrigValue = String zeroPos ''u'', EqualsPos = zeroPos, Assigner = ''='',
              Referenced = False\<rparr>)
       = NewScope (Some (snd (Add (NewScope None)
             \<lparr>Name = ''x'', NamePos = zeroPos, Value = String zeroPos ''v'',
              OrigValue = String zeroPos ''v'', EqualsPos = zeroPos, Assigner = ''='',
              Referenced = False\<rparr>)))"
proof -
  let ?x = "\<lparr>Name = ''x'', NamePos = zeroPos, Value = String zeroPos ''v'',
              OrigValue = String zeroPos ''v'', EqualsPos = zeroPos, Assigner = ''='',
              Referenced = False\<rparr>"
  let ?x' = "\<lparr>Name = ''x'', NamePos = zeroPos, Value = String zeroPos ''u'',
              OrigValue = String zeroPos ''u'', EqualsPos = zeroPos, Assigner = ''='',
              Referenced = False\<rparr>"
  let ?y = "\<lparr>Name = ''y'', NamePos = zeroPos, Value = String zeroPos ''w'',
              OrigValue = String zeroPos ''w'', EqualsPos = zeroPos, Assigner = ''='',
              Referenced = False\<rparr>"
  let ?c = "NewScope (Some (snd (Add (NewScope None) ?x)))"
  have m: "''x'' \<in> dom (inheritedVars ?c)"
    by (simp add: NewScope_def Add_def)
  then have "Name ?x' \<in> dom (vars ?c) \<union> dom (inheritedVars ?c)" by simp
  with Scope_disjoint_and_Add_rejects[of "Some (snd (Add (NewScope None) ?x))"
      "[DoAdd ?y, DoAdd ?x, DoNewScope, DoRemove ''x'']" ?x' ?c] m
  show ?thesis by blast
qed

section \<open>Properties of module names\<close>

lemma foldl_name_cache:
  "foldl (\<lambda>c prop. if PropName prop = ''name'' then Some (nameOfProperty f prop) else c) c0 ps
     = (case filter (\<lambda>prop. PropName prop = ''name'') ps of
          [] \<Rightarrow> c0
        | q # qs \<Rightarrow> Some (nameOfProperty f (last (q # qs))))"
  by (induction ps arbitrary: c0) (auto split: list.splits)

text \<open>
  Claim C10. On a module whose cache is still nil, \<open>Name()\<close> returns the name given by the
  last property called \<open>name\<close> (the empty string when there is none) and stores exactly
  that string in the cache, changing nothing else; a call on the module so left returns the
  same string whatever the properties have become in between.
\<close>

theorem ModuleName_last_and_cached:
  assumes "Name_internal_only m = None"
  shows "fst (ModuleName f m)
           = (case filter (\<lambda>prop. PropName prop = ''name'') (Properties m) of
                [] \<Rightarrow> []
              | q # qs \<Rightarrow> nameOfProperty f (last (q # qs)))
       \<and> snd (ModuleName f m) = m\<lparr>Name_internal_only := Some (fst (ModuleName f m))\<rparr>
       \<and> (\<forall>ps. ModuleName f ((snd (ModuleName f m))\<lparr>Properties := ps\<rparr>)
                 = (fst (ModuleName f m), (snd (ModuleName f m))\<lparr>Properties := ps\<rparr>))"
  using assms
  by (auto simp add: ModuleName_def Let_def foldl_name_cache split: list.splits)

theorem ModuleName_last_and_cached_witness:
  "Name_internal_only \<lparr>ModuleType = ''cc_library'', TypePos = zeroPos, LBracePos = zeroPos,
       RBracePos = zeroPos,
       Properties = [Property ''name'' zeroPos zeroPos (String zeroPos ''libfoo''),
                     Property ''srcs'' zeroPos zeroPos (List zeroPos zeroPos []),
                     Property ''name'' zeroPos zeroPos (String zeroPos ''libbar'')],
       Name_internal_only = None\<rparr> = None
   \<and> ModuleName \<lparr>quote_string = (\<lambda>s. s), quote_int64 = (\<lambda>i. []), show_position = (\<lambda>p. []), show_rune = (\<lambda>r. [])\<rparr>
       \<lparr>ModuleType = ''cc_library'', TypePos = zeroPos, LBracePos = zeroPos,
        RBracePos = zeroPos,
        Properties = [Property ''name'' zeroPos zeroPos (String zeroPos ''libfoo''),
                      Property ''srcs'' zeroPos zeroPos (List zeroPos zeroPos []),
                      Property ''name'' zeroPos zeroPos (String zeroPos ''libbar'')],
        Name_internal_only = None\<rparr>
     = (''libbar'',
        \<lparr>ModuleType = ''cc_library'', TypePos = zeroPos, LBracePos = zeroPos,
         RBracePos = zeroPos,
         Properties = [Property ''name'' zeroPos zeroPos (String zeroPos ''libfoo''),
                       Property ''srcs'' zeroPos zeroPos (List zeroPos zeroPos []),
                       Property ''name'' zeroPos zeroPos (String zeroPos ''libbar'')],
         Name_internal_only = Some ''libbar''\<rparr>)
   \<and> fst (ModuleName \<lparr>quote_string = (\<lambda>s. s), quote_int64 = (\<lambda>i. []), show_position = (\<lambda>p. []), show_rune = (\<lambda>r. [])\<rparr>
       \<lparr>ModuleType = ''cc_library'', TypePos = zeroPos, LBracePos = zeroPos,
        RBracePos = zeroPos,
        Properties = [Property ''name'' zeroPos zeroPos (String zeroPos ''renamed'')],
        Name_internal_only = Some ''libbar''\<rparr>) = ''libbar''"
proof -
  let ?f = "\<lparr>quote_string = (\<lambda>s. s), quote_int64 = (\<lambda>i. []), show_position = (\<lambda>p. []), show_rune = (\<lambda>r. [])\<rparr>"
  let ?m = "\<lparr>ModuleType = ''cc_library'', TypePos = zeroPos, LBracePos = zeroPos,
       RBracePos = zeroPos,
       Properties = [Property ''name'' zeroPos zeroPos (String zeroPos ''libfoo''),
                     Property ''srcs'' zeroPos zeroPos (List zeroPos zeroPos []),
                     Property ''name'' zeroPos zeroPos (String zeroPos ''libbar'')],
       Name_internal_only = None\<rparr>"
  have n: "Name_internal_only ?m = None" by simp
  note t = ModuleName_last_and_cached[OF n, of ?f]
  have a: "fst (ModuleName ?f ?m) = ''libbar''"
    using t by (simp add: nameOfProperty_def)
  have b: "snd (ModuleName ?f ?m) = ?m\<lparr>Name_internal_only := Some ''libbar''\<rparr>"
    using t a by simp
  have c: "fst (ModuleName ?f ((snd (ModuleName ?f ?m))
              \<lparr>Properties := [Property ''name'' zeroPos zeroPos (String zeroPos ''renamed'')]\<rparr>))
           = ''libbar''"
    using t[THEN conjunct2, THEN conjunct2, rule_format,
        of "[Property ''name'' zeroPos zeroPos (String zeroPos ''renamed'')]"] a
    by simp
  have "ModuleName ?f ?m = (''libbar'', ?m\<lparr>Name_internal_only := Some ''libbar''\<rparr>)"
    using a b by (simp add: prod_eq_iff)
  with c b n show ?thesis by simp
qed

section \<open>Properties of Copy\<close>

text \<open>On values, every \<open>Copy\<close> method rebuilds the node it is given, field by field:
  the copy equals the original.\<close>

lemma Copy_structurally_equal: "Copy e = e"
  by (rule Copy_id_all)

text \<open>
  Claim C2 on the code. The original is the operator node of \<open>"a" + "b"\<close> with the folded
  value \<open>"ab"\<close>, at address 3. \<open>Copy\<close> allocates copies of the two arguments and a new
  operator node, at address 6, that reads back as the same expression; its \<open>Value\<close> field
  holds address 2, the very node the original's \<open>Value\<close> field holds. Assigning to the
  string reached through the copy's \<open>Value\<close> changes what the original reads back as. The
  same holds for a variable node, whose \<open>Copy\<close> duplicates the struct and nothing else.
\<close>

theorem Copy_shares_Value:
  "CopyAt 2 [StringN zeroPos ''a'', StringN zeroPos ''b'', StringN zeroPos ''ab'',
             OperatorN 0 1 (Sym (CHR ''+'')) zeroPos 2] 3
     = Some (6, [StringN zeroPos ''a'', StringN zeroPos ''b'', StringN zeroPos ''ab'',
                 OperatorN 0 1 (Sym (CHR ''+'')) zeroPos 2,
                 StringN zeroPos ''a'', StringN zeroPos ''b'',
                 OperatorN 4 5 (Sym (CHR ''+'')) zeroPos 2])
   \<and> readExpression 2 [StringN zeroPos ''a'', StringN zeroPos ''b'', StringN zeroPos ''ab'',
                 OperatorN 0 1 (Sym (CHR ''+'')) zeroPos 2,
                 StringN zeroPos ''a'', StringN zeroPos ''b'',
                 OperatorN 4 5 (Sym (CHR ''+'')) zeroPos 2] 6
     = Some (Operator (String zeroPos ''a'') (String zeroPos ''b'') (Sym (CHR ''+'')) zeroPos
               (String zeroPos ''ab''))
   \<and> readExpression 2 [StringN zeroPos ''a'', StringN zeroPos ''b'', StringN zeroPos ''ab'',
                 OperatorN 0 1 (Sym (CHR ''+'')) zeroPos 2,
                 StringN zeroPos ''a'', StringN zeroPos ''b'',
                 OperatorN 4 5 (Sym (CHR ''+'')) zeroPos 2] 3
     = Some (Operator (String zeroPos ''a'') (String zeroPos ''b'') (Sym (CHR ''+'')) zeroPos
               (String zeroPos ''ab''))
   \<and> ValueField [StringN zeroPos ''a'', StringN zeroPos ''b'', StringN zeroPos ''ab'',
                 OperatorN 0 1 (Sym (CHR ''+'')) zeroPos 2,
                 StringN zeroPos ''a'', StringN zeroPos ''b'',
                 OperatorN 4 5 (Sym (CHR ''+'')) zeroPos 2] 6 = Some 2
   \<and> readExpression 2
         (setStringValue [StringN zeroPos ''a'', StringN zeroPos ''b'', StringN zeroPos ''ab'',
                 OperatorN 0 1 (Sym (CHR ''+'')) zeroPos 2,
                 StringN zeroPos ''a'', StringN zeroPos ''b'',
                 OperatorN 4 5 (Sym (CHR ''+'')) zeroPos 2] 2 ''changed'') 3
     = Some (Operator (String zeroPos ''a'') (String zeroPos ''b'') (Sym (CHR ''+'')) zeroPos
               (String zeroPos ''changed''))
   \<and> CopyAt 1 [StringN zeroPos ''v'', VariableN ''x'' zeroPos 0] 1
     = Some (2, [StringN zeroPos ''v'', VariableN ''x'' zeroPos 0, VariableN ''x'' zeroPos 0])
   \<and> ValueField [StringN zeroPos ''v'', VariableN ''x'' zeroPos 0, VariableN ''x'' zeroPos 0] 2
     = Some 0
   \<and> readExpression 2 [StringN zeroPos ''v'', VariableN ''x'' zeroPos 0,
         VariableN ''x'' zeroPos 0] 1
     = Some (Variable ''x'' zeroPos (String zeroPos ''v''))
   \<and> readExpression 2
         (setStringValue [StringN zeroPos ''v'', VariableN ''x'' zeroPos 0,
            VariableN ''x'' zeroPos 0] 0 ''changed'') 1
     = Some (Variable ''x'' zeroPos (String zeroPos ''changed''))"
  by (simp add: alloc_def ValueField_def setStringValue_def numeral_2_eq_2 numeral_3_eq_3
      eval_nat_numeral)

section \<open>The copy made by the operator\<close>

text \<open>
  Claim C6 on the code. In evaluation mode \<open>evaluateOperator\<close> on \<open>[x] + ["b"]\<close>, with \<open>x\<close>
  bound to the string \<open>"s"\<close> at address 0, returns the operator node at address 7. Its
  folded value, the list at address 6, holds the left value followed by the right value,
  as the claim says. It is not a deep copy of the left operand: \<open>List.Copy\<close> copies the
  element \<open>x\<close> with \<open>Variable.Copy\<close>, which duplicates the struct alone, so the variable at
  address 5 in the result has the \<open>Value\<close> field of the variable at address 1 in the left
  operand. Assigning to the string reached through the result changes what the left
  operand reads back as.
\<close>

theorem evaluateOperator_copy_shares:
  "evaluateOperatorAt 3 True listPlusStore 2 4 (Sym (CHR ''+'')) zeroPos
     = Some (Ok (7, listPlusResult))
   \<and> readExpression 4 listPlusResult 7
     = Some (Operator (List zeroPos zeroPos [Variable ''x'' zeroPos (String zeroPos ''s'')])
               (List zeroPos zeroPos [String zeroPos ''b'']) (Sym (CHR ''+'')) zeroPos
               (List zeroPos zeroPos
                  [Variable ''x'' zeroPos (String zeroPos ''s''), String zeroPos ''b'']))
   \<and> ValueField listPlusResult 7 = Some 6
   \<and> listPlusResult ! 6 = ListN zeroPos zeroPos [5, 3]
   \<and> listPlusResult ! 2 = ListN zeroPos zeroPos [1]
   \<and> ValueField listPlusResult 5 = Some 0
   \<and> ValueField listPlusResult 1 = Some 0
   \<and> readExpression 3 listPlusResult 2
     = Some (List zeroPos zeroPos [Variable ''x'' zeroPos (String zeroPos ''s'')])
   \<and> readExpression 3 (setStringValue listPlusResult 0 ''changed'') 2
     = Some (List zeroPos zeroPos [Variable ''x'' zeroPos (String zeroPos ''changed'')])"
  by (simp add: listPlusStore_def listPlusResult_def plusInto_def isSelectAt_def alloc_def
      ValueField_def setStringValue_def numeral_2_eq_2 numeral_3_eq_3 eval_nat_numeral)

section \<open>Properties of the parser\<close>

text \<open>
  Claim C3 on the code. \<open>ParseExpression\<close> does not go through \<open>parse\<close> and defers no
  \<open>recover\<close>. On the empty input, and on \<open>1 - 2\<close>, the first error makes \<open>parser.error\<close>
  panic with \<open>errTooManyErrors\<close>, and the panic is what the caller of \<open>ParseExpression\<close>
  gets. \<open>Parse\<close>, on a file that stops after \<open>x =\<close>, meets the same error in the same
  method and returns normally, with a nil file and the error in the list.
\<close>

theorem ParseExpression_panic_escapes:
  "ParseExpression 9 [] zeroPos = Abort ErrTooManyErrors
   \<and> ParseExpression 9 [mkToken IntTok ''1'' 1 1, mkToken (Sym (CHR ''-'')) ''-'' 1 3,
                          mkToken IntTok ''2'' 1 5] zeroPos
       = Abort ErrTooManyErrors
   \<and> fst (Parse 9 ''Blueprints'' [mkToken Ident ''x'' 1 1, mkToken (Sym (CHR ''='')) ''='' 1 3]
              \<lparr>Filename = [], Offset = 3, Line = 1, Column = 4\<rparr> None)
       = Done (None, [\<lparr>ErrOf = ExpectedValue EOF,
                        PosOf = \<lparr>Filename = ''Blueprints'', Offset = 3, Line = 1, Column = 4\<rparr>\<rparr>])"
  by (simp add: parser_eval)

subsection \<open>Property lists\<close>

lemma pbind_assoc: "pbind (pbind m f) g = pbind m (\<lambda>x. pbind (f x) g)"
  by (rule ext) (simp add: pbind_def split: prod.splits run.splits)

lemma pbind_preturn: "pbind (preturn x) f = f x"
  by (rule ext) (simp add: pbind_def preturn_def)

lemma parsePropertyListFrom_emitted:
  "parsePropertyListFrom n isModule compat' (emitted acc)
     = pbind (propertiesInSourceOrder n isModule compat' acc) (\<lambda>ps. preturn (emitted ps))"
proof (induction n arbitrary: acc)
  case 0
  show ?case by (rule ext) (simp add: parsePropertyListFrom.simps pbind_def)
next
  case (Suc n)
  have step: "(if TypeOf (PropValue property) \<noteq> UnsetType
               then emitted acc @ [property] else emitted acc) = emitted (acc @ [property])"
    for property
    by (simp add: emitted_def)
  show ?case
  proof (rule ext)
    fix p
    show "parsePropertyListFrom (Suc n) isModule compat' (emitted acc) p
        = pbind (propertiesInSourceOrder (Suc n) isModule compat' acc) (\<lambda>ps. preturn (emitted ps)) p"
    proof (cases "tok p = Ident")
      case False
      then show ?thesis
        by (simp add: parsePropertyListFrom.simps pbind_def preturn_def)
    next
      case True
      obtain r p1 where pp: "parseProperty n isModule compat' p = (r, p1)"
        by (cases "parseProperty n isModule compat' p")
      obtain r2 p2 where ac: "accept [Sym (CHR '','')] p1 = (r2, p2)"
        by (cases "accept [Sym (CHR '','')] p1")
      show ?thesis
      proof (cases r)
        case (Done property)
        show ?thesis
        proof (cases "tok p1 = Sym (CHR '','')")
          case comma: True
          have ih: "parsePropertyListFrom n isModule compat' (emitted (acc @ [property])) p2
              = pbind (propertiesInSourceOrder n isModule compat' (acc @ [property]))
                  (\<lambda>ps. preturn (emitted ps)) p2"
            using Suc.IH[of "acc @ [property]"] by simp
          show ?thesis
            using True pp Done comma ac ih
            by (cases r2)
              (simp_all add: parsePropertyListFrom.simps Let_def step pbind_def preturn_def)
        next
          case False
          with True pp Done show ?thesis
            by (simp add: parsePropertyListFrom.simps Let_def step pbind_def preturn_def)
        qed
      qed (use True pp in \<open>simp_all add: parsePropertyListFrom.simps pbind_def\<close>)
    qed
  qed
qed

text \<open>
  Claim C9. Whatever the tokens and the parser state, \<open>parsePropertyList\<close> ends as the
  loop that keeps every property does, in the same state, and when it returns it returns
  the properties of that loop whose value is not of type unset, in the same order.
\<close>

theorem parsePropertyList_drops_unset:
  "parsePropertyList n isModule compat' p
     = (case propertiesInSourceOrder n isModule compat' [] p of
          (Done ps, p') \<Rightarrow> (Done (filter (\<lambda>property. TypeOf (PropValue property) \<noteq> UnsetType) ps), p')
        | (Abort x, p') \<Rightarrow> (Abort x, p')
        | (Continues, p') \<Rightarrow> (Continues, p')
        | (OutOfFuel, p') \<Rightarrow> (OutOfFuel, p'))"
  using parsePropertyListFrom_emitted[of n isModule compat' "[]"]
  by (simp add: parsePropertyList_def emitted_def pbind_def preturn_def split: prod.splits run.splits)

text \<open>An example: in evaluation mode, with \<open>x\<close> bound to an unset value, the map body
  \<open>a: x, b: "s"\<close> has two properties in source order and emits the second only.\<close>

theorem parsePropertyList_drops_unset_witness:
  "fst (propertiesInSourceOrder 9 False False []
          (startOn [mkToken Ident ''a'' 1 1, mkToken (Sym (CHR '':'')) '':'' 1 2,
                    mkToken Ident ''x'' 1 4, mkToken (Sym (CHR '','')) '','' 1 5,
                    mkToken Ident ''b'' 1 7, mkToken (Sym (CHR '':'')) '':'' 1 8,
                    mkToken StringTok ''\"s\"'' 1 10] (Some unsetScope) True))
     = Done [Property ''a'' \<lparr>Filename = [], Offset = 0, Line = 1, Column = 1\<rparr>
               \<lparr>Filename = [], Offset = 0, Line = 1, Column = 2\<rparr>
               (Variable ''x'' \<lparr>Filename = [], Offset = 0, Line = 1, Column = 4\<rparr>
                  (UnsetProperty zeroPos)),
             Property ''b'' \<lparr>Filename = [], Offset = 0, Line = 1, Column = 7\<rparr>
               \<lparr>Filename = [], Offset = 0, Line = 1, Column = 8\<rparr>
               (String \<lparr>Filename = [], Offset = 0, Line = 1, Column = 10\<rparr> ''s'')]
   \<and> fst (parsePropertyList 9 False False
          (startOn [mkToken Ident ''a'' 1 1, mkToken (Sym (CHR '':'')) '':'' 1 2,
                    mkToken Ident ''x'' 1 4, mkToken (Sym (CHR '','')) '','' 1 5,
                    mkToken Ident ''b'' 1 7, mkToken (Sym (CHR '':'')) '':'' 1 8,
                    mkToken StringTok ''\"s\"'' 1 10] (Some unsetScope) True))
     = Done [Property ''b'' \<lparr>Filename = [], Offset = 0, Line = 1, Column = 7\<rparr>
               \<lparr>Filename = [], Offset = 0, Line = 1, Column = 8\<rparr>
               (String \<lparr>Filename = [], Offset = 0, Line = 1, Column = 10\<rparr> ''s'')]"
proof -
  let ?p = "startOn [mkToken Ident ''a'' 1 1, mkToken (Sym (CHR '':'')) '':'' 1 2,
                    mkToken Ident ''x'' 1 4, mkToken (Sym (CHR '','')) '','' 1 5,
                    mkToken Ident ''b'' 1 7, mkToken (Sym (CHR '':'')) '':'' 1 8,
                    mkToken StringTok ''\"s\"'' 1 10] (Some unsetScope) True"
  let ?all = "[Property ''a'' \<lparr>Filename = [], Offset = 0, Line = 1, Column = 1\<rparr>
               \<lparr>Filename = [], Offset = 0, Line = 1, Column = 2\<rparr>
               (Variable ''x'' \<lparr>Filename = [], Offset = 0, Line = 1, Column = 4\<rparr>
                  (UnsetProperty zeroPos)),
             Property ''b'' \<lparr>Filename = [], Offset = 0, Line = 1, Column = 7\<rparr>
               \<lparr>Filename = [], Offset = 0, Line = 1, Column = 8\<rparr>
               (String \<lparr>Filename = [], Offset = 0, Line = 1, Column = 10\<rparr> ''s'')]"
  have a: "fst (propertiesInSourceOrder 9 False False [] ?p) = Done ?all"
    by (simp add: startOn_def unsetScope_def propertiesInSourceOrder_numeral parser_eval)
  then obtain p' where b: "propertiesInSourceOrder 9 False False [] ?p = (Done ?all, p')"
    by (cases "propertiesInSourceOrder 9 False False [] ?p") simp
  have "fst (parsePropertyList 9 False False ?p)
      = Done (filter (\<lambda>property. TypeOf (PropValue property) \<noteq> UnsetType) ?all)"
    using parsePropertyList_drops_unset[of 9 False False ?p] b by simp
  with a show ?thesis by simp
qed

subsection \<open>Appending to a variable\<close>

lemma p_error_failsWith: "failsWith p (p_error err p) err"
  by (simp add: failsWith_def p_error_def maxErrors_def Let_def)

lemma Get_tables:
  "Get sc name =
     (case vars sc name of
        Some a \<Rightarrow> (Some a, True)
      | None \<Rightarrow> (case inheritedVars sc name of Some a \<Rightarrow> (Some a, False) | None \<Rightarrow> (None, False)))"
  by (simp add: Get_def)

lemma parseAssignment_after_expression:
  assumes "name \<noteq> ''default'' \<and> name \<noteq> ''unset''"
      and "accept [Sym (CHR ''='')] p = (Done (), p0)"
      and "parseExpression n p0 = (Done v, p1)"
      and "scope p1 = Some sc"
  shows "parseAssignment n name namePos ''+='' p =
     (case Get sc name of
        (None, local) \<Rightarrow> p_error (ModifiedNonExistent name) p1
      | (Some old, local) \<Rightarrow>
          if \<not> local then p_error (ModifiedNonLocal name) p1
          else if Referenced old then p_error (ModifiedAfterReferencing name) p1
          else
            (case evaluateOperator (eval p1) (Value old) v (Sym (CHR ''+'')) (tpos (cur p)) of
               Err err \<Rightarrow> p_error err p1
             | Panic x \<Rightarrow> (Abort x, p1)
             | Ok val \<Rightarrow>
                 (Done \<lparr>Name = name, NamePos = namePos, Value = v, OrigValue = v,
                        EqualsPos = tpos (cur p), Assigner = ''+='', Referenced = False\<rparr>,
                  p1\<lparr>scope := Some (sc\<lparr>vars := (vars sc)(name \<mapsto> old\<lparr>Value := val\<rparr>)\<rparr>)\<rparr>)))"
  using assms
  by (simp add: parseAssignment_def pbind_def Let_def pabort_def preturn_def
      split: prod.splits option.splits result.splits)

text \<open>
  Claim C7. The parser is at the \<open>=\<close> of \<open>name += expr\<close>, the name is not a reserved word,
  the expression parses to \<open>v\<close> and leaves a scope \<open>sc\<close>. If the name is in neither table, or
  only in the inherited one, or its local binding is already referenced, \<open>parseAssignment\<close>
  reports the matching error (and aborts, the scope untouched). Otherwise it applies
  \<open>evaluateOperator\<close> to the binding's value and \<open>v\<close>: a result \<open>val\<close> replaces the \<open>Value\<close> of
  the binding in the local table and nothing else in the scope, so its \<open>OrigValue\<close> is as
  before; an error of \<open>evaluateOperator\<close> is reported like the others.
\<close>

theorem parseAssignment_plus_equals:
  assumes "name \<noteq> ''default'' \<and> name \<noteq> ''unset''"
      and "accept [Sym (CHR ''='')] p = (Done (), p0)"
      and "parseExpression n p0 = (Done v, p1)"
      and "scope p1 = Some sc"
      and "r = parseAssignment n name namePos ''+='' p"
  shows "(vars sc name = None \<and> inheritedVars sc name = None
            \<longrightarrow> failsWith p1 r (ModifiedNonExistent name))
       \<and> (vars sc name = None \<and> inheritedVars sc name \<noteq> None
            \<longrightarrow> failsWith p1 r (ModifiedNonLocal name))
       \<and> (\<forall>old. vars sc name = Some old \<and> Referenced old
            \<longrightarrow> failsWith p1 r (ModifiedAfterReferencing name))
       \<and> (\<forall>old. vars sc name = Some old \<and> \<not> Referenced old \<longrightarrow>
            (case evaluateOperator (eval p1) (Value old) v (Sym (CHR ''+'')) (tpos (cur p)) of
               Ok val \<Rightarrow>
                 fst r = Done \<lparr>Name = name, NamePos = namePos, Value = v, OrigValue = v,
                              EqualsPos = tpos (cur p), Assigner = ''+='', Referenced = False\<rparr>
                 \<and> scope (snd r) = Some (sc\<lparr>vars := (vars sc)(name \<mapsto> old\<lparr>Value := val\<rparr>)\<rparr>)
                 \<and> map_option Value (vars (the (scope (snd r))) name) = Some val
                 \<and> map_option OrigValue (vars (the (scope (snd r))) name) = Some (OrigValue old)
                 \<and> errors (snd r) = errors p1
             | Err err \<Rightarrow> failsWith p1 r err
             | Panic x \<Rightarrow> fst r = Abort x \<and> scope (snd r) = Some sc))"
proof -
  note eq = parseAssignment_after_expression[OF assms(1-4), of namePos, folded assms(5)]
  show ?thesis
  proof (intro conjI impI allI)
    assume "vars sc name = None \<and> inheritedVars sc name = None"
    then show "failsWith p1 r (ModifiedNonExistent name)"
      using eq by (simp add: Get_tables p_error_failsWith)
  next
    assume "vars sc name = None \<and> inheritedVars sc name \<noteq> None"
    then show "failsWith p1 r (ModifiedNonLocal name)"
      using eq by (auto simp add: Get_tables p_error_failsWith)
  next
    fix old assume "vars sc name = Some old \<and> Referenced old"
    then show "failsWith p1 r (ModifiedAfterReferencing name)"
      using eq by (simp add: Get_tables p_error_failsWith)
  next
    fix old assume "vars sc name = Some old \<and> \<not> Referenced old"
    then show "case evaluateOperator (eval p1) (Value old) v (Sym (CHR ''+'')) (tpos (cur p)) of
               Ok val \<Rightarrow>
                 fst r = Done \<lparr>Name = name, NamePos = namePos, Value = v, OrigValue = v,
                              EqualsPos = tpos (cur p), Assigner = ''+='', Referenced = False\<rparr>
                 \<and> scope (snd r) = Some (sc\<lparr>vars := (vars sc)(name \<mapsto> old\<lparr>Value := val\<rparr>)\<rparr>)
                 \<and> map_option Value (vars (the (scope (snd r))) name) = Some val
                 \<and> map_option OrigValue (vars (the (scope (snd r))) name) = Some (OrigValue old)
                 \<and> errors (snd r) = errors p1
             | Err err \<Rightarrow> failsWith p1 r err
             | Panic x \<Rightarrow> fst r = Abort x \<and> scope (snd r) = Some sc"
      using eq assms(4)
      by (simp add: Get_tables p_error_failsWith split: result.splits)
  qed
qed

text \<open>An example: with \<open>x\<close> bound locally to \<open>["a"]\<close> and not yet referenced, the parser
  at the \<open>=\<close> of \<open>x += ["b"]\<close>, in evaluation mode.\<close>

theorem parseAssignment_plus_equals_witness:
  "fst (parseAssignment 9 ''x'' zeroPos ''+=''
          (startOn [mkToken (Sym (CHR ''='')) ''='' 1 4, mkToken (Sym (CHR ''['')) ''['' 1 6,
                    mkToken StringTok ''\"b\"'' 1 7, mkToken (Sym (CHR '']'')) '']'' 1 10]
             (Some listScope) True))
     = Done \<lparr>Name = ''x'', NamePos = zeroPos,
             Value = List \<lparr>Filename = [], Offset = 0, Line = 1, Column = 6\<rparr>
                       \<lparr>Filename = [], Offset = 0, Line = 1, Column = 10\<rparr>
                       [String \<lparr>Filename = [], Offset = 0, Line = 1, Column = 7\<rparr> ''b''],
             OrigValue = List \<lparr>Filename = [], Offset = 0, Line = 1, Column = 6\<rparr>
                       \<lparr>Filename = [], Offset = 0, Line = 1, Column = 10\<rparr>
                       [String \<lparr>Filename = [], Offset = 0, Line = 1, Column = 7\<rparr> ''b''],
             EqualsPos = \<lparr>Filename = [], Offset = 0, Line = 1, Column = 4\<rparr>,
             Assigner = ''+='', Referenced = False\<rparr>
   \<and> map_option Value (vars (the (scope (snd (parseAssignment 9 ''x'' zeroPos ''+=''
          (startOn [mkToken (Sym (CHR ''='')) ''='' 1 4, mkToken (Sym (CHR ''['')) ''['' 1 6,
                    mkToken StringTok ''\"b\"'' 1 7, mkToken (Sym (CHR '']'')) '']'' 1 10]
             (Some listScope) True))))) ''x'')
     = Some (Operator (List zeroPos zeroPos [String zeroPos ''a''])
               (List \<lparr>Filename = [], Offset = 0, Line = 1, Column = 6\<rparr>
                  \<lparr>Filename = [], Offset = 0, Line = 1, Column = 10\<rparr>
                  [String \<lparr>Filename = [], Offset = 0, Line = 1, Column = 7\<rparr> ''b''])
               (Sym (CHR ''+'')) \<lparr>Filename = [], Offset = 0, Line = 1, Column = 4\<rparr>
               (List zeroPos zeroPos
                  [String zeroPos ''a'',
                   String \<lparr>Filename = [], Offset = 0, Line = 1, Column = 7\<rparr> ''b'']))
   \<and> map_option OrigValue (vars (the (scope (snd (parseAssignment 9 ''x'' zeroPos ''+=''
          (startOn [mkToken (Sym (CHR ''='')) ''='' 1 4, mkToken (Sym (CHR ''['')) ''['' 1 6,
                    mkToken StringTok ''\"b\"'' 1 7, mkToken (Sym (CHR '']'')) '']'' 1 10]
             (Some listScope) True))))) ''x'')
     = Some (List zeroPos zeroPos [String zeroPos ''a''])
   \<and> failsWith
        (snd (parseExpression 9 (snd (accept [Sym (CHR ''='')]
          (startOn [mkToken (Sym (CHR ''='')) ''='' 1 4, mkToken (Sym (CHR ''['')) ''['' 1 6,
                    mkToken StringTok ''\"b\"'' 1 7, mkToken (Sym (CHR '']'')) '']'' 1 10]
             (Some listScope) True)))))
        (parseAssignment 9 ''y'' zeroPos ''+=''
          (startOn [mkToken (Sym (CHR ''='')) ''='' 1 4, mkToken (Sym (CHR ''['')) ''['' 1 6,
                    mkToken StringTok ''\"b\"'' 1 7, mkToken (Sym (CHR '']'')) '']'' 1 10]
             (Some listScope) True))
        (ModifiedNonExistent ''y'')"
proof -
  let ?P = "startOn [mkToken (Sym (CHR ''='')) ''='' 1 4, mkToken (Sym (CHR ''['')) ''['' 1 6,
                    mkToken StringTok ''\"b\"'' 1 7, mkToken (Sym (CHR '']'')) '']'' 1 10]
             (Some listScope) True"
  let ?Q = "snd (accept [Sym (CHR ''='')] ?P)"
  let ?R = "snd (parseExpression 9 ?Q)"
  let ?v = "List \<lparr>Filename = [], Offset = 0, Line = 1, Column = 6\<rparr>
                       \<lparr>Filename = [], Offset = 0, Line = 1, Column = 10\<rparr>
                       [String \<lparr>Filename = [], Offset = 0, Line = 1, Column = 7\<rparr> ''b'']"
  let ?old = "\<lparr>Name = ''x'', NamePos = zeroPos,
                          Value = List zeroPos zeroPos [String zeroPos ''a''],
                          OrigValue = List zeroPos zeroPos [String zeroPos ''a''],
                          EqualsPos = zeroPos, Assigner = ''='', Referenced = False\<rparr>"
  have k: "''x'' \<noteq> ''default'' \<and> ''x'' \<noteq> ''unset''" "''y'' \<noteq> ''default'' \<and> ''y'' \<noteq> ''unset''"
    by simp_all
  have "fst (accept [Sym (CHR ''='')] ?P) = Done ()"
    by (simp add: startOn_def parser_eval)
  then have a: "accept [Sym (CHR ''='')] ?P = (Done (), ?Q)"
    by (simp add: prod_eq_iff)
  have "fst (parseExpression 9 ?Q) = Done ?v"
    by (simp add: startOn_def parser_eval)
  then have e: "parseExpression 9 ?Q = (Done ?v, ?R)"
    by (simp add: prod_eq_iff)
  have s: "scope ?R = Some listScope"
    by (simp add: startOn_def parser_eval)
  have ev: "eval ?R" and cp: "tpos (cur ?P) = \<lparr>Filename = [], Offset = 0, Line = 1, Column = 4\<rparr>"
    by (simp_all add: startOn_def parser_eval)
  have vx: "vars listScope ''x'' = Some ?old \<and> \<not> Referenced ?old"
    and vy: "vars listScope ''y'' = None \<and> inheritedVars listScope ''y'' = None"
    by (simp_all add: listScope_def)
  have op: "evaluateOperator True (Value ?old) ?v (Sym (CHR ''+''))
              \<lparr>Filename = [], Offset = 0, Line = 1, Column = 4\<rparr>
            = Ok (Operator (List zeroPos zeroPos [String zeroPos ''a'']) ?v (Sym (CHR ''+''))
                   \<lparr>Filename = [], Offset = 0, Line = 1, Column = 4\<rparr>
                   (List zeroPos zeroPos
                      [String zeroPos ''a'',
                       String \<lparr>Filename = [], Offset = 0, Line = 1, Column = 7\<rparr> ''b'']))"
    by (simp add: evaluateOperator.simps)
  note tx = parseAssignment_plus_equals[OF k(1) a e s refl, of zeroPos,
      THEN conjunct2, THEN conjunct2, THEN conjunct2, rule_format, OF vx]
  note ty = parseAssignment_plus_equals[OF k(2) a e s refl, of zeroPos,
      THEN conjunct1, rule_format, OF vy]
  from tx ty show ?thesis
    unfolding cp using ev op by simp
qed

subsection \<open>Select\<close>

lemma pbind_Done:
  assumes "pbind m f p = (Done y, p'')"
  obtains x p' where "m p = (Done x, p')" and "f x p' = (Done y, p'')"
  using assms by (auto simp add: pbind_def split: prod.splits run.splits)

lemma p_error_not_Done: "p_error err p \<noteq> (Done x, p')"
proof
  assume "p_error err p = (Done x, p')"
  then have "fst (p_error err p) = Done x" by simp
  moreover have "fst (p_error err p) = (Abort ErrTooManyErrors :: 'a run)"
    by (rule p_error_aborts)
  ultimately show False by simp
qed

lemma pabort_not_Done: "pabort x p \<noteq> (Done y, p')"
  by (simp add: pabort_def)

lemma preturn_Done: "preturn x p = (Done y, p') \<longleftrightarrow> y = x \<and> p' = p"
  by (auto simp add: preturn_def)

text \<open>The checks after the loop.\<close>

lemma checkCases_None:
  assumes "checkCases cases i lastIndex = None"
  shows "(\<forall>a b. a < b \<and> b < length cases \<longrightarrow>
            \<not> patternListsEqual (Patterns (cases ! a)) (Patterns (cases ! b)))
       \<and> (\<forall>a. a < length cases \<and> i + a < lastIndex \<longrightarrow> \<not> isAllDefault (Patterns (cases ! a)))"
  using assms
proof (induction cases arbitrary: i)
  case Nil
  then show ?case by simp
next
  case (Cons c rest)
  from Cons.prems have nodup: "\<not> list_ex (\<lambda>d. patternListsEqual (Patterns c) (Patterns d)) rest"
    and nodef: "\<not> (i < lastIndex \<and> isAllDefault (Patterns c))"
    and rest: "checkCases rest (Suc i) lastIndex = None"
    by (auto split: if_splits)
  note ih = Cons.IH[OF rest]
  show ?case
  proof (intro conjI allI impI)
    fix a b assume ab: "a < b \<and> b < length (c # rest)"
    show "\<not> patternListsEqual (Patterns ((c # rest) ! a)) (Patterns ((c # rest) ! b))"
    proof (cases a)
      case 0
      with ab obtain b' where b': "b = Suc b'" "b' < length rest" by (cases b) auto
      then have "rest ! b' \<in> set rest" by simp
      with nodup have "\<not> patternListsEqual (Patterns c) (Patterns (rest ! b'))"
        by (auto simp add: list_ex_iff)
      with 0 b' show ?thesis by simp
    next
      case (Suc a')
      with ab obtain b' where b': "b = Suc b'" "a' < b'" "b' < length rest" by (cases b) auto
      with ih Suc show ?thesis by simp
    qed
  next
    fix a assume a: "a < length (c # rest) \<and> i + a < lastIndex"
    show "\<not> isAllDefault (Patterns ((c # rest) ! a))"
    proof (cases a)
      case 0
      with a nodef show ?thesis by simp
    next
      case (Suc a')
      with a ih show ?thesis by simp
    qed
  qed
qed

lemma unifyTypes_Inr:
  assumes "unifyTypes cases ty0 = Inr ty"
  shows "(\<forall>c \<in> set cases. TypeOf (CaseValue c) \<noteq> UnsetType \<longrightarrow> TypeOf (CaseValue c) = ty)
       \<and> (ty0 \<noteq> UnsetType \<longrightarrow> ty = ty0)
       \<and> (ty = UnsetType \<longrightarrow> ty0 = UnsetType \<and> (\<forall>c \<in> set cases. TypeOf (CaseValue c) = UnsetType))"
  using assms
proof (induction cases arbitrary: ty0)
  case Nil
  then show ?case by simp
next
  case (Cons c cs)
  define o1 where "o1 = TypeOf (CaseValue c)"
  define t1 where "t1 = (if ty0 = UnsetType then o1 else ty0)"
  have step: "unifyTypes (c # cs) ty0
      = (if o1 \<noteq> UnsetType \<and> o1 \<noteq> t1 then Inl (DifferingTypes t1 o1) else unifyTypes cs t1)"
    by (simp add: o1_def t1_def Let_def)
  from Cons.prems step have ok: "\<not> (o1 \<noteq> UnsetType \<and> o1 \<noteq> t1)"
    by (cases "o1 \<noteq> UnsetType \<and> o1 \<noteq> t1") simp_all
  with Cons.prems step have rest: "unifyTypes cs t1 = Inr ty" by simp
  note ih = Cons.IH[OF rest]
  have t1: "t1 \<noteq> UnsetType \<longrightarrow> ty = t1" using ih by blast
  have a: "\<forall>x \<in> set (c # cs). TypeOf (CaseValue x) \<noteq> UnsetType \<longrightarrow> TypeOf (CaseValue x) = ty"
  proof
    fix x assume "x \<in> set (c # cs)"
    then consider "x = c" | "x \<in> set cs" by auto
    then show "TypeOf (CaseValue x) \<noteq> UnsetType \<longrightarrow> TypeOf (CaseValue x) = ty"
    proof cases
      case 1
      show ?thesis
      proof
        assume n: "TypeOf (CaseValue x) \<noteq> UnsetType"
        with 1 have "o1 \<noteq> UnsetType" by (simp add: o1_def)
        with ok have "o1 = t1" by simp
        with t1 \<open>o1 \<noteq> UnsetType\<close> have "ty = o1" by simp
        with 1 show "TypeOf (CaseValue x) = ty" by (simp add: o1_def)
      qed
    next
      case 2
      with ih show ?thesis by blast
    qed
  qed
  have b: "ty0 \<noteq> UnsetType \<longrightarrow> ty = ty0"
  proof
    assume "ty0 \<noteq> UnsetType"
    then have "t1 = ty0" by (simp add: t1_def)
    with t1 \<open>ty0 \<noteq> UnsetType\<close> show "ty = ty0" by simp
  qed
  have c: "ty = UnsetType \<longrightarrow> ty0 = UnsetType \<and> (\<forall>x \<in> set (c # cs). TypeOf (CaseValue x) = UnsetType)"
  proof
    assume u: "ty = UnsetType"
    with ih have t1u: "t1 = UnsetType" and all: "\<forall>x \<in> set cs. TypeOf (CaseValue x) = UnsetType"
      by blast+
    from t1u have "ty0 = UnsetType" and "o1 = UnsetType"
      by (simp_all add: t1_def split: if_splits)
    with all show "ty0 = UnsetType \<and> (\<forall>x \<in> set (c # cs). TypeOf (CaseValue x) = UnsetType)"
      by (simp add: o1_def)
  qed
  from a b c show ?case by blast
qed

lemma patternsEqual_stripPos:
  assumes "stripPos a = stripPos b"
  shows "patternsEqual a b"
  using assms by (cases a; cases b) (simp_all add: patternsEqual_def)

lemma patternListsEqual_stripPos:
  assumes "map stripPos a = map stripPos b"
  shows "patternListsEqual a b"
proof -
  from assms have len: "length a = length b" by (rule map_eq_imp_length_eq)
  have "list_all2 patternsEqual a b"
  proof (rule list_all2_all_nthI[OF len])
    fix n assume "n < length a"
    with assms len have "stripPos (a ! n) = stripPos (b ! n)"
      by (metis nth_map)
    then show "patternsEqual (a ! n) (b ! n)" by (rule patternsEqual_stripPos)
  qed
  with len show ?thesis by (simp add: patternListsEqual_def)
qed

lemma finishSelect_Done:
  assumes "finishSelect kw conds lb cases h p = (Done e, p')"
  shows "h \<and> checkCases cases 0 (length cases - 1) = None
       \<and> (\<exists>ty rb. unifyTypes cases UnsetType = Inr ty \<and> e = Select kw conds lb rb cases None ty)"
proof -
  from assms have h: h
    by (auto simp add: finishSelect_def p_error_not_Done split: if_splits)
  from assms h have c: "checkCases cases 0 (length cases - 1) = None"
    by (auto simp add: finishSelect_def p_error_not_Done split: option.splits)
  from assms h c obtain ty where u: "unifyTypes cases UnsetType = Inr ty"
    by (cases "unifyTypes cases UnsetType") (auto simp add: finishSelect_def p_error_not_Done)
  from assms h c u have "\<exists>rb. e = Select kw conds lb rb cases None ty"
    by (auto simp add: finishSelect_def Let_def preturn_Done elim!: pbind_Done)
  with h c u show ?thesis by blast
qed

text \<open>No method of the expression grammar returns the node of the keyword \<open>unset\<close>.\<close>

lemma parseBoolean_shape: "parseBoolean p = (Done e, p') \<Longrightarrow> \<not> isUnsetProperty e"
  by (auto simp add: parseBoolean_def Let_def p_error_not_Done preturn_Done
      elim!: pbind_Done split: if_splits)

lemma parseVariable_shape: "parseVariable p = (Done e, p') \<Longrightarrow> \<not> isUnsetProperty e"
  by (auto simp add: parseVariable_def Let_def preturn_Done elim!: pbind_Done)

lemma parseIntValue_shape: "parseIntValue p = (Done e, p') \<Longrightarrow> \<not> isUnsetProperty e"
  by (auto simp add: parseIntValue_def Let_def p_error_not_Done preturn_Done
      elim!: pbind_Done split: option.splits)

lemma parseSelect_shape: "parseSelect n p = (Done e, p') \<Longrightarrow> \<not> isUnsetProperty e"
proof (cases n)
  case 0
  then show "parseSelect n p = (Done e, p') \<Longrightarrow> \<not> isUnsetProperty e"
    by (simp add: parseSelect.simps)
next
  case (Suc m)
  assume "parseSelect n p = (Done e, p')"
  with Suc obtain kw conds lb cases h q where "finishSelect kw conds lb cases h q = (Done e, p')"
    by (auto simp add: parseSelect.simps Let_def p_error_not_Done
        elim!: pbind_Done split: if_splits)
  from finishSelect_Done[OF this] show "\<not> isUnsetProperty e" by auto
qed

lemma parseListValue_shape: "parseListValue n p = (Done e, p') \<Longrightarrow> \<not> isUnsetProperty e"
  by (cases n) (auto simp add: parseListValue.simps Let_def preturn_Done elim!: pbind_Done)

lemma parseMapValue_shape: "parseMapValue n p = (Done e, p') \<Longrightarrow> \<not> isUnsetProperty e"
  by (cases n) (auto simp add: parseMapValue.simps Let_def preturn_Done elim!: pbind_Done)

lemma parseValue_shape: "parseValue n p = (Done e, p') \<Longrightarrow> \<not> isUnsetProperty e"
  by (cases n)
    (auto simp add: parseValue.simps p_error_not_Done preturn_Done
      dest: parseBoolean_shape parseVariable_shape parseIntValue_shape parseSelect_shape
        parseListValue_shape parseMapValue_shape
      elim!: pbind_Done split: if_splits)

lemma evaluateOperator_shape:
  assumes "evaluateOperator ev value1 value2 opr pos = Ok v"
      and "\<not> isUnsetProperty value1" and "\<not> isUnsetProperty value2"
  shows "\<not> isUnsetProperty v"
proof (cases "TypeOf value1 = UnsetType \<or> TypeOf value2 = UnsetType")
  case True
  with assms show ?thesis by (auto simp add: evaluateOperator.simps split: if_splits)
next
  case False
  show ?thesis
  proof (cases ev)
    case False
    with \<open>\<not> (TypeOf value1 = UnsetType \<or> TypeOf value2 = UnsetType)\<close> assms(1)
    show ?thesis by (auto simp add: evaluateOperator.simps)
  next
    case True
    have "\<exists>x. v = Operator value1 value2 opr pos x"
      using assms(1) True \<open>\<not> (TypeOf value1 = UnsetType \<or> TypeOf value2 = UnsetType)\<close>
      by (auto simp add: evaluateOperator.simps Let_def
          split: if_splits Expression.splits result.splits)
    then show ?thesis by auto
  qed
qed

lemma parseExpression_shape:
  "(\<forall>p e p'. parseExpression n p = (Done e, p') \<longrightarrow> \<not> isUnsetProperty e)
 \<and> (\<forall>p v e p'. \<not> isUnsetProperty v \<longrightarrow> parseOperator n v p = (Done e, p') \<longrightarrow> \<not> isUnsetProperty e)"
proof (induction n)
  case 0
  show ?case by (simp add: parseExpression.simps parseOperator.simps)
next
  case (Suc n)
  have a: "\<not> isUnsetProperty e" if r: "parseExpression (Suc n) p = (Done e, p')" for p e p'
  proof -
    from r obtain v q where pv: "parseValue n p = (Done v, q)"
      and k: "(if tok q = Sym (CHR ''+'') then parseOperator n v q
               else if tok q = Sym (CHR ''-'') then p_error (SubtractionNotSupported (tpos (cur q))) q
               else preturn v q) = (Done e, p')"
      unfolding parseExpression.simps by (rule pbind_Done)
    from parseValue_shape[OF pv] have v: "\<not> isUnsetProperty v" .
    show ?thesis
    proof (cases "tok q = Sym (CHR ''+'')")
      case True
      with k have "parseOperator n v q = (Done e, p')" by simp
      with Suc v show ?thesis by blast
    next
      case False
      with k v show ?thesis
        by (auto simp add: p_error_not_Done preturn_Done split: if_splits)
    qed
  qed
  have b: "\<not> isUnsetProperty e"
    if v: "\<not> isUnsetProperty v" and r: "parseOperator (Suc n) v p = (Done e, p')" for p v e p'
  proof -
    from r obtain q where
      k1: "pbind (parseExpression n)
             (\<lambda>value2 p'. case evaluateOperator (eval p') v value2 (tok p) (tpos (cur p)) of
                            Ok x \<Rightarrow> preturn x p'
                          | Err err \<Rightarrow> p_error err p'
                          | Panic x \<Rightarrow> pabort x p') q = (Done e, p')"
      unfolding parseOperator.simps Let_def by (rule pbind_Done)
    then obtain v2 q2 where pe: "parseExpression n q = (Done v2, q2)"
      and k2: "(case evaluateOperator (eval q2) v v2 (tok p) (tpos (cur p)) of
                  Ok x \<Rightarrow> preturn x q2
                | Err err \<Rightarrow> p_error err q2
                | Panic x \<Rightarrow> pabort x q2) = (Done e, p')"
      by (rule pbind_Done)
    from pe Suc have v2: "\<not> isUnsetProperty v2" by blast
    from k2 have "evaluateOperator (eval q2) v v2 (tok p) (tpos (cur p)) = Ok e"
      by (cases "evaluateOperator (eval q2) v v2 (tok p) (tpos (cur p))")
        (simp_all add: preturn_Done p_error_not_Done pabort_not_Done)
    from evaluateOperator_shape[OF this v v2] show ?thesis .
  qed
  from a b show ?case by blast
qed

text \<open>The loop over the cases: the flag is raised only with a case whose value is not the
  keyword \<open>unset\<close>.\<close>

lemma parseSelectCases_flag:
  assumes "parseSelectCases n multi conds h acc p = (Done (cases, h'), p')"
      and "h \<longrightarrow> (\<exists>c \<in> set acc. \<not> isUnsetProperty (CaseValue c))"
  shows "h' \<longrightarrow> (\<exists>c \<in> set cases. \<not> isUnsetProperty (CaseValue c))"
  using assms
proof (induction n arbitrary: h acc p)
  case 0
  then show ?case by (simp add: parseSelectCases.simps)
next
  case (Suc n)
  show ?case
  proof (cases "tok p \<noteq> Sym (CHR ''}'')")
    case False
    with Suc.prems show ?thesis
      by (auto simp add: parseSelectCases.simps preturn_Done)
  next
    case True
    from Suc.prems(1) True obtain pats q1 where
      k1: "pbind (accept [Sym (CHR '':'')])
             (\<lambda>u. pbind
                (\<lambda>p. if tok p = Ident \<and> ttext (cur p) = ''unset'' then
                        pbind (accept [Ident]) (\<lambda>u. preturn (UnsetProperty (tpos (cur p)), h)) p
                      else pbind (parseExpression n) (\<lambda>v. preturn (v, True)) p)
                (\<lambda>vh. pbind (accept [Sym (CHR '','')]) (\<lambda>u.
                   parseSelectCases n multi conds (snd vh)
                     (acc @ [SelectCase pats (tpos (cur q1)) (fst vh)])))) q1
           = (Done (cases, h'), p')"
      unfolding parseSelectCases.simps Let_def by (auto elim: pbind_Done)
    then obtain q2 where
      k2: "pbind
                (\<lambda>p. if tok p = Ident \<and> ttext (cur p) = ''unset'' then
                        pbind (accept [Ident]) (\<lambda>u. preturn (UnsetProperty (tpos (cur p)), h)) p
                      else pbind (parseExpression n) (\<lambda>v. preturn (v, True)) p)
                (\<lambda>vh. pbind (accept [Sym (CHR '','')]) (\<lambda>u.
                   parseSelectCases n multi conds (snd vh)
                     (acc @ [SelectCase pats (tpos (cur q1)) (fst vh)]))) q2
           = (Done (cases, h'), p')"
      by (rule pbind_Done)
    then obtain vh q3 where
      val: "(if tok q2 = Ident \<and> ttext (cur q2) = ''unset'' then
               pbind (accept [Ident]) (\<lambda>u. preturn (UnsetProperty (tpos (cur q2)), h)) q2
             else pbind (parseExpression n) (\<lambda>v. preturn (v, True)) q2) = (Done vh, q3)"
      and k3: "pbind (accept [Sym (CHR '','')]) (\<lambda>u.
                   parseSelectCases n multi conds (snd vh)
                     (acc @ [SelectCase pats (tpos (cur q1)) (fst vh)])) q3
           = (Done (cases, h'), p')"
      by (rule pbind_Done)
    from k3 obtain q4 where
      rec: "parseSelectCases n multi conds (snd vh)
              (acc @ [SelectCase pats (tpos (cur q1)) (fst vh)]) q4 = (Done (cases, h'), p')"
      by (rule pbind_Done)
    have fl: "(snd vh = h \<and> isUnsetProperty (fst vh)) \<or> (snd vh \<and> \<not> isUnsetProperty (fst vh))"
    proof (cases "tok q2 = Ident \<and> ttext (cur q2) = ''unset''")
      case True
      with val have "vh = (UnsetProperty (tpos (cur q2)), h)"
        by (auto simp add: preturn_Done elim!: pbind_Done)
      then show ?thesis by simp
    next
      case False
      with val obtain v q where "parseExpression n q2 = (Done v, q)" and "vh = (v, True)"
        by (auto simp add: preturn_Done elim!: pbind_Done)
      with parseExpression_shape[of n] show ?thesis by auto
    qed
    have "snd vh \<longrightarrow> (\<exists>c \<in> set (acc @ [SelectCase pats (tpos (cur q1)) (fst vh)]).
             \<not> isUnsetProperty (CaseValue c))"
      using fl Suc.prems(2) by auto
    from Suc.IH[OF rec this] show ?thesis .
  qed
qed

subsection \<open>What the grammar leaves of the scope\<close>

text \<open>The methods below the expression grammar leave the scope and the mode as they
  are.\<close>

lemma reportScanErrors_scope:
  "reportScanErrors msgs p = (r, p') \<Longrightarrow> scope p' = scope p \<and> eval p' = eval p"
  by (cases msgs)
    (auto simp add: preturn_def pbind_def p_error_def Let_def split: if_splits)

lemma Scan_scope:
  assumes "Scan p = (Done t, p')"
  shows "scope p' = scope p \<and> eval p' = eval p"
proof -
  let ?t = "(case input p of [] \<Rightarrow> eofToken p | t # ts \<Rightarrow> t)\<lparr>tpos :=
      (tpos (case input p of [] \<Rightarrow> eofToken p | t # ts \<Rightarrow> t))\<lparr>Filename := scanFilename p\<rparr>\<rparr>"
  from assms have "reportScanErrors (scanErrors ?t) (p\<lparr>input := tl (input p), cur := ?t\<rparr>)
      = (Done (), p')"
    by (auto simp add: Scan_def Let_def pbind_def preturn_def split: prod.splits run.splits)
  from reportScanErrors_scope[OF this] show ?thesis by simp
qed

lemma commentLoop_scope:
  "commentLoop cs p = (Done x, p') \<Longrightarrow> scope p' = scope p \<and> eval p' = eval p"
proof (induction cs p rule: commentLoop.induct)
  case (1 cs p)
  show ?case
  proof (cases "tok p = CommentTok")
    case False
    with 1(2) show ?thesis by (auto simp add: commentLoop.simps)
  next
    case True
    let ?flush = "cs \<noteq> [] \<and> Line (tpos (cur p)) > Line (CommentEnd (last cs)) + 1"
    let ?p1 = "if ?flush then p\<lparr>comments := comments p @ [cs]\<rparr> else p"
    let ?cs2 = "(if ?flush then [] else cs)
                  @ [\<lparr>CommentLines = splitLines (ttext (cur p)), Slash = tpos (cur p)\<rparr>]"
    from 1(2) True obtain t p2 where
      s: "Scan ?p1 = (Done t, p2)" and
      r: "commentLoop ?cs2 (p2\<lparr>tok := t\<rparr>) = (Done x, p')"
      by (subst (asm) commentLoop.simps) (auto simp add: Let_def split: prod.splits run.splits)
    from 1(1)[OF True refl refl refl refl refl _ refl r] s
    have "scope p' = scope (p2\<lparr>tok := t\<rparr>) \<and> eval p' = eval (p2\<lparr>tok := t\<rparr>)" by simp
    with Scan_scope[OF s] show ?thesis by simp
  qed
qed

lemma p_next_scope:
  "p_next p = (Done x, p') \<Longrightarrow> scope p' = scope p \<and> eval p' = eval p"
  unfolding p_next_def Let_def
  by (auto elim!: pbind_Done simp add: preturn_Done dest!: Scan_scope commentLoop_scope
      split: if_splits)

lemma accept_scope:
  "accept toks p = (Done x, p') \<Longrightarrow> scope p' = scope p \<and> eval p' = eval p"
proof (induction toks arbitrary: p)
  case Nil
  then show ?case by (simp add: accept.simps preturn_Done)
next
  case (Cons t toks)
  from Cons.prems obtain q where "p_next p = (Done (), q)" and "accept toks q = (Done x, p')"
    by (auto simp add: accept.simps p_error_not_Done elim!: pbind_Done split: if_splits)
  with Cons.IH[of q] p_next_scope[of p] show ?case by simp
qed

lemma parseBoolean_scope:
  "parseBoolean p = (Done e, p') \<Longrightarrow> scope p' = scope p \<and> eval p' = eval p"
  unfolding parseBoolean_def Let_def
  by (auto elim!: pbind_Done simp add: preturn_Done p_error_not_Done dest!: accept_scope
      split: if_splits simp del: accept.simps)

lemma parseStringValue_scope:
  "parseStringValue p = (Done s, p') \<Longrightarrow> scope p' = scope p \<and> eval p' = eval p"
  unfolding parseStringValue_def Let_def
  by (auto elim!: pbind_Done simp add: preturn_Done p_error_not_Done dest!: accept_scope
      split: option.splits simp del: accept.simps)

lemma parseIntValue_scope:
  "parseIntValue p = (Done e, p') \<Longrightarrow> scope p' = scope p \<and> eval p' = eval p"
  unfolding parseIntValue_def Let_def
  by (auto elim!: pbind_Done simp add: preturn_Done p_error_not_Done dest!: accept_scope
      split: if_splits option.splits simp del: accept.simps)

lemma parseOnePattern_scope:
  "parseOnePattern p = (Done e, p') \<Longrightarrow> scope p' = scope p \<and> eval p' = eval p"
  unfolding parseOnePattern_def
  by (auto elim!: pbind_Done simp add: preturn_Done p_error_not_Done
      dest!: p_next_scope parseStringValue_scope split: if_splits simp del: accept.simps)

lemma parsePatterns_scope:
  "parsePatterns k pats p = (Done r, p') \<Longrightarrow> scope p' = scope p \<and> eval p' = eval p"
proof (induction k arbitrary: pats p)
  case 0
  then show ?case by (simp add: parsePatterns.simps preturn_Done)
next
  case (Suc k)
  from Suc.prems obtain pat q1 q2 where
    a: "parseOnePattern p = (Done pat, q1)" and
    b: "(if 0 < k then accept [Sym (CHR '','')] q1
         else if tok q1 = Sym (CHR '','') then p_next q1 else preturn () q1) = (Done (), q2)" and
    c: "parsePatterns k (pats @ [pat]) q2 = (Done r, p')"
    by (auto simp add: parsePatterns.simps elim!: pbind_Done)
  from b have "scope q2 = scope q1 \<and> eval q2 = eval q1"
    by (auto simp add: preturn_Done dest!: accept_scope p_next_scope split: if_splits simp del: accept.simps)
  with parseOnePattern_scope[OF a] Suc.IH[OF c] show ?case by simp
qed

lemma parseConditionArgs_scope:
  "parseConditionArgs n args p = (Done r, p') \<Longrightarrow> scope p' = scope p \<and> eval p' = eval p"
proof (induction n arbitrary: args p)
  case 0
  then show ?case by (simp add: parseConditionArgs.simps)
next
  case (Suc n)
  show ?case
  proof (cases "tok p \<noteq> Sym (CHR '')'')")
    case False
    with Suc.prems show ?thesis by (simp add: parseConditionArgs.simps preturn_Done)
  next
    case True
    with Suc.prems obtain s q1 where
      a: "parseStringValue p = (Done s, q1)" and
      b: "(if tok q1 = Sym (CHR '')'') then preturn (args @ [s]) q1
           else pbind (accept [Sym (CHR '','')]) (\<lambda>u. parseConditionArgs n (args @ [s])) q1)
          = (Done r, p')"
      by (auto simp add: parseConditionArgs.simps elim!: pbind_Done)
    from b have "scope p' = scope q1 \<and> eval p' = eval q1"
      by (auto simp add: preturn_Done elim!: pbind_Done dest!: accept_scope Suc.IH
          split: if_splits simp del: accept.simps)
    with parseStringValue_scope[OF a] show ?thesis by simp
  qed
qed

lemma reportDuplicateConditions_scope:
  "reportDuplicateConditions cs c p = (Done r, p') \<Longrightarrow> p' = p"
  by (induction cs)
    (auto simp add: reportDuplicateConditions.simps preturn_Done p_error_not_Done
      elim!: pbind_Done split: if_splits simp del: accept.simps)

lemma parseConditions_scope:
  "parseConditions n multi conds p = (Done r, p') \<Longrightarrow> scope p' = scope p \<and> eval p' = eval p"
proof (induction n arbitrary: multi conds p)
  case 0
  then show ?case by (simp add: parseConditions.simps)
next
  case (Suc n)
  from Suc.prems obtain q1 q2 args q3 q4 c where
    a: "accept [Ident] p = (Done (), q1)" and
    b: "accept [Sym (CHR ''('')] q1 = (Done (), q2)" and
    c: "parseConditionArgs n [] q2 = (Done args, q3)" and
    d: "accept [Sym (CHR '')'')] q3 = (Done (), q4)" and
    e: "(if multi then
           (\<lambda>p. if tok p = Sym (CHR '')'') then
                   pbind p_next (\<lambda>u. preturn (conds @ [c])) p
                 else
                   pbind (accept [Sym (CHR '','')])
                     (\<lambda>u p. if tok p = Sym (CHR '')'') then
                              pbind p_next (\<lambda>u. preturn (conds @ [c])) p
                            else parseConditions n multi (conds @ [c]) p) p)
         else preturn (conds @ [c])) q4 = (Done r, p')"
    unfolding parseConditions.simps Let_def
    by (auto elim!: pbind_Done dest!: reportDuplicateConditions_scope simp del: accept.simps)
  from e have "scope p' = scope q4 \<and> eval p' = eval q4"
    by (auto simp add: preturn_Done elim!: pbind_Done dest!: accept_scope p_next_scope Suc.IH
        split: if_splits simp del: accept.simps)
  with accept_scope[OF a] accept_scope[OF b] parseConditionArgs_scope[OF c] accept_scope[OF d]
  show ?case by simp
qed

lemma finishSelect_scope:
  "finishSelect kw conds lb cases h p = (Done e, p') \<Longrightarrow> scope p' = scope p \<and> eval p' = eval p"
  unfolding finishSelect_def Let_def
  by (auto elim!: pbind_Done simp add: preturn_Done p_error_not_Done dest!: accept_scope
      split: if_splits option.splits sum.splits simp del: accept.simps)

subsection \<open>The types of what the grammar returns\<close>

text \<open>With a scope whose bindings are typed, every expression the grammar returns has a
  type other than unset: the keyword \<open>unset\<close> is read by the loop over the cases of a select
  alone, and an operator returns one of its operands or a node of the type of the left.\<close>

lemma typedScope_same:
  "scope p' = scope p \<and> eval p' = eval p \<Longrightarrow> typedScope p \<Longrightarrow> typedScope p'"
  by (simp add: typedScope_def)

lemma rt_preturn: "typedScope p \<Longrightarrow> Q x \<Longrightarrow> returnsTyped (preturn x p) Q"
  by (simp add: returnsTyped_def preturn_Done)

lemma rt_error: "returnsTyped (p_error err p) Q"
  by (simp add: returnsTyped_def p_error_not_Done)

lemma rt_abort: "returnsTyped (pabort x p) Q"
  by (simp add: returnsTyped_def pabort_not_Done)

lemma rt_pbind:
  assumes "returnsTyped (m p) R"
      and "\<And>x q. typedScope q \<Longrightarrow> R x \<Longrightarrow> returnsTyped (f x q) Q"
  shows "returnsTyped (pbind m f p) Q"
  unfolding returnsTyped_def
proof (intro allI impI)
  fix y p' assume "pbind m f p = (Done y, p')"
  then obtain x q where a: "m p = (Done x, q)" and b: "f x q = (Done y, p')"
    by (rule pbind_Done)
  from assms(1) a have "typedScope q \<and> R x" by (simp add: returnsTyped_def)
  with assms(2)[of q x] b show "typedScope p' \<and> Q y" by (simp add: returnsTyped_def)
qed

lemma rt_same:
  assumes "\<And>x p'. m p = (Done x, p') \<Longrightarrow> scope p' = scope p \<and> eval p' = eval p"
      and "typedScope p"
  shows "returnsTyped (m p) (\<lambda>x. True)"
  using assms typedScope_same by (auto simp add: returnsTyped_def)

lemma rt_accept: "typedScope p \<Longrightarrow> returnsTyped (accept toks p) (\<lambda>x. True)"
  by (rule rt_same) (rule accept_scope)

lemma rt_p_next: "typedScope p \<Longrightarrow> returnsTyped (p_next p) (\<lambda>x. True)"
  by (rule rt_same) (rule p_next_scope)

lemma rt_parsePatterns:
  "typedScope p \<Longrightarrow> returnsTyped (parsePatterns k pats p) (\<lambda>x. True)"
  by (rule rt_same) (rule parsePatterns_scope)

lemma rt_parseOnePattern: "typedScope p \<Longrightarrow> returnsTyped (parseOnePattern p) (\<lambda>x. True)"
  by (rule rt_same) (rule parseOnePattern_scope)

lemma rt_parseConditions:
  "typedScope p \<Longrightarrow> returnsTyped (parseConditions n multi conds p) (\<lambda>x. True)"
  by (rule rt_same) (rule parseConditions_scope)

lemma rt_parseStringValue: "typedScope p \<Longrightarrow> returnsTyped (parseStringValue p) (\<lambda>x. True)"
  by (rule rt_same) (rule parseStringValue_scope)

lemma rt_parseBoolean:
  assumes "typedScope p"
  shows "returnsTyped (parseBoolean p) (\<lambda>e. TypeOf e \<noteq> UnsetType)"
  unfolding returnsTyped_def
proof (intro allI impI)
  fix e p' assume r: "parseBoolean p = (Done e, p')"
  then have "TypeOf e \<noteq> UnsetType"
    by (auto simp add: parseBoolean_def Let_def p_error_not_Done preturn_Done
        elim!: pbind_Done split: if_splits)
  with typedScope_same[OF parseBoolean_scope[OF r] assms]
  show "typedScope p' \<and> TypeOf e \<noteq> UnsetType" by simp
qed

lemma rt_parseIntValue:
  assumes "typedScope p"
  shows "returnsTyped (parseIntValue p) (\<lambda>e. TypeOf e \<noteq> UnsetType)"
  unfolding returnsTyped_def
proof (intro allI impI)
  fix e p' assume r: "parseIntValue p = (Done e, p')"
  then have "TypeOf e \<noteq> UnsetType"
    by (auto simp add: parseIntValue_def Let_def p_error_not_Done preturn_Done
        elim!: pbind_Done split: option.splits)
  with typedScope_same[OF parseIntValue_scope[OF r] assms]
  show "typedScope p' \<and> TypeOf e \<noteq> UnsetType" by simp
qed

text \<open>\<open>parseVariable\<close> marks the binding as referenced and leaves its value.\<close>

lemma rt_parseVariable:
  assumes "typedScope p"
  shows "returnsTyped (parseVariable p) (\<lambda>e. TypeOf e \<noteq> UnsetType)"
  unfolding returnsTyped_def
proof (intro allI impI)
  fix e p' assume r: "parseVariable p = (Done e, p')"
  then obtain v q where
    a: "(if eval p then
           (case scope p of
              None \<Rightarrow> pabort NilDereference p
            | Some sc \<Rightarrow>
                (case Get sc (ttext (cur p)) of
                   (None, local) \<Rightarrow> p_error (VariableNotSet (ttext (cur p))) p
                 | (Some assignment, local) \<Rightarrow>
                     (Done (Value assignment),
                      if local
                      then p\<lparr>scope := Some (sc\<lparr>vars := (vars sc)
                               (ttext (cur p) \<mapsto> assignment\<lparr>Referenced := True\<rparr>)\<rparr>)\<rparr>
                      else p)))
         else preturn (NotEvaluated zeroPos) p) = (Done v, q)"
    and b: "accept [Ident] q = (Done (), p')"
    and e: "e = Variable (ttext (cur p)) (tpos (cur q)) v"
    unfolding parseVariable_def Let_def
    by (auto elim!: pbind_Done simp add: preturn_Done simp del: accept.simps)
  have "typedScope q \<and> TypeOf v \<noteq> UnsetType"
  proof (cases "eval p")
    case False
    with a assms show ?thesis by (auto simp add: preturn_Done)
  next
    case True
    with a obtain sc where sc: "scope p = Some sc"
      by (cases "scope p") (auto simp add: pabort_not_Done)
    from a True sc obtain asg local where g: "Get sc (ttext (cur p)) = (Some asg, local)"
      and v: "v = Value asg"
      and q: "q = (if local
                   then p\<lparr>scope := Some (sc\<lparr>vars := (vars sc)
                            (ttext (cur p) \<mapsto> asg\<lparr>Referenced := True\<rparr>)\<rparr>)\<rparr>
                   else p)"
      by (auto simp add: p_error_not_Done split: prod.splits option.splits)
    from g have "vars sc (ttext (cur p)) = Some asg \<or> inheritedVars sc (ttext (cur p)) = Some asg"
      by (auto simp add: Get_def split: option.splits)
    with assms True sc have t: "TypeOf (Value asg) \<noteq> UnsetType"
      unfolding typedScope_def by blast
    from assms True sc t q have "typedScope q"
      unfolding typedScope_def by (auto split: if_splits)
    with t v show ?thesis by simp
  qed
  with typedScope_same[OF accept_scope[OF b]] e
  show "typedScope p' \<and> TypeOf e \<noteq> UnsetType" by simp
qed

lemma evaluateOperator_typed:
  assumes "evaluateOperator ev value1 value2 opr pos = Ok v"
      and "TypeOf value1 \<noteq> UnsetType" and "TypeOf value2 \<noteq> UnsetType"
  shows "TypeOf v \<noteq> UnsetType"
proof (cases ev)
  case False
  with assms show ?thesis by (auto simp add: evaluateOperator.simps)
next
  case True
  have "\<exists>x. v = Operator value1 value2 opr pos x"
    using assms True
    by (auto simp add: evaluateOperator.simps Let_def
        split: if_splits Expression.splits result.splits)
  with assms(2) show ?thesis by auto
qed

lemma rt_finishSelect:
  assumes "typedScope p"
      and "h \<longrightarrow> (\<exists>c \<in> set cases. TypeOf (CaseValue c) \<noteq> UnsetType)"
  shows "returnsTyped (finishSelect kw conds lb cases h p) (\<lambda>e. TypeOf e \<noteq> UnsetType)"
  unfolding returnsTyped_def
proof (intro allI impI)
  fix e p' assume r: "finishSelect kw conds lb cases h p = (Done e, p')"
  from finishSelect_Done[OF r] obtain ty rb where h: h
    and u: "unifyTypes cases UnsetType = Inr ty"
    and e: "e = Select kw conds lb rb cases None ty"
    by auto
  from unifyTypes_Inr[OF u] h assms(2) have "ty \<noteq> UnsetType" by blast
  with e typedScope_same[OF finishSelect_scope[OF r] assms(1)]
  show "typedScope p' \<and> TypeOf e \<noteq> UnsetType" by simp
qed

lemma grammar_typed:
  "(\<forall>p. typedScope p \<longrightarrow> returnsTyped (parseExpression n p) (\<lambda>e. TypeOf e \<noteq> UnsetType))
 \<and> (\<forall>v p. typedScope p \<longrightarrow> TypeOf v \<noteq> UnsetType
        \<longrightarrow> returnsTyped (parseOperator n v p) (\<lambda>e. TypeOf e \<noteq> UnsetType))
 \<and> (\<forall>p. typedScope p \<longrightarrow> returnsTyped (parseValue n p) (\<lambda>e. TypeOf e \<noteq> UnsetType))
 \<and> (\<forall>p. typedScope p \<longrightarrow> returnsTyped (parseSelect n p) (\<lambda>e. TypeOf e \<noteq> UnsetType))
 \<and> (\<forall>multi conds h cases p. typedScope p
        \<longrightarrow> (h \<longrightarrow> (\<exists>c \<in> set cases. TypeOf (CaseValue c) \<noteq> UnsetType))
        \<longrightarrow> returnsTyped (parseSelectCases n multi conds h cases p)
              (\<lambda>r. snd r \<longrightarrow> (\<exists>c \<in> set (fst r). TypeOf (CaseValue c) \<noteq> UnsetType)))
 \<and> (\<forall>p. typedScope p \<longrightarrow> returnsTyped (parseListValue n p) (\<lambda>e. TypeOf e \<noteq> UnsetType))
 \<and> (\<forall>els p. typedScope p \<longrightarrow> returnsTyped (parseListElements n els p) (\<lambda>x. True))
 \<and> (\<forall>p. typedScope p \<longrightarrow> returnsTyped (parseMapValue n p) (\<lambda>e. TypeOf e \<noteq> UnsetType))
 \<and> (\<forall>m c ps p. typedScope p \<longrightarrow> returnsTyped (parsePropertyListFrom n m c ps p) (\<lambda>x. True))
 \<and> (\<forall>m c p. typedScope p \<longrightarrow> returnsTyped (parseProperty n m c p) (\<lambda>x. True))"
proof (induction n)
  case 0
  show ?case
    by (simp add: returnsTyped_def parseExpression.simps parseOperator.simps parseValue.simps
        parseSelect.simps parseSelectCases.simps parseListValue.simps parseListElements.simps
        parseMapValue.simps parsePropertyListFrom.simps parseProperty.simps)
next
  case (Suc n)
  note ihE = Suc[THEN conjunct1, rule_format]
  note ihO = Suc[THEN conjunct2, THEN conjunct1, rule_format]
  note ihV = Suc[THEN conjunct2, THEN conjunct2, THEN conjunct1, rule_format]
  note ihS = Suc[THEN conjunct2, THEN conjunct2, THEN conjunct2, THEN conjunct1, rule_format]
  note ihC = Suc[THEN conjunct2, THEN conjunct2, THEN conjunct2, THEN conjunct2, THEN conjunct1, rule_format]
  note ihL = Suc[THEN conjunct2, THEN conjunct2, THEN conjunct2, THEN conjunct2, THEN conjunct2, THEN conjunct1, rule_format]
  note ihLE = Suc[THEN conjunct2, THEN conjunct2, THEN conjunct2, THEN conjunct2, THEN conjunct2, THEN conjunct2, THEN conjunct1, rule_format]
  note ihM = Suc[THEN conjunct2, THEN conjunct2, THEN conjunct2, THEN conjunct2, THEN conjunct2, THEN conjunct2, THEN conjunct2, THEN conjunct1, rule_format]
  note ihPL = Suc[THEN conjunct2, THEN conjunct2, THEN conjunct2, THEN conjunct2, THEN conjunct2, THEN conjunct2, THEN conjunct2, THEN conjunct2, THEN conjunct1, rule_format]
  note ihP = Suc[THEN conjunct2, THEN conjunct2, THEN conjunct2, THEN conjunct2, THEN conjunct2, THEN conjunct2, THEN conjunct2, THEN conjunct2, THEN conjunct2, rule_format]
  have e: "returnsTyped (parseExpression (Suc n) p) (\<lambda>e. TypeOf e \<noteq> UnsetType)"
    if "typedScope p" for p
    unfolding parseExpression.simps using that
    by (auto intro!: rt_pbind ihV ihO rt_error rt_preturn)
  have o: "returnsTyped (parseOperator (Suc n) v p) (\<lambda>e. TypeOf e \<noteq> UnsetType)"
    if "typedScope p" and "TypeOf v \<noteq> UnsetType" for v p
    unfolding parseOperator.simps Let_def using that
    by (auto intro!: rt_pbind rt_accept ihE rt_error rt_abort rt_preturn
        dest: evaluateOperator_typed split: result.splits simp del: accept.simps)
  have v: "returnsTyped (parseValue (Suc n) p) (\<lambda>e. TypeOf e \<noteq> UnsetType)"
    if "typedScope p" for p
    unfolding parseValue.simps using that
    by (auto intro!: rt_pbind rt_parseBoolean rt_parseVariable rt_parseIntValue
        rt_parseStringValue ihS ihL ihM rt_error rt_preturn)
  have s: "returnsTyped (parseSelect (Suc n) p) (\<lambda>e. TypeOf e \<noteq> UnsetType)"
    if "typedScope p" for p
    unfolding parseSelect.simps Let_def using that
    by (auto intro!: rt_pbind rt_accept rt_parseConditions ihC rt_finishSelect rt_error
        rt_preturn simp del: accept.simps)
  have c: "returnsTyped (parseSelectCases (Suc n) multi conds h cases p)
            (\<lambda>r. snd r \<longrightarrow> (\<exists>c \<in> set (fst r). TypeOf (CaseValue c) \<noteq> UnsetType))"
    if p: "typedScope p" and h: "h \<longrightarrow> (\<exists>c \<in> set cases. TypeOf (CaseValue c) \<noteq> UnsetType)"
    for multi conds h cases p
  proof (cases "tok p \<noteq> Sym (CHR ''}'')")
    case False
    with p h show ?thesis
      unfolding parseSelectCases.simps by (simp add: rt_preturn)
  next
    case True
    let ?R = "\<lambda>vh. snd vh \<longrightarrow> (TypeOf (fst vh) \<noteq> UnsetType
                \<or> (\<exists>c \<in> set cases. TypeOf (CaseValue c) \<noteq> UnsetType))"
    have pat: "returnsTyped
        ((if multi then
            pbind (accept [Sym (CHR ''('')]) (\<lambda>u.
            pbind (parsePatterns (length conds) []) (\<lambda>pats.
            pbind (accept [Sym (CHR '')'')]) (\<lambda>u. preturn pats)))
          else pbind parseOnePattern (\<lambda>pat. preturn [pat])) q) (\<lambda>x. True)"
      if "typedScope q" for q
      using that
      by (auto intro!: rt_pbind[where R = "\<lambda>x. True"] rt_accept rt_parsePatterns
          rt_parseOnePattern rt_preturn simp del: accept.simps)
    have val: "returnsTyped
        (if tok q = Ident \<and> ttext (cur q) = ''unset'' then
           pbind (accept [Ident]) (\<lambda>u. preturn (UnsetProperty (tpos (cur q)), h)) q
         else pbind (parseExpression n) (\<lambda>v. preturn (v, True)) q) ?R"
      if "typedScope q" for q
    proof (cases "tok q = Ident \<and> ttext (cur q) = ''unset''")
      case True
      with that h show ?thesis
        by (auto intro!: rt_pbind[where R = "\<lambda>x. True"] rt_accept rt_preturn
            simp del: accept.simps)
    next
      case False
      have "returnsTyped (pbind (parseExpression n) (\<lambda>v. preturn (v, True)) q) ?R"
      proof (rule rt_pbind)
        show "returnsTyped (parseExpression n q) (\<lambda>e. TypeOf e \<noteq> UnsetType)"
          by (rule ihE[OF that])
      qed (simp add: rt_preturn)
      then show ?thesis by (simp only: False if_False)
    qed
    have rest: "returnsTyped
        (pbind (accept [Sym (CHR '','')]) (\<lambda>u.
           parseSelectCases n multi conds (snd vh) (cases @ [SelectCase pats cp (fst vh)])) q)
        (\<lambda>r. snd r \<longrightarrow> (\<exists>c \<in> set (fst r). TypeOf (CaseValue c) \<noteq> UnsetType))"
      if "typedScope q" and "?R vh" for q vh pats cp
    proof (rule rt_pbind)
      show "returnsTyped (accept [Sym (CHR '','')] q) (\<lambda>x. True)"
        by (rule rt_accept[OF that(1)])
    next
      fix x :: unit and q' assume q': "typedScope q'"
      from that(2)
      have k: "snd vh \<longrightarrow> (\<exists>c \<in> set (cases @ [SelectCase pats cp (fst vh)]).
               TypeOf (CaseValue c) \<noteq> UnsetType)"
        by auto
      show "returnsTyped
          (parseSelectCases n multi conds (snd vh) (cases @ [SelectCase pats cp (fst vh)]) q')
          (\<lambda>r. snd r \<longrightarrow> (\<exists>c \<in> set (fst r). TypeOf (CaseValue c) \<noteq> UnsetType))"
        by (rule ihC) (use q' k in blast)+
    qed
    show ?thesis
      unfolding parseSelectCases.simps Let_def
      apply (subst if_P, rule True)
      apply (rule rt_pbind[where R = "\<lambda>x. True"])
       apply (rule pat, rule p)
      apply (rule rt_pbind[where R = "\<lambda>x. True"])
       apply (rule rt_accept, assumption)
      apply (rule rt_pbind[where R = ?R])
       apply (rule val, assumption)
      apply (rule rest; assumption)
      done
  qed
  have l: "returnsTyped (parseListValue (Suc n) p) (\<lambda>e. TypeOf e \<noteq> UnsetType)"
    if "typedScope p" for p
    unfolding parseListValue.simps Let_def using that
    by (auto intro!: rt_pbind rt_accept ihLE rt_preturn simp del: accept.simps)
  have le: "returnsTyped (parseListElements (Suc n) els p) (\<lambda>x. True)"
    if "typedScope p" for els p
    unfolding parseListElements.simps using that
    by (auto intro!: rt_pbind rt_accept ihE ihLE rt_preturn simp del: accept.simps)
  have m: "returnsTyped (parseMapValue (Suc n) p) (\<lambda>e. TypeOf e \<noteq> UnsetType)"
    if "typedScope p" for p
    unfolding parseMapValue.simps Let_def using that
    by (auto intro!: rt_pbind rt_accept ihPL rt_preturn simp del: accept.simps)
  have pl: "returnsTyped (parsePropertyListFrom (Suc n) m c ps p) (\<lambda>x. True)"
    if "typedScope p" for m c ps p
    unfolding parsePropertyListFrom.simps Let_def using that
    by (auto intro!: rt_pbind rt_accept ihP ihPL rt_preturn simp del: accept.simps)
  have pr: "returnsTyped (parseProperty (Suc n) m c p) (\<lambda>x. True)"
    if "typedScope p" for m c p
    unfolding parseProperty.simps Let_def using that
    by (auto intro!: rt_pbind rt_accept ihE rt_preturn simp del: accept.simps)
  from e o v s c l le m pl pr show ?case by simp
qed

subsection \<open>The select that is returned\<close>

lemma unifyTypes_all_unset:
  "\<forall>c \<in> set cases. TypeOf (CaseValue c) = UnsetType \<Longrightarrow> unifyTypes cases ty0 = Inr ty0"
  by (induction cases arbitrary: ty0) (simp_all add: Let_def)

text \<open>
  Claim C4, as the code has it. Whenever \<open>parseSelect\<close> returns, it returns a select node
  whose cases satisfy: no two of them have pattern lists that are equal up to source
  positions; a case whose patterns are all the default sentinel is the last one; every
  case value whose type is not unset has the type stored in \<open>ExpressionType\<close>, which is
  unset exactly when every case value has the type unset; and some case has a value that
  is not the keyword \<open>unset\<close>, which is what the parser's flag \<open>hasNonUnsetValue\<close>
  records. When the parser evaluates and every binding of its scope has a value of a type
  other than unset, or when it does not evaluate, some case has a value whose type is not
  unset, and \<open>ExpressionType\<close> is not unset.
\<close>

theorem parseSelect_invariants:
  assumes "parseSelect n p = (Done e, p')"
  shows "\<exists>kw conds lb rb cases ty.
           e = Select kw conds lb rb cases None ty
         \<and> (\<forall>a b. a < b \<and> b < length cases \<longrightarrow>
                map stripPos (Patterns (cases ! a)) \<noteq> map stripPos (Patterns (cases ! b)))
         \<and> (\<forall>a. a < length cases \<and> isAllDefault (Patterns (cases ! a)) \<longrightarrow> a = length cases - 1)
         \<and> (\<forall>c \<in> set cases. TypeOf (CaseValue c) \<noteq> UnsetType \<longrightarrow> TypeOf (CaseValue c) = ty)
         \<and> (ty = UnsetType \<longleftrightarrow> (\<forall>c \<in> set cases. TypeOf (CaseValue c) = UnsetType))
         \<and> (\<exists>c \<in> set cases. \<not> isUnsetProperty (CaseValue c))
         \<and> (typedScope p \<longrightarrow> (\<exists>c \<in> set cases. TypeOf (CaseValue c) \<noteq> UnsetType)
                              \<and> ty \<noteq> UnsetType)"
proof (cases n)
  case 0
  with assms show ?thesis by (simp add: parseSelect.simps)
next
  case (Suc m)
  from assms Suc obtain kw conds lb multi q0 q r where
    loop: "parseSelectCases m multi conds False [] q0 = (Done r, q)"
    and fin: "finishSelect kw conds lb (fst r) (snd r) q = (Done e, p')"
    by (auto simp add: parseSelect.simps Let_def p_error_not_Done
        elim!: pbind_Done split: if_splits simp del: accept.simps)
  obtain cases h where r: "r = (cases, h)" by (cases r)
  from finishSelect_Done[OF fin] r obtain ty rb where h: h
    and chk: "checkCases cases 0 (length cases - 1) = None"
    and uni: "unifyTypes cases UnsetType = Inr ty"
    and e: "e = Select kw conds lb rb cases None ty"
    by auto
  from parseSelectCases_flag[OF loop[unfolded r]] h
  have nonempty: "\<exists>c \<in> set cases. \<not> isUnsetProperty (CaseValue c)" by simp
  note cc = checkCases_None[OF chk]
  have dup: "\<forall>a b. a < b \<and> b < length cases \<longrightarrow>
      map stripPos (Patterns (cases ! a)) \<noteq> map stripPos (Patterns (cases ! b))"
    using cc patternListsEqual_stripPos by blast
  have dflt: "\<forall>a. a < length cases \<and> isAllDefault (Patterns (cases ! a)) \<longrightarrow> a = length cases - 1"
  proof (intro allI impI)
    fix a assume a: "a < length cases \<and> isAllDefault (Patterns (cases ! a))"
    with cc have "\<not> a < length cases - 1" by auto
    with a show "a = length cases - 1" by arith
  qed
  from unifyTypes_Inr[OF uni]
  have ty: "\<forall>c \<in> set cases. TypeOf (CaseValue c) \<noteq> UnsetType \<longrightarrow> TypeOf (CaseValue c) = ty"
    by blast
  have unset: "ty = UnsetType \<longleftrightarrow> (\<forall>c \<in> set cases. TypeOf (CaseValue c) = UnsetType)"
  proof
    assume "ty = UnsetType"
    with unifyTypes_Inr[OF uni] show "\<forall>c \<in> set cases. TypeOf (CaseValue c) = UnsetType"
      by blast
  next
    assume "\<forall>c \<in> set cases. TypeOf (CaseValue c) = UnsetType"
    from unifyTypes_all_unset[OF this, of UnsetType] uni show "ty = UnsetType" by simp
  qed
  have typed: "(\<exists>c \<in> set cases. TypeOf (CaseValue c) \<noteq> UnsetType) \<and> ty \<noteq> UnsetType"
    if "typedScope p"
  proof -
    from grammar_typed[of n, THEN conjunct2, THEN conjunct2, THEN conjunct2, THEN conjunct1]
      that
    have "returnsTyped (parseSelect n p) (\<lambda>e. TypeOf e \<noteq> UnsetType)" by blast
    with assms have "TypeOf e \<noteq> UnsetType" by (simp add: returnsTyped_def)
    with e have "ty \<noteq> UnsetType" by simp
    with unset show ?thesis by blast
  qed
  from e dup dflt ty unset nonempty typed show ?thesis by blast
qed

theorem parseSelect_invariants_witness:
  "fst (parseSelect 9 (startOn selectVariable (Some listScope) True))
     = Done (Select \<lparr>Filename = [], Offset = 0, Line = 1, Column = 1\<rparr>
        [\<lparr>cond_position = \<lparr>Filename = [], Offset = 0, Line = 1, Column = 8\<rparr>,
          FunctionName = ''f'',
          Args = [(\<lparr>Filename = [], Offset = 0, Line = 1, Column = 10\<rparr>, ''a'')]\<rparr>]
        \<lparr>Filename = [], Offset = 0, Line = 1, Column = 16\<rparr>
        \<lparr>Filename = [], Offset = 0, Line = 4, Column = 1\<rparr>
        [SelectCase [String \<lparr>Filename = [], Offset = 0, Line = 2, Column = 1\<rparr> ''x'']
           \<lparr>Filename = [], Offset = 0, Line = 2, Column = 4\<rparr>
           (Variable ''x'' \<lparr>Filename = [], Offset = 0, Line = 2, Column = 6\<rparr>
              (List zeroPos zeroPos [String zeroPos ''a''])),
         SelectCase [String \<lparr>Filename = [], Offset = 0, Line = 3, Column = 8\<rparr>
                       ''__soong_conditions_default__'']
           \<lparr>Filename = [], Offset = 0, Line = 3, Column = 8\<rparr>
           (UnsetProperty \<lparr>Filename = [], Offset = 0, Line = 3, Column = 10\<rparr>)]
        None ListType)
   \<and> typedScope (startOn selectVariable (Some listScope) True)
   \<and> (\<exists>kw conds lb rb cases ty.
         Select \<lparr>Filename = [], Offset = 0, Line = 1, Column = 1\<rparr>
        [\<lparr>cond_position = \<lparr>Filename = [], Offset = 0, Line = 1, Column = 8\<rparr>,
          FunctionName = ''f'',
          Args = [(\<lparr>Filename = [], Offset = 0, Line = 1, Column = 10\<rparr>, ''a'')]\<rparr>]
        \<lparr>Filename = [], Offset = 0, Line = 1, Column = 16\<rparr>
        \<lparr>Filename = [], Offset = 0, Line = 4, Column = 1\<rparr>
        [SelectCase [String \<lparr>Filename = [], Offset = 0, Line = 2, Column = 1\<rparr> ''x'']
           \<lparr>Filename = [], Offset = 0, Line = 2, Column = 4\<rparr>
           (Variable ''x'' \<lparr>Filename = [], Offset = 0, Line = 2, Column = 6\<rparr>
              (List zeroPos zeroPos [String zeroPos ''a''])),
         SelectCase [String \<lparr>Filename = [], Offset = 0, Line = 3, Column = 8\<rparr>
                       ''__soong_conditions_default__'']
           \<lparr>Filename = [], Offset = 0, Line = 3, Column = 8\<rparr>
           (UnsetProperty \<lparr>Filename = [], Offset = 0, Line = 3, Column = 10\<rparr>)]
        None ListType
           = Select kw conds lb rb cases None ty
         \<and> (\<forall>a b. a < b \<and> b < length cases \<longrightarrow>
                map stripPos (Patterns (cases ! a)) \<noteq> map stripPos (Patterns (cases ! b)))
         \<and> (\<forall>a. a < length cases \<and> isAllDefault (Patterns (cases ! a)) \<longrightarrow> a = length cases - 1)
         \<and> (\<forall>c \<in> set cases. TypeOf (CaseValue c) \<noteq> UnsetType \<longrightarrow> TypeOf (CaseValue c) = ty)
         \<and> (ty = UnsetType \<longleftrightarrow> (\<forall>c \<in> set cases. TypeOf (CaseValue c) = UnsetType))
         \<and> (\<exists>c \<in> set cases. \<not> isUnsetProperty (CaseValue c))
         \<and> (\<exists>c \<in> set cases. TypeOf (CaseValue c) \<noteq> UnsetType)
         \<and> ty \<noteq> UnsetType)"
proof -
  let ?P = "startOn selectVariable (Some listScope) True"
  let ?S = "Select \<lparr>Filename = [], Offset = 0, Line = 1, Column = 1\<rparr>
        [\<lparr>cond_position = \<lparr>Filename = [], Offset = 0, Line = 1, Column = 8\<rparr>,
          FunctionName = ''f'',
          Args = [(\<lparr>Filename = [], Offset = 0, Line = 1, Column = 10\<rparr>, ''a'')]\<rparr>]
        \<lparr>Filename = [], Offset = 0, Line = 1, Column = 16\<rparr>
        \<lparr>Filename = [], Offset = 0, Line = 4, Column = 1\<rparr>
        [SelectCase [String \<lparr>Filename = [], Offset = 0, Line = 2, Column = 1\<rparr> ''x'']
           \<lparr>Filename = [], Offset = 0, Line = 2, Column = 4\<rparr>
           (Variable ''x'' \<lparr>Filename = [], Offset = 0, Line = 2, Column = 6\<rparr>
              (List zeroPos zeroPos [String zeroPos ''a''])),
         SelectCase [String \<lparr>Filename = [], Offset = 0, Line = 3, Column = 8\<rparr>
                       ''__soong_conditions_default__'']
           \<lparr>Filename = [], Offset = 0, Line = 3, Column = 8\<rparr>
           (UnsetProperty \<lparr>Filename = [], Offset = 0, Line = 3, Column = 10\<rparr>)]
        None ListType"
  have a: "fst (parseSelect 9 ?P) = Done ?S"
    by (simp add: startOn_def selectVariable_def listScope_def zeroPos_def parser_eval)
  have t: "typedScope ?P"
    by (simp add: typedScope_def startOn_def selectVariable_def listScope_def parser_eval)
  from a have "parseSelect 9 ?P = (Done ?S, snd (parseSelect 9 ?P))"
    by (simp add: prod_eq_iff)
  from parseSelect_invariants[OF this] t
  have "\<exists>kw conds lb rb cases ty.
         ?S = Select kw conds lb rb cases None ty
         \<and> (\<forall>a b. a < b \<and> b < length cases \<longrightarrow>
                map stripPos (Patterns (cases ! a)) \<noteq> map stripPos (Patterns (cases ! b)))
         \<and> (\<forall>a. a < length cases \<and> isAllDefault (Patterns (cases ! a)) \<longrightarrow> a = length cases - 1)
         \<and> (\<forall>c \<in> set cases. TypeOf (CaseValue c) \<noteq> UnsetType \<longrightarrow> TypeOf (CaseValue c) = ty)
         \<and> (ty = UnsetType \<longleftrightarrow> (\<forall>c \<in> set cases. TypeOf (CaseValue c) = UnsetType))
         \<and> (\<exists>c \<in> set cases. \<not> isUnsetProperty (CaseValue c))
         \<and> (\<exists>c \<in> set cases. TypeOf (CaseValue c) \<noteq> UnsetType)
         \<and> ty \<noteq> UnsetType"
    by blast
  with a t show ?thesis by blast
qed

text \<open>
  Claim C4 as the specification words it asks for a case whose value is not unset, and for
  one type shared by the case values that are not unset. In evaluation mode, with \<open>x\<close>
  bound to a value of type unset, \<open>parseSelect\<close> returns on
  \<open>select(f("a"), { "x": x, default: unset, })\<close>: the flag \<open>hasNonUnsetValue\<close> is raised by
  any case value that is not the keyword \<open>unset\<close>, and the first value here is a variable.
  Both case values have the type unset, so no case has a value that is not unset by its
  type. And on
  \<open>select(f("a"), { "x": x, "y": "s", })\<close> it returns a select with two case values, neither
  of them the keyword \<open>unset\<close>, of the two types unset and string: the values that are not
  the keyword \<open>unset\<close> do not share a type.
\<close>

theorem parseSelect_invariants_counterexample:
  "fst (parseSelect 9 (startOn selectVariable (Some unsetScope) True))
     = Done (Select \<lparr>Filename = [], Offset = 0, Line = 1, Column = 1\<rparr>
        [\<lparr>cond_position = \<lparr>Filename = [], Offset = 0, Line = 1, Column = 8\<rparr>,
          FunctionName = ''f'',
          Args = [(\<lparr>Filename = [], Offset = 0, Line = 1, Column = 10\<rparr>, ''a'')]\<rparr>]
        \<lparr>Filename = [], Offset = 0, Line = 1, Column = 16\<rparr>
        \<lparr>Filename = [], Offset = 0, Line = 4, Column = 1\<rparr>
        [SelectCase [String \<lparr>Filename = [], Offset = 0, Line = 2, Column = 1\<rparr> ''x'']
           \<lparr>Filename = [], Offset = 0, Line = 2, Column = 4\<rparr>
           (Variable ''x'' \<lparr>Filename = [], Offset = 0, Line = 2, Column = 6\<rparr>
              (UnsetProperty zeroPos)),
         SelectCase [String \<lparr>Filename = [], Offset = 0, Line = 3, Column = 8\<rparr>
                       ''__soong_conditions_default__'']
           \<lparr>Filename = [], Offset = 0, Line = 3, Column = 8\<rparr>
           (UnsetProperty \<lparr>Filename = [], Offset = 0, Line = 3, Column = 10\<rparr>)]
        None UnsetType)
   \<and> TypeOf (Variable ''x'' \<lparr>Filename = [], Offset = 0, Line = 2, Column = 6\<rparr>
              (UnsetProperty zeroPos)) = UnsetType
   \<and> TypeOf (UnsetProperty \<lparr>Filename = [], Offset = 0, Line = 3, Column = 10\<rparr>) = UnsetType
   \<and> fst (parseSelect 9 (startOn selectVariableString (Some unsetScope) True))
     = Done (Select \<lparr>Filename = [], Offset = 0, Line = 1, Column = 1\<rparr>
        [\<lparr>cond_position = \<lparr>Filename = [], Offset = 0, Line = 1, Column = 8\<rparr>,
          FunctionName = ''f'',
          Args = [(\<lparr>Filename = [], Offset = 0, Line = 1, Column = 10\<rparr>, ''a'')]\<rparr>]
        \<lparr>Filename = [], Offset = 0, Line = 1, Column = 16\<rparr>
        \<lparr>Filename = [], Offset = 0, Line = 4, Column = 1\<rparr>
        [SelectCase [String \<lparr>Filename = [], Offset = 0, Line = 2, Column = 1\<rparr> ''x'']
           \<lparr>Filename = [], Offset = 0, Line = 2, Column = 4\<rparr>
           (Variable ''x'' \<lparr>Filename = [], Offset = 0, Line = 2, Column = 6\<rparr>
              (UnsetProperty zeroPos)),
         SelectCase [String \<lparr>Filename = [], Offset = 0, Line = 3, Column = 1\<rparr> ''y'']
           \<lparr>Filename = [], Offset = 0, Line = 3, Column = 4\<rparr>
           (String \<lparr>Filename = [], Offset = 0, Line = 3, Column = 6\<rparr> ''s'')]
        None StringType)
   \<and> isUnsetProperty (Variable ''x'' \<lparr>Filename = [], Offset = 0, Line = 2, Column = 6\<rparr>
              (UnsetProperty zeroPos)) = False
   \<and> isUnsetProperty (String \<lparr>Filename = [], Offset = 0, Line = 3, Column = 6\<rparr> ''s'') = False
   \<and> TypeOf (String \<lparr>Filename = [], Offset = 0, Line = 3, Column = 6\<rparr> ''s'') = StringType"
  by (simp add: startOn_def selectVariable_def selectVariableString_def unsetScope_def
      zeroPos_def parser_eval)

end
